(* ===== verification/Prelude.thy ===== *)
theory Prelude
  imports
    Main
    "HOL-Library.AList"
    "HOL-Library.List_Lexorder"
    "HOL-Library.Product_Lexorder"
begin

text \<open>
  Shared vocabulary of the development.

  \<^item> Python text (\<open>ustr\<close>): a \<open>str\<close> is its list of Unicode code points, so equality, order and
    concatenation of \<open>ustr\<close> are Python's; \<open>lit\<close> embeds an ASCII literal.
  \<^item> Fallible code: a Python function that may raise returns \<open>'e + 'a\<close>, \<open>Inl\<close> the exception.
    A validator (a \<open>__post_init__\<close>) returns the exception it raises as \<open>'e option\<close>; a sequence of
    checks is \<open>first_error\<close>, and \<open>construct\<close> is the dataclass constructor that runs the validator.
  \<^item> Dictionaries that are iterated keep their insertion order: they are association lists updated
    by \<open>AList.update\<close>, which, like Python, replaces a value in place and appends a new key.
  \<^item> Loops that build a dictionary of the last element per key (\<open>last_per_key\<close>) and the listing of
    such a dictionary in sorted key order (\<open>listing\<close>).
\<close>

section \<open>Python text\<close>

type_synonym ustr = "nat list"
type_synonym bytes = "nat list"

definition lit :: "string \<Rightarrow> ustr" where
  "lit s = map of_char s"

lemma lit_inject [simp]: "lit a = lit b \<longleftrightarrow> a = b"
  by (simp add: lit_def inj_of_char)

lemma lit_Nil [simp]: "lit s = [] \<longleftrightarrow> s = []"
  by (simp add: lit_def)

lemma length_lit [simp]: "length (lit s) = length s"
  by (simp add: lit_def)

text \<open>
  The length of \<open>value.encode("utf-8")\<close>; a lone surrogate has no UTF-8 encoding and the call raises.
\<close>

definition is_surrogate :: "nat \<Rightarrow> bool" where
  "is_surrogate c \<longleftrightarrow> 55296 \<le> c \<and> c \<le> 57343"

definition utf8_width :: "nat \<Rightarrow> nat" where
  "utf8_width c = (if c < 128 then 1 else if c < 2048 then 2 else if c < 65536 then 3 else 4)"

definition utf8_length :: "ustr \<Rightarrow> nat option" where
  "utf8_length t =
     (if list_ex is_surrogate t then None else Some (sum_list (map utf8_width t)))"

text \<open>Decimal numerals, as \<open>str(n)\<close> prints them.\<close>

definition digit_char :: "nat \<Rightarrow> char" where
  "digit_char d = char_of (48 + d)"

fun nat_dec :: "nat \<Rightarrow> string" where
  "nat_dec n = (if n < 10 then [digit_char n] else nat_dec (n div 10) @ [digit_char (n mod 10)])"

declare nat_dec.simps [simp del]

text \<open>Python exceptions that carry no code of their own.\<close>

datatype py_error =
    ValueError string
  | OverflowError string
  | UnicodeEncodeError
  | KeyError
  | IndexError
  | TypeError
  | PersistentStoreError string
  | DatabaseError string
  | OSError string
  | InjectedFault string

section \<open>Errors as values\<close>

primrec first_error :: "'e option list \<Rightarrow> 'e option" where
  "first_error [] = None"
| "first_error (c # cs) = (case c of Some e \<Rightarrow> Some e | None \<Rightarrow> first_error cs)"

definition raise_if :: "bool \<Rightarrow> 'e \<Rightarrow> 'e option" where
  "raise_if b e = (if b then Some e else None)"

definition construct :: "('a \<Rightarrow> 'e option) \<Rightarrow> 'a \<Rightarrow> 'e + 'a" where
  "construct post_init x = (case post_init x of Some e \<Rightarrow> Inl e | None \<Rightarrow> Inr x)"

definition bind_result :: "'exn + 'x \<Rightarrow> ('x \<Rightarrow> 'exn + 'y) \<Rightarrow> 'exn + 'y" where
  "bind_result outcome body = (case outcome of Inl exn \<Rightarrow> Inl exn | Inr result \<Rightarrow> body result)"

definition map_result :: "('a \<Rightarrow> 'b) \<Rightarrow> 'e + 'a \<Rightarrow> 'e + 'b" where
  "map_result f m = (case m of Inl e \<Rightarrow> Inl e | Inr x \<Rightarrow> Inr (f x))"

fun fold_result :: "('a \<Rightarrow> 's \<Rightarrow> 'e + 's) \<Rightarrow> 'a list \<Rightarrow> 's \<Rightarrow> 'e + 's" where
  "fold_result f [] s = Inr s"
| "fold_result f (x # xs) s = (case f x s of Inl e \<Rightarrow> Inl e | Inr s' \<Rightarrow> fold_result f xs s')"

fun map_list_result :: "('a \<Rightarrow> 'e + 'b) \<Rightarrow> 'a list \<Rightarrow> 'e + 'b list" where
  "map_list_result f [] = Inr []"
| "map_list_result f (x # xs) =
     (case f x of Inl e \<Rightarrow> Inl e
      | Inr y \<Rightarrow> (case map_list_result f xs of Inl e \<Rightarrow> Inl e | Inr ys \<Rightarrow> Inr (y # ys)))"

lemma first_error_None [simp]: "first_error cs = None \<longleftrightarrow> (\<forall>c \<in> set cs. c = None)"
  by (induction cs) (auto split: option.splits)

lemma first_error_SomeD: "first_error cs = Some e \<Longrightarrow> Some e \<in> set cs"
  by (induction cs) (auto split: option.splits)

text \<open>
  A validator is reasoned about through \<open>first_error_None\<close>; its equations only serve evaluation.
\<close>

declare first_error.simps(2) [simp del]

lemma raise_if_None [simp]: "raise_if b e = None \<longleftrightarrow> \<not> b"
  by (simp add: raise_if_def)

lemma raise_if_Some [simp]: "raise_if b e = Some e' \<longleftrightarrow> b \<and> e' = e"
  by (auto simp: raise_if_def)

lemma construct_Inr [simp]: "construct p x = Inr y \<longleftrightarrow> p x = None \<and> y = x"
  by (auto simp: construct_def split: option.splits)

lemma construct_Inl [simp]: "construct p x = Inl e \<longleftrightarrow> p x = Some e"
  by (auto simp: construct_def split: option.splits)

lemma bind_result_Inr [simp]: "bind_result m f = Inr y \<longleftrightarrow> (\<exists>x. m = Inr x \<and> f x = Inr y)"
  by (auto simp: bind_result_def split: sum.splits)

lemma bind_result_simps [simp]: "bind_result (Inl e) f = Inl e" "bind_result (Inr x) f = f x"
  by (simp_all add: bind_result_def)

lemma bind_result_Inl:
  "bind_result m f = Inl e \<longleftrightarrow> m = Inl e \<or> (\<exists>x. m = Inr x \<and> f x = Inl e)"
  by (auto simp: bind_result_def split: sum.splits)

lemma map_result_Inr [simp]: "map_result f m = Inr y \<longleftrightarrow> (\<exists>x. m = Inr x \<and> y = f x)"
  by (auto simp: map_result_def split: sum.splits)

lemma map_result_Inl [simp]: "map_result f m = Inl e \<longleftrightarrow> m = Inl e"
  by (auto simp: map_result_def split: sum.splits)

lemma map_result_simps [simp]: "map_result f (Inl e) = Inl e" "map_result f (Inr x) = Inr (f x)"
  by (simp_all add: map_result_def)

lemma fold_result_append:
  "fold_result f (xs @ ys) s =
     (case fold_result f xs s of Inl e \<Rightarrow> Inl e | Inr s' \<Rightarrow> fold_result f ys s')"
  by (induction xs arbitrary: s) (auto split: sum.splits)

lemma map_list_result_Inr:
  "map_list_result f xs = Inr ys \<longleftrightarrow> list_all2 (\<lambda>x y. f x = Inr y) xs ys"
proof (induction xs arbitrary: ys)
  case Nil
  then show ?case by (cases ys) simp_all
next
  case (Cons x xs)
  show ?case
    using Cons.IH [of "tl ys"]
    by (cases "f x"; cases "map_list_result f xs"; cases ys) auto
qed

lemma map_list_result_map: "(\<And>x. x \<in> set xs \<Longrightarrow> f (g x) = Inr (h x)) \<Longrightarrow>
    map_list_result f (map g xs) = Inr (map h xs)"
  by (induction xs) auto

section \<open>The last element per key\<close>

definition last_per_key :: "('a \<Rightarrow> 'k) \<Rightarrow> 'a list \<Rightarrow> 'k \<Rightarrow> 'a option" where
  "last_per_key key xs k =
     (let ys = filter (\<lambda>x. key x = k) xs in if ys = [] then None else Some (last ys))"

lemma last_per_key_Nil [simp]: "last_per_key key [] k = None"
  by (simp add: last_per_key_def)

lemma last_per_key_snoc [simp]:
  "last_per_key key (xs @ [x]) k = (if key x = k then Some x else last_per_key key xs k)"
  by (simp add: last_per_key_def)

lemma last_per_key_None [simp]: "last_per_key key xs k = None \<longleftrightarrow> k \<notin> key ` set xs"
  by (auto simp: last_per_key_def Let_def filter_empty_conv)

lemma last_per_key_SomeD:
  assumes "last_per_key key xs k = Some x"
  shows "x \<in> set xs" and "key x = k"
proof -
  from assms have ne: "filter (\<lambda>x. key x = k) xs \<noteq> []"
    and x: "x = last (filter (\<lambda>x. key x = k) xs)"
    by (auto simp: last_per_key_def Let_def split: if_splits)
  from last_in_set [OF ne] x have "x \<in> set (filter (\<lambda>x. key x = k) xs)" by simp
  then show "x \<in> set xs" and "key x = k" by auto
qed

definition collect_last :: "('a \<Rightarrow> 'k) \<Rightarrow> 'a list \<Rightarrow> ('k \<times> 'a) list" where
  "collect_last key xs = fold (\<lambda>x d. AList.update (key x) x d) xs []"

lemma collect_last_snoc:
  "collect_last key (xs @ [x]) = AList.update (key x) x (collect_last key xs)"
  by (simp add: collect_last_def)

lemma map_of_collect_last: "map_of (collect_last key xs) = last_per_key key xs"
proof (induction xs rule: rev_induct)
  case Nil
  then show ?case by (simp add: collect_last_def fun_eq_iff)
next
  case (snoc x xs)
  then show ?case by (simp add: collect_last_snoc update_conv' fun_eq_iff)
qed

lemma distinct_collect_last [simp]: "distinct (map fst (collect_last key xs))"
  by (induction xs rule: rev_induct)
    (simp_all add: collect_last_def distinct_update)

lemma keys_collect_last: "fst ` set (collect_last key xs) = key ` set xs"
  by (induction xs rule: rev_induct)
    (simp_all add: collect_last_def dom_update)

lemma fold_if_filter:
  "fold (\<lambda>x d. if P x then g x d else d) xs d = fold g (filter P xs) d"
  by (induction xs arbitrary: d) auto

text \<open>
  \<open>tuple(d[k] for k in sorted(d, key=ord))\<close>.
\<close>

definition listing :: "('k \<Rightarrow> 'o::linorder) \<Rightarrow> ('k \<times> 'a) list \<Rightarrow> 'a list" where
  "listing ord d = map (\<lambda>k. the (map_of d k)) (sort_key ord (map fst d))"

lemma set_listing_collect:
  "set (listing ord (collect_last key xs)) = {x. \<exists>k. last_per_key key xs k = Some x}"
proof -
  have "set (listing ord (collect_last key xs)) =
      (\<lambda>k. the (last_per_key key xs k)) ` key ` set xs"
    by (simp add: listing_def map_of_collect_last keys_collect_last)
  also have "\<dots> = {x. \<exists>k. last_per_key key xs k = Some x}"
  proof (intro equalityI subsetI)
    fix x assume "x \<in> (\<lambda>k. the (last_per_key key xs k)) ` key ` set xs"
    then obtain k where "k \<in> key ` set xs" and x: "x = the (last_per_key key xs k)" by auto
    then have "last_per_key key xs k \<noteq> None" by simp
    then show "x \<in> {x. \<exists>k. last_per_key key xs k = Some x}" using x by auto
  next
    fix x assume "x \<in> {x. \<exists>k. last_per_key key xs k = Some x}"
    then obtain k where k: "last_per_key key xs k = Some x" by auto
    then have "k \<in> key ` set xs" using last_per_key_SomeD [OF k] by auto
    with k show "x \<in> (\<lambda>k. the (last_per_key key xs k)) ` key ` set xs"
      by (metis (no_types, lifting) image_eqI option.sel)
  qed
  finally show ?thesis .
qed

lemma in_listing_collect:
  "x \<in> set (listing ord (collect_last key xs)) \<longleftrightarrow> last_per_key key xs (key x) = Some x"
  by (auto simp: set_listing_collect dest: last_per_key_SomeD(2))

lemma keys_listing_collect:
  "map key (listing ord (collect_last key xs)) = sort_key ord (map fst (collect_last key xs))"
proof -
  have "key (the (last_per_key key xs k)) = k" if "k \<in> key ` set xs" for k
  proof -
    from that have "last_per_key key xs k \<noteq> None" by simp
    then obtain x where x: "last_per_key key xs k = Some x" by blast
    then show ?thesis using last_per_key_SomeD(2) [OF x] by simp
  qed
  then have "map (\<lambda>k. key (the (last_per_key key xs k))) ks = ks" if "set ks \<subseteq> key ` set xs" for ks
    using that by (intro map_idI) auto
  then show ?thesis
    by (simp add: listing_def map_of_collect_last keys_collect_last comp_def)
qed

lemma sorted_listing_collect:
  "sorted (map (\<lambda>x. ord (key x)) (listing ord (collect_last key xs)))"
proof -
  have "map (\<lambda>x. ord (key x)) (listing ord (collect_last key xs)) =
      map ord (map key (listing ord (collect_last key xs)))" by simp
  then show ?thesis by (simp add: keys_listing_collect)
qed

lemma distinct_listing_collect:
  "distinct (map key (listing ord (collect_last key xs)))"
  by (simp add: keys_listing_collect)

text \<open>
  With an injective order on keys a sorted listing is determined by its elements: two listings with
  the same members are the same list.
\<close>

lemma sorted_distinct_keys_unique:
  assumes "inj f"
    and "sorted (map (\<lambda>x. f (key x)) xs)" "distinct (map key xs)"
    and "sorted (map (\<lambda>x. f (key x)) ys)" "distinct (map key ys)"
    and "set xs = set ys"
  shows "xs = ys"
proof -
  have dist: "distinct (map (\<lambda>x. f (key x)) zs)" if "distinct (map key zs)" for zs
  proof -
    have "distinct (map f (map key zs))"
      using that inj_on_subset [OF assms(1) subset_UNIV] by (subst distinct_map) simp
    then show ?thesis by (simp add: comp_def)
  qed
  have eq: "map (\<lambda>x. f (key x)) xs = map (\<lambda>x. f (key x)) ys"
    by (rule sorted_distinct_set_unique
        [OF assms(2) dist [OF assms(3)] assms(4) dist [OF assms(5)]])
      (simp add: assms(6))
  have "inj_on (\<lambda>x. f (key x)) (set xs \<union> set ys)"
    using dist [OF assms(3)] by (simp add: distinct_map assms(6))
  with eq show ?thesis by (rule map_inj_on)
qed

end
