(* ===== verification/Pit_Types.thy ===== *)
theory Pit_Types
  imports Prelude
begin

text \<open>
  The immutable point-in-time data contracts of \<open>python/research/aegis_mx_research/types.py\<close>: the
  enumerations, one record or constructor per frozen dataclass, and the validator each dataclass runs
  in \<open>__post_init__\<close>. A validator returns the exception it raises, \<open>None\<close> when the value is accepted.
  The lemmas spell out what an accepted record guarantees about its five clocks and its identity.
\<close>

section \<open>Enumerations\<close>

datatype source_kind = OFFICIAL_PRIMARY | LICENSED_PROVIDER | PUBLIC_SECONDARY | SYNTHETIC_REPLAY

fun source_kind_value :: "source_kind \<Rightarrow> int" where
  "source_kind_value OFFICIAL_PRIMARY = 1"
| "source_kind_value LICENSED_PROVIDER = 2"
| "source_kind_value PUBLIC_SECONDARY = 3"
| "source_kind_value SYNTHETIC_REPLAY = 4"

datatype record_kind =
    CORPORATE_ACTION | SYMBOL_MAPPING | DELISTING | INDEX_MEMBERSHIP
  | ANALYST_ESTIMATE | MACRO_VINTAGE | NEWS_REVISION | FILING_REVISION

fun record_kind_value :: "record_kind \<Rightarrow> int" where
  "record_kind_value CORPORATE_ACTION = 1"
| "record_kind_value SYMBOL_MAPPING = 2"
| "record_kind_value DELISTING = 3"
| "record_kind_value INDEX_MEMBERSHIP = 4"
| "record_kind_value ANALYST_ESTIMATE = 5"
| "record_kind_value MACRO_VINTAGE = 6"
| "record_kind_value NEWS_REVISION = 7"
| "record_kind_value FILING_REVISION = 8"

datatype corporate_action_type = SPLIT | CASH_DIVIDEND | MERGER | SPINOFF

fun corporate_action_type_value :: "corporate_action_type \<Rightarrow> int" where
  "corporate_action_type_value SPLIT = 1"
| "corporate_action_type_value CASH_DIVIDEND = 2"
| "corporate_action_type_value MERGER = 3"
| "corporate_action_type_value SPINOFF = 4"

datatype dataset_split = TRAIN | VALIDATION | TEST

fun dataset_split_value :: "dataset_split \<Rightarrow> int" where
  "dataset_split_value TRAIN = 1"
| "dataset_split_value VALIDATION = 2"
| "dataset_split_value TEST = 3"

datatype split_method = WALK_FORWARD | BLOCKED_TIME | RANDOMIZED

section \<open>Field checks\<close>

definition POINT_IN_TIME_SCHEMA_VERSION :: ustr where
  "POINT_IN_TIME_SCHEMA_VERSION = lit ''1.0.0''"

definition MAX_TEXT_BYTES :: nat where
  "MAX_TEXT_BYTES = 160"

definition SHA256_BYTES :: nat where
  "SHA256_BYTES = 32"

definition bounded_text :: "ustr \<Rightarrow> string \<Rightarrow> nat \<Rightarrow> py_error option" where
  "bounded_text value name maximum =
     (let msg = name @ '' is empty, contains NUL, or exceeds '' @ nat_dec maximum @ '' UTF-8 bytes''
      in if value = [] \<or> 0 \<in> set value then Some (ValueError msg)
         else case utf8_length value of
             None \<Rightarrow> Some UnicodeEncodeError
           | Some n \<Rightarrow> if maximum < n then Some (ValueError msg) else None)"

definition positive :: "int \<Rightarrow> string \<Rightarrow> py_error option" where
  "positive value name = raise_if (value \<le> 0) (ValueError (name @ '' must be positive''))"

section \<open>Source, validity and payloads\<close>

record data_source =
  source_id :: ustr
  source_kind_of :: source_kind
  provider :: ustr
  source_document_id :: ustr
  content_sha256 :: bytes
  authenticated :: bool

definition data_source_post_init :: "data_source \<Rightarrow> py_error option" where
  "data_source_post_init s = first_error
     [bounded_text (source_id s) ''source_id'' MAX_TEXT_BYTES,
      bounded_text (provider s) ''provider'' MAX_TEXT_BYTES,
      bounded_text (source_document_id s) ''document_id'' MAX_TEXT_BYTES,
      raise_if (length (content_sha256 s) \<noteq> SHA256_BYTES \<or> \<not> list_ex (\<lambda>b. b \<noteq> 0) (content_sha256 s))
        (ValueError ''content_sha256 must be a nonzero SHA-256 digest'')]"

record validity_interval =
  valid_from_ns :: int
  valid_to_ns :: "int option"

definition validity_interval_post_init :: "validity_interval \<Rightarrow> py_error option" where
  "validity_interval_post_init v = first_error
     [positive (valid_from_ns v) ''valid_from_ns'',
      raise_if (case valid_to_ns v of None \<Rightarrow> False | Some e \<Rightarrow> e \<le> valid_from_ns v)
        (ValueError ''valid_to_ns must be greater than valid_from_ns'')]"

definition validity_contains :: "validity_interval \<Rightarrow> int \<Rightarrow> bool" where
  "validity_contains v timestamp_ns \<longleftrightarrow>
     valid_from_ns v \<le> timestamp_ns \<and>
     (case valid_to_ns v of None \<Rightarrow> True | Some e \<Rightarrow> timestamp_ns < e)"

text \<open>
  The eight payload dataclasses, with their fields in source order:
  \<open>CorporateAction action_id instrument_id action_type ratio_numerator ratio_denominator\<close>,
  \<open>SymbolMapping symbol instrument_id venue\<close>, \<open>Delisting instrument_id reason\<close>,
  \<open>IndexMembership index_id instrument_id included\<close>,
  \<open>AnalystEstimateVintage instrument_id metric_id fiscal_period value unit\<close>,
  \<open>MacroVintage series_id reference_period value unit\<close>,
  \<open>NewsRevision document_id correction_of_record_id\<close>,
  \<open>FilingRevision accession_id form_type amendment_of_record_id\<close>.
\<close>

datatype record_payload =
    CorporateAction ustr ustr corporate_action_type int int
  | SymbolMapping ustr ustr ustr
  | Delisting ustr ustr
  | IndexMembership ustr ustr bool
  | AnalystEstimateVintage ustr ustr ustr int ustr
  | MacroVintage ustr ustr int ustr
  | NewsRevision ustr "ustr option"
  | FilingRevision ustr ustr "ustr option"

definition optional_text :: "ustr option \<Rightarrow> string \<Rightarrow> py_error option" where
  "optional_text value name =
     (case value of None \<Rightarrow> None | Some t \<Rightarrow> bounded_text t name MAX_TEXT_BYTES)"

fun payload_post_init :: "record_payload \<Rightarrow> py_error option" where
  "payload_post_init (CorporateAction action_id instrument_id _ num den) = first_error
     [bounded_text action_id ''action_id'' MAX_TEXT_BYTES,
      bounded_text instrument_id ''instrument_id'' MAX_TEXT_BYTES,
      positive num ''ratio_numerator'',
      positive den ''ratio_denominator'']"
| "payload_post_init (SymbolMapping symbol instrument_id venue) = first_error
     [bounded_text symbol ''symbol'' 32,
      bounded_text instrument_id ''instrument_id'' MAX_TEXT_BYTES,
      bounded_text venue ''venue'' 32]"
| "payload_post_init (Delisting instrument_id reason) = first_error
     [bounded_text instrument_id ''instrument_id'' MAX_TEXT_BYTES,
      bounded_text reason ''reason'' MAX_TEXT_BYTES]"
| "payload_post_init (IndexMembership index_id instrument_id _) = first_error
     [bounded_text index_id ''index_id'' MAX_TEXT_BYTES,
      bounded_text instrument_id ''instrument_id'' MAX_TEXT_BYTES]"
| "payload_post_init (AnalystEstimateVintage instrument_id metric_id fiscal_period _ unit) =
     first_error
     [bounded_text instrument_id ''instrument_id'' MAX_TEXT_BYTES,
      bounded_text metric_id ''metric_id'' 64,
      bounded_text fiscal_period ''fiscal_period'' 32,
      bounded_text unit ''unit'' 32]"
| "payload_post_init (MacroVintage series_id reference_period _ unit) = first_error
     [bounded_text series_id ''series_id'' 64,
      bounded_text reference_period ''reference_period'' 32,
      bounded_text unit ''unit'' 32]"
| "payload_post_init (NewsRevision document_id correction_of) = first_error
     [bounded_text document_id ''document_id'' MAX_TEXT_BYTES,
      optional_text correction_of ''correction_of_record_id'']"
| "payload_post_init (FilingRevision accession_id form_type amendment_of) = first_error
     [bounded_text accession_id ''accession_id'' MAX_TEXT_BYTES,
      bounded_text form_type ''form_type'' 32,
      optional_text amendment_of ''amendment_of_record_id'']"

fun payload_kind :: "record_payload \<Rightarrow> record_kind" where
  "payload_kind (CorporateAction _ _ _ _ _) = CORPORATE_ACTION"
| "payload_kind (SymbolMapping _ _ _) = SYMBOL_MAPPING"
| "payload_kind (Delisting _ _) = DELISTING"
| "payload_kind (IndexMembership _ _ _) = INDEX_MEMBERSHIP"
| "payload_kind (AnalystEstimateVintage _ _ _ _ _) = ANALYST_ESTIMATE"
| "payload_kind (MacroVintage _ _ _ _) = MACRO_VINTAGE"
| "payload_kind (NewsRevision _ _) = NEWS_REVISION"
| "payload_kind (FilingRevision _ _ _) = FILING_REVISION"

fun payload_logical_key :: "record_payload \<Rightarrow> ustr" where
  "payload_logical_key (CorporateAction action_id _ _ _ _) = action_id"
| "payload_logical_key (SymbolMapping symbol _ _) = symbol"
| "payload_logical_key (Delisting instrument_id _) = instrument_id"
| "payload_logical_key (IndexMembership index_id instrument_id _) =
     index_id @ lit '':'' @ instrument_id"
| "payload_logical_key (AnalystEstimateVintage instrument_id metric_id fiscal_period _ _) =
     instrument_id @ lit '':'' @ metric_id @ lit '':'' @ fiscal_period"
| "payload_logical_key (MacroVintage series_id reference_period _ _) =
     series_id @ lit '':'' @ reference_period"
| "payload_logical_key (NewsRevision document_id _) = document_id"
| "payload_logical_key (FilingRevision accession_id _ _) = accession_id"

section \<open>The bitemporal record\<close>

record pit_record =
  record_id :: ustr
  logical_key :: ustr
  rec_kind :: record_kind
  event_time_ns :: int
  publication_time_ns :: int
  receive_time_ns :: int
  processing_time_ns :: int
  revision_time_ns :: int
  rec_validity :: validity_interval
  rec_source :: data_source
  rec_version :: int
  rec_payload :: record_payload
  rec_schema_version :: ustr

definition pit_record_post_init :: "pit_record \<Rightarrow> py_error option" where
  "pit_record_post_init r = first_error
     [bounded_text (record_id r) ''record_id'' MAX_TEXT_BYTES,
      bounded_text (logical_key r) ''logical_key'' MAX_TEXT_BYTES,
      positive (event_time_ns r) ''event_time_ns'',
      positive (publication_time_ns r) ''publication_time_ns'',
      positive (receive_time_ns r) ''receive_time_ns'',
      positive (processing_time_ns r) ''processing_time_ns'',
      positive (revision_time_ns r) ''revision_time_ns'',
      raise_if (receive_time_ns r < publication_time_ns r)
        (ValueError ''receive_time_ns cannot precede publication_time_ns''),
      raise_if (processing_time_ns r < receive_time_ns r)
        (ValueError ''processing_time_ns cannot precede receive_time_ns''),
      raise_if (revision_time_ns r < publication_time_ns r)
        (ValueError ''revision_time_ns cannot precede publication_time_ns''),
      raise_if (\<not> validity_contains (rec_validity r) (event_time_ns r))
        (ValueError ''event_time_ns must be inside the business validity interval''),
      raise_if (rec_version r \<le> 0) (ValueError ''version must be positive''),
      raise_if (rec_schema_version r \<noteq> POINT_IN_TIME_SCHEMA_VERSION)
        (ValueError ''unsupported point-in-time schema_version''),
      raise_if (rec_kind r \<noteq> payload_kind (rec_payload r))
        (ValueError ''record kind does not match payload type''),
      raise_if (logical_key r \<noteq> payload_logical_key (rec_payload r))
        (ValueError ''logical_key does not match the canonical payload key'')]"

definition available_at_ns :: "pit_record \<Rightarrow> int" where
  "available_at_ns r = max (processing_time_ns r) (revision_time_ns r)"

text \<open>
  A record object exists only when its own constructor and the constructors of its parts accepted it.
\<close>

definition pit_record_ok :: "pit_record \<Rightarrow> bool" where
  "pit_record_ok r \<longleftrightarrow>
     data_source_post_init (rec_source r) = None \<and>
     validity_interval_post_init (rec_validity r) = None \<and>
     payload_post_init (rec_payload r) = None \<and>
     pit_record_post_init r = None"

section \<open>Dataset samples and manifests\<close>

record dataset_sample =
  sample_id :: ustr
  sample_event_time_ns :: int
  feature_start_ns :: int
  feature_end_ns :: int
  label_start_ns :: int
  label_end_ns :: int
  sample_split :: dataset_split
  record_ids :: "ustr list"
  universe_instrument_ids :: "ustr list"

definition dataset_sample_post_init :: "dataset_sample \<Rightarrow> py_error option" where
  "dataset_sample_post_init s = first_error
     [bounded_text (sample_id s) ''sample_id'' MAX_TEXT_BYTES,
      positive (sample_event_time_ns s) ''event_time_ns'',
      positive (feature_start_ns s) ''feature_start_ns'',
      positive (feature_end_ns s) ''feature_end_ns'',
      positive (label_start_ns s) ''label_start_ns'',
      positive (label_end_ns s) ''label_end_ns'',
      raise_if (feature_end_ns s < feature_start_ns s) (ValueError ''feature interval is reversed''),
      raise_if (label_end_ns s < label_start_ns s) (ValueError ''label interval is reversed''),
      raise_if (record_ids s = [] \<or> card (set (record_ids s)) \<noteq> length (record_ids s))
        (ValueError ''record_ids must be nonempty and unique''),
      raise_if (card (set (universe_instrument_ids s)) \<noteq> length (universe_instrument_ids s))
        (ValueError ''universe_instrument_ids must be unique'')]"

record dataset_manifest =
  dataset_id :: ustr
  created_at_ns :: int
  manifest_split_method :: split_method
  samples :: "dataset_sample list"
  universe_index_id :: ustr
  embargo_ns :: int
  random_seed :: "int option"

definition dataset_manifest_post_init :: "dataset_manifest \<Rightarrow> py_error option" where
  "dataset_manifest_post_init m = first_error
     [bounded_text (dataset_id m) ''dataset_id'' MAX_TEXT_BYTES,
      positive (created_at_ns m) ''created_at_ns'',
      bounded_text (universe_index_id m) ''universe_index_id'' MAX_TEXT_BYTES,
      raise_if (samples m = []) (ValueError ''dataset manifest requires samples''),
      raise_if (card (set (map sample_id (samples m))) \<noteq> length (samples m))
        (ValueError ''dataset sample identifiers must be unique''),
      raise_if (embargo_ns m < 0) (ValueError ''embargo_ns cannot be negative''),
      raise_if (manifest_split_method m = RANDOMIZED \<and> random_seed m = None)
        (ValueError ''randomized split metadata must retain its random seed'')]"

definition dataset_manifest_ok :: "dataset_manifest \<Rightarrow> bool" where
  "dataset_manifest_ok m \<longleftrightarrow>
     dataset_manifest_post_init m = None \<and>
     (\<forall>s \<in> set (samples m). dataset_sample_post_init s = None)"

section \<open>What the constructors guarantee\<close>

named_theorems pit_contract \<open>facts about values accepted by the point-in-time constructors\<close>

lemma positive_None [simp]: "positive v n = None \<longleftrightarrow> 0 < v"
  by (auto simp: positive_def)

lemma bounded_text_None:
  "bounded_text value name maximum = None \<longleftrightarrow>
     value \<noteq> [] \<and> 0 \<notin> set value \<and> (\<exists>n \<le> maximum. utf8_length value = Some n)"
  by (auto simp: bounded_text_def Let_def split: option.splits)

lemma pit_record_ok_clocks [pit_contract]:
  assumes "pit_record_ok r"
  shows "0 < publication_time_ns r" and "publication_time_ns r \<le> receive_time_ns r"
    and "receive_time_ns r \<le> processing_time_ns r"
    and "publication_time_ns r \<le> revision_time_ns r"
    and "0 < event_time_ns r"
  using assms by (simp_all add: pit_record_ok_def pit_record_post_init_def)

lemma pit_record_ok_identity [pit_contract]:
  assumes "pit_record_ok r"
  shows "rec_kind r = payload_kind (rec_payload r)"
    and "logical_key r = payload_logical_key (rec_payload r)"
    and "0 < rec_version r" and "record_id r \<noteq> []"
    and "rec_schema_version r = POINT_IN_TIME_SCHEMA_VERSION"
  using assms by (simp_all add: pit_record_ok_def pit_record_post_init_def bounded_text_None)

lemma pit_record_ok_validity [pit_contract]:
  assumes "pit_record_ok r"
  shows "validity_contains (rec_validity r) (event_time_ns r)"
  using assms by (simp add: pit_record_ok_def pit_record_post_init_def)

lemma dataset_sample_ok_times [pit_contract]:
  assumes "dataset_sample_post_init s = None"
  shows "0 < sample_event_time_ns s" and "0 < feature_start_ns s" and "0 < feature_end_ns s"
    and "feature_start_ns s \<le> feature_end_ns s" and "label_start_ns s \<le> label_end_ns s"
    and "record_ids s \<noteq> []"
  using assms by (simp_all add: dataset_sample_post_init_def)

lemma record_kind_value_inject [simp]: "record_kind_value a = record_kind_value b \<longleftrightarrow> a = b"
  by (cases a; cases b) simp_all

lemma dataset_split_value_inject [simp]: "dataset_split_value a = dataset_split_value b \<longleftrightarrow> a = b"
  by (cases a; cases b) simp_all

end
