(* ===== verification/Pit_Store.thy ===== *)
theory Pit_Store
  imports Pit_Types
begin

text \<open>
  The in-memory append-only store \<open>PointInTimeStore\<close> of
  \<open>python/research/aegis_mx_research/store.py\<close>.

  The object's four attributes are the record \<open>pit_store\<close>; \<open>store_append\<close> is \<open>append\<close> with every check
  in source order, \<open>store_extend\<close> is \<open>extend\<close> (the records before a rejected one stay appended), and
  the queries are functions of the state. \<open>validate_timestamp\<close>, \<open>validate_initial_link\<close> and
  \<open>validate_revision_link\<close> are the module-level helpers both stores share; \<open>membership_from\<close>,
  \<open>symbol_mapping_from\<close> and \<open>corporate_actions_from\<close> are the loops both stores run over the snapshot
  they took.

  The locale \<open>knowledge_store\<close> states what any such store promises of a snapshot; the client lemmas
  (no look-ahead, membership, symbology, corporate actions) are proved in it once.
\<close>

section \<open>State and link checks\<close>

record pit_store =
  ps_capacity :: int
  ps_records :: "pit_record list"
  ps_by_id :: "ustr \<rightharpoonup> pit_record"
  ps_by_series :: "record_kind \<times> ustr \<rightharpoonup> pit_record list"

definition series_key :: "pit_record \<Rightarrow> record_kind \<times> ustr" where
  "series_key r = (rec_kind r, logical_key r)"

definition validate_timestamp :: "int \<Rightarrow> py_error option" where
  "validate_timestamp timestamp_ns =
     raise_if (timestamp_ns \<le> 0) (ValueError ''point-in-time query timestamp must be positive'')"

text \<open>\<open>payload.correction_of_record_id\<close> is tested for truth: neither \<open>None\<close> nor the empty text.\<close>

fun truthy_text :: "ustr option \<Rightarrow> bool" where
  "truthy_text None = False"
| "truthy_text (Some t) = (t \<noteq> [])"

definition validate_initial_link :: "pit_record \<Rightarrow> py_error option" where
  "validate_initial_link r =
     (case rec_payload r of
        NewsRevision _ correction_of \<Rightarrow>
          raise_if (truthy_text correction_of)
            (ValueError ''initial news revision cannot link to a correction parent'')
      | FilingRevision _ _ amendment_of \<Rightarrow>
          raise_if (truthy_text amendment_of)
            (ValueError ''initial filing revision cannot link to an amendment parent'')
      | _ \<Rightarrow> None)"

definition validate_revision_link :: "pit_record \<Rightarrow> pit_record \<Rightarrow> py_error option" where
  "validate_revision_link r previous =
     (case rec_payload r of
        NewsRevision _ correction_of \<Rightarrow>
          raise_if (correction_of \<noteq> Some (record_id previous))
            (ValueError ''news correction must link to the prior accepted revision'')
      | FilingRevision _ _ amendment_of \<Rightarrow>
          raise_if (amendment_of \<noteq> Some (record_id previous))
            (ValueError ''filing amendment must link to the prior accepted revision'')
      | _ \<Rightarrow> None)"

section \<open>Appending\<close>

definition pit_store_init :: "int \<Rightarrow> py_error + pit_store" where
  "pit_store_init capacity =
     (if capacity \<le> 0 then Inl (ValueError ''point-in-time store capacity must be positive'')
      else Inr \<lparr>ps_capacity = capacity, ps_records = [],
                ps_by_id = Map.empty, ps_by_series = Map.empty\<rparr>)"

definition check_lineage :: "pit_record \<Rightarrow> pit_record list option \<Rightarrow> py_error option" where
  "check_lineage r history =
     (case history of
        None \<Rightarrow> first_error
          [raise_if (rec_version r \<noteq> 1)
             (ValueError ''first point-in-time record version must be one''),
           validate_initial_link r]
      | Some [] \<Rightarrow> Some IndexError
      | Some h \<Rightarrow> (let previous = last h in first_error
          [raise_if (rec_version r \<noteq> rec_version previous + 1)
             (ValueError ''point-in-time record versions must be contiguous''),
           raise_if (revision_time_ns r \<le> revision_time_ns previous)
             (ValueError ''point-in-time revision time must increase''),
           validate_revision_link r previous]))"

definition store_append :: "pit_store \<Rightarrow> pit_record \<Rightarrow> py_error + pit_store" where
  "store_append s r =
     (if ps_capacity s \<le> int (length (ps_records s))
      then Inl (OverflowError ''point-in-time store capacity exhausted'')
      else if ps_by_id s (record_id r) \<noteq> None
      then Inl (ValueError ''duplicate point-in-time record_id'')
      else
        let key = (rec_kind r, logical_key r); history = ps_by_series s key
        in case check_lineage r history of
             Some e \<Rightarrow> Inl e
           | None \<Rightarrow> Inr (s\<lparr>ps_by_series := (ps_by_series s)
                                (key \<mapsto> (case history of None \<Rightarrow> [] | Some h \<Rightarrow> h) @ [r]),
                           ps_records := ps_records s @ [r],
                           ps_by_id := (ps_by_id s)(record_id r \<mapsto> r)\<rparr>))"

fun store_extend :: "pit_store \<Rightarrow> pit_record list \<Rightarrow> pit_store \<times> py_error option" where
  "store_extend s [] = (s, None)"
| "store_extend s (r # rs) =
     (case store_append s r of Inl e \<Rightarrow> (s, Some e) | Inr s' \<Rightarrow> store_extend s' rs)"

section \<open>Queries\<close>

definition record_by_id :: "pit_store \<Rightarrow> ustr \<Rightarrow> pit_record option" where
  "record_by_id s i = ps_by_id s i"

definition records_for :: "pit_store \<Rightarrow> record_kind \<Rightarrow> ustr \<Rightarrow> pit_record list" where
  "records_for s k l = (case ps_by_series s (k, l) of None \<Rightarrow> [] | Some h \<Rightarrow> h)"

definition available_by :: "int \<Rightarrow> bool \<Rightarrow> pit_record \<Rightarrow> bool" where
  "available_by timestamp_ns inclusive r \<longleftrightarrow>
     available_at_ns r < timestamp_ns \<or> (inclusive \<and> available_at_ns r = timestamp_ns)"

definition key_order :: "record_kind \<times> ustr \<Rightarrow> int \<times> ustr" where
  "key_order k = (record_kind_value (fst k), snd k)"

definition snapshot :: "pit_store \<Rightarrow> int \<Rightarrow> bool \<Rightarrow> py_error + pit_record list" where
  "snapshot s timestamp_ns inclusive =
     (case validate_timestamp timestamp_ns of
        Some e \<Rightarrow> Inl e
      | None \<Rightarrow> Inr (listing key_order
          (fold (\<lambda>r latest.
              if available_by timestamp_ns inclusive r
              then AList.update (series_key r) r latest else latest)
            (ps_records s) [])))"

definition as_known_at :: "pit_store \<Rightarrow> int \<Rightarrow> py_error + pit_record list" where
  "as_known_at s timestamp_ns = snapshot s timestamp_ns True"

definition latest_available_before :: "pit_store \<Rightarrow> int \<Rightarrow> py_error + pit_record list" where
  "latest_available_before s timestamp_ns = snapshot s timestamp_ns False"

definition revision_order :: "pit_record \<Rightarrow> int \<times> int \<times> ustr \<times> int" where
  "revision_order r =
     (revision_time_ns r, record_kind_value (rec_kind r), logical_key r, rec_version r)"

definition revisions_after :: "pit_store \<Rightarrow> int \<Rightarrow> py_error + pit_record list" where
  "revisions_after s timestamp_ns =
     (case validate_timestamp timestamp_ns of
        Some e \<Rightarrow> Inl e
      | None \<Rightarrow> Inr (sort_key revision_order
          (filter (\<lambda>r. timestamp_ns < revision_time_ns r) (ps_records s))))"

text \<open>The loops over a snapshot. \<open>members\<close> is the Python set the loop adds to and discards from.\<close>

definition membership_from :: "int \<Rightarrow> ustr \<Rightarrow> pit_record list \<Rightarrow> ustr list" where
  "membership_from timestamp_ns index rs = sorted_list_of_set
     (fold (\<lambda>r members.
         case rec_payload r of
           IndexMembership index_id instrument_id included \<Rightarrow>
             if index_id = index \<and> validity_contains (rec_validity r) timestamp_ns
             then (if included then insert instrument_id members else members - {instrument_id})
             else members
         | _ \<Rightarrow> members)
       rs {})"

fun symbol_mapping_from :: "int \<Rightarrow> ustr \<Rightarrow> pit_record list \<Rightarrow> record_payload option" where
  "symbol_mapping_from timestamp_ns wanted [] = None"
| "symbol_mapping_from timestamp_ns wanted (r # rs) =
     (case rec_payload r of
        SymbolMapping symbol instrument_id venue \<Rightarrow>
          if symbol = wanted \<and> validity_contains (rec_validity r) timestamp_ns
          then Some (SymbolMapping symbol instrument_id venue)
          else symbol_mapping_from timestamp_ns wanted rs
      | _ \<Rightarrow> symbol_mapping_from timestamp_ns wanted rs)"

definition corporate_actions_from :: "ustr \<Rightarrow> pit_record list \<Rightarrow> pit_record list" where
  "corporate_actions_from instrument rs = filter
     (\<lambda>r. case rec_payload r of
            CorporateAction _ instrument_id _ _ _ \<Rightarrow> instrument_id = instrument
          | _ \<Rightarrow> False) rs"

definition cutoff_of :: "int \<Rightarrow> int option \<Rightarrow> int" where
  "cutoff_of timestamp_ns known_at_ns =
     (case known_at_ns of None \<Rightarrow> timestamp_ns | Some k \<Rightarrow> k)"

definition membership_at :: "pit_store \<Rightarrow> int \<Rightarrow> ustr \<Rightarrow> int option \<Rightarrow> py_error + ustr list" where
  "membership_at s timestamp_ns index known_at_ns =
     map_result (membership_from timestamp_ns index)
       (as_known_at s (cutoff_of timestamp_ns known_at_ns))"

definition symbol_mapping_at ::
    "pit_store \<Rightarrow> int \<Rightarrow> ustr \<Rightarrow> int option \<Rightarrow> py_error + record_payload option" where
  "symbol_mapping_at s timestamp_ns wanted known_at_ns =
     map_result (symbol_mapping_from timestamp_ns wanted)
       (as_known_at s (cutoff_of timestamp_ns known_at_ns))"

definition corporate_action_history :: "pit_store \<Rightarrow> ustr \<Rightarrow> int \<Rightarrow> py_error + pit_record list" where
  "corporate_action_history s instrument known_at_ns =
     map_result (corporate_actions_from instrument) (as_known_at s known_at_ns)"

section \<open>The invariant of a store\<close>

definition series :: "pit_store \<Rightarrow> record_kind \<times> ustr \<Rightarrow> pit_record list" where
  "series s k = filter (\<lambda>r. series_key r = k) (ps_records s)"

text \<open>
  The lineage of one series: versions count from one, revision times strictly increase, and every
  revision passed the link check against its predecessor.
\<close>

definition lineage_ok :: "pit_record list \<Rightarrow> bool" where
  "lineage_ok h \<longleftrightarrow>
     map rec_version h = map int [1..<Suc (length h)] \<and>
     sorted_wrt (<) (map revision_time_ns h) \<and>
     (h \<noteq> [] \<longrightarrow> validate_initial_link (hd h) = None) \<and>
     (\<forall>i. Suc i < length h \<longrightarrow> validate_revision_link (h ! Suc i) (h ! i) = None)"

definition pit_store_inv :: "pit_store \<Rightarrow> bool" where
  "pit_store_inv s \<longleftrightarrow>
     0 < ps_capacity s \<and> int (length (ps_records s)) \<le> ps_capacity s \<and>
     distinct (map record_id (ps_records s)) \<and>
     (\<forall>i r. ps_by_id s i = Some r \<longleftrightarrow> r \<in> set (ps_records s) \<and> record_id r = i) \<and>
     (\<forall>k. ps_by_series s k = (if series s k = [] then None else Some (series s k))) \<and>
     (\<forall>k. lineage_ok (series s k)) \<and>
     (\<forall>r \<in> set (ps_records s). pit_record_ok r)"

lemma pit_store_invD:
  assumes "pit_store_inv s"
  shows pit_store_inv_length: "int (length (ps_records s)) \<le> ps_capacity s"
    and pit_store_inv_distinct: "distinct (map record_id (ps_records s))"
    and pit_store_inv_by_id:
      "\<And>i r. ps_by_id s i = Some r \<longleftrightarrow> r \<in> set (ps_records s) \<and> record_id r = i"
    and pit_store_inv_by_series:
      "\<And>k. ps_by_series s k = (if series s k = [] then None else Some (series s k))"
    and pit_store_inv_lineage: "\<And>k. lineage_ok (series s k)"
    and pit_store_inv_ok: "\<And>r. r \<in> set (ps_records s) \<Longrightarrow> pit_record_ok r"
  using assms unfolding pit_store_inv_def by blast+

lemma pit_store_inv_fresh:
  assumes "pit_store_inv s"
  shows "ps_by_id s i = None \<longleftrightarrow> i \<notin> record_id ` set (ps_records s)"
  using pit_store_inv_by_id [OF assms, of i] by (metis (no_types, lifting) image_iff not_None_eq)

inductive pit_reachable :: "pit_store \<Rightarrow> bool" where
  init: "pit_store_init capacity = Inr s \<Longrightarrow> pit_reachable s"
| append: "pit_reachable s \<Longrightarrow> pit_record_ok r \<Longrightarrow> store_append s r = Inr s' \<Longrightarrow> pit_reachable s'"

lemma store_append_Inr:
  "store_append s r = Inr s' \<longleftrightarrow>
     int (length (ps_records s)) < ps_capacity s \<and> ps_by_id s (record_id r) = None \<and>
     check_lineage r (ps_by_series s (series_key r)) = None \<and>
     s' = s\<lparr>ps_by_series := (ps_by_series s)(series_key r \<mapsto>
              (case ps_by_series s (series_key r) of None \<Rightarrow> [] | Some h \<Rightarrow> h) @ [r]),
            ps_records := ps_records s @ [r],
            ps_by_id := (ps_by_id s)(record_id r \<mapsto> r)\<rparr>"
  by (auto simp: store_append_def series_key_def Let_def split: option.splits)

lemma series_append:
  "ps_records s' = ps_records s @ [r] \<Longrightarrow>
   series s' k = (if series_key r = k then series s k @ [r] else series s k)"
  by (simp add: series_def)

lemma lineage_Nil [simp]: "lineage_ok []"
  by (simp add: lineage_ok_def)

lemma lineage_single: "lineage_ok [r] \<longleftrightarrow> rec_version r = 1 \<and> validate_initial_link r = None"
  by (auto simp: lineage_ok_def)

lemma lineage_snoc:
  assumes "h \<noteq> []"
  shows "lineage_ok (h @ [r]) \<longleftrightarrow>
     lineage_ok h \<and> rec_version r = rec_version (last h) + 1 \<and>
     revision_time_ns (last h) < revision_time_ns r \<and> validate_revision_link r (last h) = None"
proof -
  obtain n where n: "length h = Suc n" using assms by (cases h) auto
  have last: "last h = h ! n" using assms n by (simp add: last_conv_nth)
  have ver: "rec_version (last h) = int (Suc n)" if "map rec_version h = map int [1..<Suc (length h)]"
  proof -
    have "map rec_version h ! n = map int [1..<Suc (length h)] ! n" using that by simp
    then show ?thesis using n last by (simp del: upt_Suc)
  qed
  have links: "(\<forall>i. Suc i < length (h @ [r]) \<longrightarrow>
        validate_revision_link ((h @ [r]) ! Suc i) ((h @ [r]) ! i) = None) \<longleftrightarrow>
      (\<forall>i. Suc i < length h \<longrightarrow> validate_revision_link (h ! Suc i) (h ! i) = None) \<and>
      validate_revision_link r (last h) = None"
  proof -
    have "(\<forall>i. Suc i < length (h @ [r]) \<longrightarrow> P i) \<longleftrightarrow> (\<forall>i. Suc i < length h \<longrightarrow> P i) \<and> P n" for P
      using n by (auto simp: less_Suc_eq)
    moreover have "(\<forall>i. Suc i < length h \<longrightarrow>
          validate_revision_link ((h @ [r]) ! Suc i) ((h @ [r]) ! i) = None) \<longleftrightarrow>
        (\<forall>i. Suc i < length h \<longrightarrow> validate_revision_link (h ! Suc i) (h ! i) = None)"
      by (simp add: nth_append)
    ultimately show ?thesis using n last by (simp add: nth_append)
  qed
  have times: "sorted_wrt (<) (map revision_time_ns (h @ [r])) \<longleftrightarrow>
      sorted_wrt (<) (map revision_time_ns h) \<and> revision_time_ns (last h) < revision_time_ns r"
  proof -
    have "\<forall>x \<in> set h. revision_time_ns x \<le> revision_time_ns (last h)"
      if "sorted_wrt (<) (map revision_time_ns h)"
    proof
      fix x assume "x \<in> set h"
      then obtain i where i: "i < length h" "x = h ! i" by (auto simp: in_set_conv_nth)
      show "revision_time_ns x \<le> revision_time_ns (last h)"
      proof (cases "i = n")
        case True then show ?thesis using i last by simp
      next
        case False
        with i n have "i < n" by simp
        with that n i last show ?thesis
          by (auto simp: sorted_wrt_map sorted_wrt_iff_nth_less intro: less_imp_le)
      qed
    qed
    then show ?thesis using assms by (auto simp: sorted_wrt_append) force
  qed
  show ?thesis
    unfolding lineage_ok_def links times using assms n ver by auto
qed

lemma lineage_last:
  assumes "lineage_ok h" and "h \<noteq> []"
  shows "rec_version (last h) = int (length h)"
    and "r \<in> set h \<Longrightarrow> revision_time_ns r \<le> revision_time_ns (last h)"
proof -
  obtain g l where h: "h = g @ [l]" using assms(2) by (cases h rule: rev_cases) auto
  have "last (map rec_version h) = last (map int [1..<Suc (length h)])"
    using assms(1) by (simp add: lineage_ok_def)
  then show "rec_version (last h) = int (length h)"  by (simp add: h)
  show "r \<in> set h \<Longrightarrow> revision_time_ns r \<le> revision_time_ns (last h)"
    using assms(1) by (auto simp: h lineage_ok_def sorted_wrt_append intro: less_imp_le)
qed

lemma lineage_snoc_length:
  assumes "lineage_ok h"
  shows "lineage_ok (h @ [r]) \<longleftrightarrow> rec_version r = int (length h) + 1 \<and>
     (\<forall>r' \<in> set h. revision_time_ns r' < revision_time_ns r) \<and>
     (if h = [] then validate_initial_link r = None
      else validate_revision_link r (last h) = None)"
proof (cases "h = []")
  case True
  then show ?thesis by (simp add: lineage_single)
next
  case False
  have "revision_time_ns (last h) < revision_time_ns r \<longleftrightarrow>
      (\<forall>r' \<in> set h. revision_time_ns r' < revision_time_ns r)"
    using lineage_last(2) [OF assms False] False by (meson last_in_set order_le_less_trans)
  then show ?thesis using assms False lineage_last(1) [OF assms False] by (simp add: lineage_snoc)
qed

lemma check_lineage_snoc:
  assumes "lineage_ok h" and "check_lineage r (if h = [] then None else Some h) = None"
  shows "lineage_ok (h @ [r])"
proof (cases "h = []")
  case True
  with assms(2) show ?thesis by (simp add: lineage_single check_lineage_def)
next
  case False
  then have "check_lineage r (Some h) = None" using assms(2) by simp
  with False assms(1) show ?thesis
    by (auto simp: lineage_snoc check_lineage_def Let_def split: list.splits)
qed

lemma pit_store_init_inv: "pit_store_init capacity = Inr s \<Longrightarrow> pit_store_inv s"
  by (auto simp: pit_store_init_def pit_store_inv_def series_def split: if_splits)

lemma store_append_inv:
  assumes inv: "pit_store_inv s" and ok: "pit_record_ok r" and app: "store_append s r = Inr s'"
  shows "pit_store_inv s'"
proof -
  from app have cap: "int (length (ps_records s)) < ps_capacity s"
    and new: "ps_by_id s (record_id r) = None"
    and lin: "check_lineage r (ps_by_series s (series_key r)) = None"
    and s': "s' = s\<lparr>ps_by_series := (ps_by_series s)(series_key r \<mapsto>
              (case ps_by_series s (series_key r) of None \<Rightarrow> [] | Some h \<Rightarrow> h) @ [r]),
            ps_records := ps_records s @ [r],
            ps_by_id := (ps_by_id s)(record_id r \<mapsto> r)\<rparr>"
    by (auto simp: store_append_Inr)
  have series': "series s' k = (if series_key r = k then series s k @ [r] else series s k)" for k
    by (rule series_append) (simp add: s')
  note inv_facts = pit_store_invD [OF inv]
  have sel: "ps_by_series s' = (ps_by_series s)(series_key r \<mapsto>
        (case ps_by_series s (series_key r) of None \<Rightarrow> [] | Some h \<Rightarrow> h) @ [r])"
      "ps_records s' = ps_records s @ [r]" "ps_by_id s' = (ps_by_id s)(record_id r \<mapsto> r)"
      "ps_capacity s' = ps_capacity s"
    by (simp_all add: s')
  have fresh: "x \<in> set (ps_records s) \<Longrightarrow> record_id x \<noteq> record_id r" for x
    using inv_facts(3) new by (metis option.distinct(1))
  have "ps_by_series s' k = (if series s' k = [] then None else Some (series s' k))" for k
    by (auto simp: sel series' inv_facts(4))
  moreover have "lineage_ok (series s' k)" for k
    using lin by (auto simp: series' inv_facts(4,5) intro: check_lineage_snoc)
  moreover have "distinct (map record_id (ps_records s'))"
    using inv_facts(2) fresh by (fastforce simp: sel)
  moreover have "ps_by_id s' i = Some x \<longleftrightarrow> x \<in> set (ps_records s') \<and> record_id x = i" for i x
    using inv_facts(3) fresh by (auto simp: sel)
  moreover have "\<forall>x \<in> set (ps_records s'). pit_record_ok x"
    using inv_facts(6) ok by (auto simp: sel)
  moreover have "0 < ps_capacity s'" "int (length (ps_records s')) \<le> ps_capacity s'"
    using inv cap by (auto simp: sel pit_store_inv_def)
  ultimately show ?thesis unfolding pit_store_inv_def by blast
qed

lemma pit_reachable_inv: "pit_reachable s \<Longrightarrow> pit_store_inv s"
  by (induction rule: pit_reachable.induct) (auto intro: pit_store_init_inv store_append_inv)


section \<open>The contract of a snapshot\<close>

locale knowledge_store =
  fixes log :: "'s \<Rightarrow> pit_record list"
    and snap :: "'s \<Rightarrow> int \<Rightarrow> bool \<Rightarrow> py_error + pit_record list"
    and invar :: "'s \<Rightarrow> bool"
    and timestamp_ok :: "int \<Rightarrow> bool"
  assumes snap_total: "invar s \<Longrightarrow> timestamp_ok t \<Longrightarrow> \<exists>rs. snap s t b = Inr rs"
    and snap_sound: "invar s \<Longrightarrow> snap s t b = Inr rs \<Longrightarrow> r \<in> set rs \<Longrightarrow>
      r \<in> set (log s) \<and> available_by t b r"
    and snap_complete: "invar s \<Longrightarrow> snap s t b = Inr rs \<Longrightarrow> r \<in> set (log s) \<Longrightarrow>
      available_by t b r \<Longrightarrow> series_key r \<in> series_key ` set rs"
    and snap_distinct: "invar s \<Longrightarrow> snap s t b = Inr rs \<Longrightarrow> distinct (map series_key rs)"
    and snap_sorted: "invar s \<Longrightarrow> snap s t b = Inr rs \<Longrightarrow>
      sorted (map (\<lambda>r. key_order (series_key r)) rs)"
    and log_ok: "invar s \<Longrightarrow> r \<in> set (log s) \<Longrightarrow> pit_record_ok r"
begin

lemma snap_ok: "invar s \<Longrightarrow> snap s t b = Inr rs \<Longrightarrow> r \<in> set rs \<Longrightarrow> pit_record_ok r"
  using snap_sound log_ok by blast

lemma snap_same_key:
  assumes "invar s" "snap s t b = Inr rs" "r \<in> set rs" "r' \<in> set rs"
    and "payload_kind (rec_payload r) = payload_kind (rec_payload r')"
    and "payload_logical_key (rec_payload r) = payload_logical_key (rec_payload r')"
  shows "r = r'"
proof -
  have "series_key r = series_key r'"
    using assms snap_ok by (simp add: series_key_def pit_record_ok_identity)
  moreover have "inj_on series_key (set rs)"
    using snap_distinct [OF assms(1,2)] by (simp add: distinct_map)
  ultimately show ?thesis using assms(3,4) by (auto dest: inj_onD)
qed

end

definition is_member :: "int \<Rightarrow> ustr \<Rightarrow> ustr \<Rightarrow> pit_record \<Rightarrow> bool" where
  "is_member t index i r \<longleftrightarrow>
     rec_payload r = IndexMembership index i True \<and> validity_contains (rec_validity r) t"

lemma membership_fold:
  assumes "\<And>r r' i b b'. r \<in> set rs \<Longrightarrow> r' \<in> set rs \<Longrightarrow> rec_payload r = IndexMembership index i b \<Longrightarrow>
      rec_payload r' = IndexMembership index i b' \<Longrightarrow> b = b'"
  shows "fold (\<lambda>r members.
         case rec_payload r of
           IndexMembership index_id instrument_id included \<Rightarrow>
             if index_id = index \<and> validity_contains (rec_validity r) t
             then (if included then insert instrument_id members else members - {instrument_id})
             else members
         | _ \<Rightarrow> members) rs {} = {i. \<exists>r \<in> set rs. is_member t index i r}"
  using assms
proof (induction rs rule: rev_induct)
  case Nil
  then show ?case by simp
next
  case (snoc r rs)
  let ?f = "\<lambda>r members.
         case rec_payload r of
           IndexMembership index_id instrument_id included \<Rightarrow>
             if index_id = index \<and> validity_contains (rec_validity r) t
             then (if included then insert instrument_id members else members - {instrument_id})
             else members
         | _ \<Rightarrow> members"
  have IH: "fold ?f rs {} = {i. \<exists>r \<in> set rs. is_member t index i r}"
    by (rule snoc.IH) (rule snoc.prems, simp_all)
  show ?case
  proof (cases "\<exists>i b. rec_payload r = IndexMembership index i b")
    case True
    then obtain i b where p: "rec_payload r = IndexMembership index i b" by blast
    have "\<not> is_member t index i r'" if "r' \<in> set rs" "\<not> b" for r'
      using snoc.prems [of r' r i True b] that p by (auto simp: is_member_def)
    then show ?thesis using p IH by (auto simp: is_member_def)
  next
    case False
    then show ?thesis using IH by (auto simp: is_member_def split: record_payload.splits)
  qed
qed

lemma symbol_mapping_from_Some:
  "symbol_mapping_from t wanted rs = Some p \<Longrightarrow>
     \<exists>r \<in> set rs. \<exists>i v. p = SymbolMapping wanted i v \<and>
       rec_payload r = SymbolMapping wanted i v \<and> validity_contains (rec_validity r) t"
proof (induction rs)
  case (Cons r rs)
  show ?case
  proof (cases "\<exists>i v. rec_payload r = SymbolMapping wanted i v \<and> validity_contains (rec_validity r) t")
    case True
    with Cons.prems show ?thesis by auto
  next
    case False
    then have "symbol_mapping_from t wanted rs = Some p"
      using Cons.prems by (cases "rec_payload r") (auto split: if_splits)
    then show ?thesis using Cons.IH by auto
  qed
qed simp

lemma symbol_mapping_from_None:
  "symbol_mapping_from t wanted rs = None \<Longrightarrow> r \<in> set rs \<Longrightarrow>
     rec_payload r = SymbolMapping wanted i v \<Longrightarrow> \<not> validity_contains (rec_validity r) t"
proof (induction rs)
  case (Cons r rs)
  then show ?case by (cases "rec_payload r") (auto split: if_splits)
qed simp

context knowledge_store
begin

lemma membership_spec:
  assumes "invar s" "snap s k b = Inr rs"
  shows "membership_from t index rs =
     sorted_list_of_set {i. \<exists>r \<in> set rs. is_member t index i r}"
  unfolding membership_from_def
proof (subst membership_fold)
  fix r r' i c c'
  assume "r \<in> set rs" "r' \<in> set rs"
    and "rec_payload r = IndexMembership index i c" "rec_payload r' = IndexMembership index i c'"
  then show "c = c'" using snap_same_key [OF assms, of r r'] by auto
qed simp

lemma finite_members: "finite {i. \<exists>r \<in> set rs. is_member t index i r}"
proof -
  have "{i. \<exists>r \<in> set rs. is_member t index i r} \<subseteq>
      (\<lambda>r. case rec_payload r of IndexMembership _ i _ \<Rightarrow> i | _ \<Rightarrow> []) ` set rs"
    by (force simp: is_member_def)
  then show ?thesis by (rule finite_subset) simp
qed

lemma membership_iff:
  assumes "invar s" "snap s k b = Inr rs"
  shows "i \<in> set (membership_from t index rs) \<longleftrightarrow> (\<exists>r \<in> set rs. is_member t index i r)"
  by (simp add: membership_spec [OF assms] finite_members)

lemma symbol_mapping_iff:
  assumes "invar s" "snap s k b = Inr rs"
  shows "symbol_mapping_from t wanted rs = Some (SymbolMapping wanted i v) \<longleftrightarrow>
     (\<exists>r \<in> set rs. rec_payload r = SymbolMapping wanted i v \<and> validity_contains (rec_validity r) t)"
proof
  assume "symbol_mapping_from t wanted rs = Some (SymbolMapping wanted i v)"
  then show "\<exists>r \<in> set rs. rec_payload r = SymbolMapping wanted i v \<and>
      validity_contains (rec_validity r) t"
    by (auto dest: symbol_mapping_from_Some)
next
  assume "\<exists>r \<in> set rs. rec_payload r = SymbolMapping wanted i v \<and>
      validity_contains (rec_validity r) t"
  then obtain r where r: "r \<in> set rs" "rec_payload r = SymbolMapping wanted i v"
    "validity_contains (rec_validity r) t" by blast
  then obtain p where p: "symbol_mapping_from t wanted rs = Some p"
    using symbol_mapping_from_None by blast
  then obtain r' i' v' where r': "r' \<in> set rs" "rec_payload r' = p" "p = SymbolMapping wanted i' v'"
    using symbol_mapping_from_Some by metis
  with r have "r = r'" using snap_same_key [OF assms, of r r'] by simp
  with p r r' show "symbol_mapping_from t wanted rs = Some (SymbolMapping wanted i v)" by simp
qed

end

section \<open>The in-memory store keeps the contract\<close>

lemma snapshot_collect:
  "0 < t \<Longrightarrow> snapshot s t b =
     Inr (listing key_order (collect_last series_key (filter (available_by t b) (ps_records s))))"
  by (simp add: snapshot_def validate_timestamp_def raise_if_def fold_if_filter collect_last_def)

lemma snapshot_Inr:
  "snapshot s t b = Inr rs \<longleftrightarrow> 0 < t \<and>
     rs = listing key_order (collect_last series_key (filter (available_by t b) (ps_records s)))"
  by (cases "0 < t") (auto simp: snapshot_collect, simp_all add: snapshot_def validate_timestamp_def raise_if_def)

lemma in_snapshot:
  assumes "snapshot s t b = Inr rs"
  shows "r \<in> set rs \<longleftrightarrow>
     last_per_key series_key (filter (available_by t b) (ps_records s)) (series_key r) = Some r"
  using assms by (simp add: snapshot_Inr in_listing_collect)

interpretation mem: knowledge_store ps_records snapshot pit_store_inv "\<lambda>t. 0 < t"
proof unfold_locales
  fix s t b rs r
  assume inv: "pit_store_inv s" and snap: "snapshot s t b = Inr rs"
  show "r \<in> set rs \<Longrightarrow> r \<in> set (ps_records s) \<and> available_by t b r"
    using in_snapshot [OF snap] by (auto dest: last_per_key_SomeD)
  show "series_key r \<in> series_key ` set rs" if r: "r \<in> set (ps_records s)" "available_by t b r"
  proof -
    let ?xs = "filter (available_by t b) (ps_records s)"
    have "last_per_key series_key ?xs (series_key r) \<noteq> None" using r by auto
    then obtain r' where r': "last_per_key series_key ?xs (series_key r) = Some r'" by blast
    then have "series_key r' = series_key r" by (rule last_per_key_SomeD)
    with r' in_snapshot [OF snap, of r'] show ?thesis by (metis image_eqI)
  qed
  show "distinct (map series_key rs)" and "sorted (map (\<lambda>r. key_order (series_key r)) rs)"
    using snap by (simp_all add: snapshot_Inr distinct_listing_collect sorted_listing_collect)
qed (auto simp: snapshot_collect pit_store_inv_ok)


section \<open>Versions and knowledge\<close>

lemma lineage_versions: "lineage_ok h \<Longrightarrow> sorted_wrt (<) (map rec_version h)"
  by (simp add: lineage_ok_def sorted_wrt_map del: upt_Suc)

lemma last_is_greatest:
  assumes "sorted_wrt (<) (map f ys)" and "ys \<noteq> []"
  shows "r = last ys \<longleftrightarrow> r \<in> set ys \<and> (\<forall>r' \<in> set ys. (f r' :: int) \<le> f r)"
proof -
  from assms(2) obtain zs l where ys: "ys = zs @ [l]" by (cases ys rule: rev_cases) auto
  with assms(1) have less: "\<forall>z \<in> set zs. f z < f l" by (simp add: sorted_wrt_append)
  then show ?thesis unfolding ys by (auto intro: less_imp_le)
qed

lemma last_available_version:
  assumes "pit_store_inv s"
  shows "last_per_key series_key (filter P (ps_records s)) (series_key r) = Some r \<longleftrightarrow>
     r \<in> set (ps_records s) \<and> P r \<and>
     (\<forall>r' \<in> set (ps_records s). series_key r' = series_key r \<longrightarrow> P r' \<longrightarrow>
        rec_version r' \<le> rec_version r)"
proof -
  let ?ys = "filter (\<lambda>x. series_key x = series_key r) (filter P (ps_records s))"
  have "?ys = filter P (series s (series_key r))"
    by (simp add: series_def conj_commute)
  then have sorted: "sorted_wrt (<) (map rec_version ?ys)"
    using lineage_versions [OF pit_store_inv_lineage [OF assms, of "series_key r"]]
    by (simp add: sorted_wrt_map sorted_wrt_filter)
  show ?thesis
  proof (cases "?ys = []")
    case True
    then have "last_per_key series_key (filter P (ps_records s)) (series_key r) = None"
      by (simp add: last_per_key_def)
    moreover have "\<not> (r \<in> set (ps_records s) \<and> P r)"
      using True by (auto simp: filter_empty_conv)
    ultimately show ?thesis by (metis option.distinct(1))
  next
    case False
    then have "last_per_key series_key (filter P (ps_records s)) (series_key r) = Some (last ?ys)"
      by (simp add: last_per_key_def)
    then show ?thesis using last_is_greatest [OF sorted False, of r] by auto
  qed
qed

lemma snapshot_unaffected:
  assumes "store_append s r = Inr s'" and "\<not> available_by t b r"
  shows "snapshot s' t b = snapshot s t b"
  using assms by (cases "0 < t")
    (auto simp: store_append_Inr snapshot_collect snapshot_def validate_timestamp_def raise_if_def)

lemma store_extend_unaffected:
  assumes "store_extend s rs = (s', e)" and "\<forall>r \<in> set rs. \<not> available_by t b r"
  shows "snapshot s' t b = snapshot s t b"
  using assms
proof (induction rs arbitrary: s)
  case (Cons r rs)
  show ?case
  proof (cases "store_append s r")
    case (Inl err)
    with Cons.prems show ?thesis by simp
  next
    case (Inr s1)
    with Cons.prems have "snapshot s' t b = snapshot s1 t b" by (intro Cons.IH) auto
    also have "\<dots> = snapshot s t b" using Inr Cons.prems(2) by (intro snapshot_unaffected) auto
    finally show ?thesis .
  qed
qed simp

lemma available_before_pred: "available_by t False r = available_by (t - 1) True r"
  by (auto simp: available_by_def)

lemma store_append_prefix:
  "store_append s r = Inr s' \<Longrightarrow> \<exists>xs. ps_records s' = ps_records s @ xs"
  by (auto simp: store_append_Inr)

section \<open>A worked store\<close>

text \<open>
  Two revisions of one index-membership series: instrument \<open>AAA\<close> is a member of \<open>SPX\<close> (known from 10),
  then is excluded by a revision known from 20.
\<close>

definition ex_source :: data_source where
  "ex_source = \<lparr>source_id = lit ''src'', source_kind_of = SYNTHETIC_REPLAY, provider = lit ''fixture'',
     source_document_id = lit ''doc'', content_sha256 = replicate 32 7, authenticated = True\<rparr>"

definition ex_member :: "string \<Rightarrow> int \<Rightarrow> int \<Rightarrow> int \<Rightarrow> bool \<Rightarrow> pit_record" where
  "ex_member i ver revised processed incl = \<lparr>record_id = lit i, logical_key = lit ''SPX:AAA'',
     rec_kind = INDEX_MEMBERSHIP, event_time_ns = 3, publication_time_ns = 2, receive_time_ns = 2,
     processing_time_ns = processed, revision_time_ns = revised,
     rec_validity = \<lparr>valid_from_ns = 1, valid_to_ns = None\<rparr>, rec_source = ex_source,
     rec_version = ver, rec_payload = IndexMembership (lit ''SPX'') (lit ''AAA'') incl,
     rec_schema_version = POINT_IN_TIME_SCHEMA_VERSION\<rparr>"

definition ex_store0 :: pit_store where
  "ex_store0 = \<lparr>ps_capacity = 4, ps_records = [], ps_by_id = Map.empty, ps_by_series = Map.empty\<rparr>"

definition ex_store1 :: pit_store where
  "ex_store1 = \<lparr>ps_capacity = 4, ps_records = [ex_member ''m1'' 1 5 10 True],
     ps_by_id = [lit ''m1'' \<mapsto> ex_member ''m1'' 1 5 10 True],
     ps_by_series = [(INDEX_MEMBERSHIP, lit ''SPX:AAA'') \<mapsto> [ex_member ''m1'' 1 5 10 True]]\<rparr>"

definition ex_store2 :: pit_store where
  "ex_store2 = \<lparr>ps_capacity = 4,
     ps_records = [ex_member ''m1'' 1 5 10 True, ex_member ''m2'' 2 15 20 False],
     ps_by_id = [lit ''m1'' \<mapsto> ex_member ''m1'' 1 5 10 True,
                 lit ''m2'' \<mapsto> ex_member ''m2'' 2 15 20 False],
     ps_by_series = [(INDEX_MEMBERSHIP, lit ''SPX:AAA'') \<mapsto>
        [ex_member ''m1'' 1 5 10 True, ex_member ''m2'' 2 15 20 False]]\<rparr>"

lemmas ex_defs = ex_source_def ex_member_def ex_store0_def ex_store1_def ex_store2_def

lemma ex_member_ok:
  "pit_record_ok (ex_member ''m1'' 1 5 10 True)" "pit_record_ok (ex_member ''m2'' 2 15 20 False)"
  by (simp_all add: ex_defs pit_record_ok_def data_source_post_init_def validity_interval_post_init_def
      pit_record_post_init_def bounded_text_None utf8_length_def lit_def utf8_width_def
      is_surrogate_def MAX_TEXT_BYTES_def SHA256_BYTES_def validity_contains_def list_ex_iff)

lemma ex_append1: "store_append ex_store0 (ex_member ''m1'' 1 5 10 True) = Inr ex_store1"
  by (simp add: store_append_Inr ex_defs series_key_def check_lineage_def validate_initial_link_def)

lemma ex_append2: "store_append ex_store1 (ex_member ''m2'' 2 15 20 False) = Inr ex_store2"
  by (simp add: store_append_Inr ex_defs series_key_def check_lineage_def Let_def
      validate_revision_link_def)

lemma ex_reachable: "pit_reachable ex_store1" "pit_reachable ex_store2"
proof -
  have "pit_reachable ex_store0"
    by (rule pit_reachable.init [of 4]) (simp add: pit_store_init_def ex_store0_def)
  then show "pit_reachable ex_store1"
    using ex_member_ok(1) ex_append1 by (rule pit_reachable.append)
  then show "pit_reachable ex_store2"
    using ex_member_ok(2) ex_append2 by (rule pit_reachable.append)
qed

section \<open>Properties\<close>

text \<open>
  Claim C17. Every store built by the constructor and accepted appends keeps its invariant: the record
  count stays within capacity, the identity index agrees with the log, every series index entry is the
  log restricted to that series, its versions are 1, 2, 3, \<dots>, its revision times strictly increase
  and every revision links to its predecessor.
\<close>

theorem pit_store_invariant: "pit_reachable s \<Longrightarrow> pit_store_inv s"
  by (rule pit_reachable_inv)

theorem pit_store_invariant_witness: "pit_store_inv ex_store2"
  by (rule pit_store_invariant [OF ex_reachable(2)])

text \<open>
  Claim C3. \<open>as_known_at(t)\<close> returns, in (kind, logical key) order, exactly the record of the greatest
  version among the records of each series whose availability is at or before \<open>t\<close>.
\<close>

theorem as_known_at_latest_version:
  assumes "pit_reachable s" and "0 < t"
  shows "\<exists>rs. as_known_at s t = Inr rs \<and>
     sorted (map (\<lambda>r. (record_kind_value (rec_kind r), logical_key r)) rs) \<and>
     distinct (map series_key rs) \<and>
     (\<forall>r. r \<in> set rs \<longleftrightarrow> r \<in> set (ps_records s) \<and> available_at_ns r \<le> t \<and>
        (\<forall>r' \<in> set (ps_records s). series_key r' = series_key r \<longrightarrow> available_at_ns r' \<le> t \<longrightarrow>
           rec_version r' \<le> rec_version r))"
proof -
  have inv: "pit_store_inv s" using assms(1) by (rule pit_reachable_inv)
  obtain rs where rs: "as_known_at s t = Inr rs" and snap: "snapshot s t True = Inr rs"
    using mem.snap_total [OF inv assms(2), of True] by (auto simp: as_known_at_def)
  have avail: "available_by t True r \<longleftrightarrow> available_at_ns r \<le> t" for r
    by (auto simp: available_by_def)
  have "sorted (map (\<lambda>r. (record_kind_value (rec_kind r), logical_key r)) rs)"
    using mem.snap_sorted [OF inv snap] by (simp add: key_order_def series_key_def)
  moreover have "distinct (map series_key rs)" using mem.snap_distinct [OF inv snap] .
  ultimately show ?thesis
    using rs in_snapshot [OF snap] last_available_version [OF inv, of "available_by t True"]
    by (auto simp: avail)
qed

theorem as_known_at_latest_version_witness:
  "\<exists>rs. as_known_at ex_store2 15 = Inr rs \<and>
     sorted (map (\<lambda>r. (record_kind_value (rec_kind r), logical_key r)) rs) \<and>
     distinct (map series_key rs) \<and>
     (\<forall>r. r \<in> set rs \<longleftrightarrow> r \<in> set (ps_records ex_store2) \<and> available_at_ns r \<le> 15 \<and>
        (\<forall>r' \<in> set (ps_records ex_store2). series_key r' = series_key r \<longrightarrow>
           available_at_ns r' \<le> 15 \<longrightarrow> rec_version r' \<le> rec_version r))"
  by (rule as_known_at_latest_version [OF ex_reachable(2)]) simp

text \<open>
  No look-ahead: whatever records are appended later, in any number and whether or not the
  last of them is rejected, the answer of \<open>as_known_at(t)\<close> does not change as long as none of them is
  available at or before \<open>t\<close>.
\<close>

theorem knowledge_is_immutable:
  assumes "store_extend s rs = (s', e)" and "\<forall>r \<in> set rs. t < available_at_ns r"
  shows "as_known_at s' t = as_known_at s t"
  unfolding as_known_at_def
  by (rule store_extend_unaffected [OF assms(1)]) (use assms(2) in \<open>auto simp: available_by_def\<close>)

theorem knowledge_is_immutable_witness:
  "as_known_at ex_store2 15 = as_known_at ex_store1 15"
  by (rule knowledge_is_immutable [of _ "[ex_member ''m2'' 2 15 20 False]" _ None])
    (simp_all add: ex_append2, simp add: ex_member_def available_at_ns_def)

text \<open>
  The strict query is the inclusive one a nanosecond earlier:
  \<open>latest_available_before(t)\<close> equals \<open>as_known_at(t - 1)\<close> for every \<open>t > 1\<close>.
\<close>

theorem latest_available_before_boundary:
  assumes "1 < t"
  shows "latest_available_before s t = as_known_at s (t - 1)"
  using assms
  by (simp add: latest_available_before_def as_known_at_def snapshot_collect available_before_pred
      [abs_def])

text \<open>
  Claim C32. \<open>append\<close> accepts exactly the records that extend their series: there is room, the record id
  is new, the version is the number of revisions so far plus one, the revision time is later than that
  of every earlier revision, and the first (later) revision passes the initial (revision) link check.
\<close>

theorem append_accepts_iff:
  assumes "pit_reachable s"
  shows "(\<exists>s'. store_append s r = Inr s') \<longleftrightarrow>
     int (length (ps_records s)) < ps_capacity s \<and>
     record_id r \<notin> record_id ` set (ps_records s) \<and>
     rec_version r = int (length (series s (series_key r))) + 1 \<and>
     (\<forall>r' \<in> set (series s (series_key r)). revision_time_ns r' < revision_time_ns r) \<and>
     (if series s (series_key r) = [] then validate_initial_link r = None
      else validate_revision_link r (last (series s (series_key r))) = None)"
proof -
  have inv: "pit_store_inv s" using assms by (rule pit_reachable_inv)
  let ?h = "series s (series_key r)"
  have id: "ps_by_id s (record_id r) = None \<longleftrightarrow> record_id r \<notin> record_id ` set (ps_records s)"
    by (rule pit_store_inv_fresh [OF inv])
  have lin: "lineage_ok ?h" by (rule pit_store_inv_lineage [OF inv])
  have "check_lineage r (ps_by_series s (series_key r)) = None \<longleftrightarrow> lineage_ok (?h @ [r])"
    unfolding pit_store_inv_by_series [OF inv]
    using lin check_lineage_snoc [OF lin, of r]
    by (cases "?h = []")
      (auto simp: lineage_single lineage_snoc check_lineage_def Let_def split: list.splits)
  also have "\<dots> \<longleftrightarrow> rec_version r = int (length ?h) + 1 \<and>
     (\<forall>r' \<in> set ?h. revision_time_ns r' < revision_time_ns r) \<and>
     (if ?h = [] then validate_initial_link r = None
      else validate_revision_link r (last ?h) = None)"
    by (rule lineage_snoc_length [OF lin])
  finally show ?thesis by (auto simp: store_append_Inr id)
qed

theorem append_accepts_iff_witness:
  "(\<exists>s'. store_append ex_store1 (ex_member ''m2'' 2 15 20 False) = Inr s') \<longleftrightarrow>
     int (length (ps_records ex_store1)) < ps_capacity ex_store1 \<and>
     record_id (ex_member ''m2'' 2 15 20 False) \<notin> record_id ` set (ps_records ex_store1) \<and>
     rec_version (ex_member ''m2'' 2 15 20 False) =
       int (length (series ex_store1 (series_key (ex_member ''m2'' 2 15 20 False)))) + 1 \<and>
     (\<forall>r' \<in> set (series ex_store1 (series_key (ex_member ''m2'' 2 15 20 False))).
        revision_time_ns r' < revision_time_ns (ex_member ''m2'' 2 15 20 False)) \<and>
     (if series ex_store1 (series_key (ex_member ''m2'' 2 15 20 False)) = []
      then validate_initial_link (ex_member ''m2'' 2 15 20 False) = None
      else validate_revision_link (ex_member ''m2'' 2 15 20 False)
        (last (series ex_store1 (series_key (ex_member ''m2'' 2 15 20 False)))) = None)"
  by (rule append_accepts_iff [OF ex_reachable(1)])

text \<open>
  Historical membership uses only knowledge at the cutoff: \<open>membership_at(t, index, k)\<close> is
  the ascending list, without repetition, of exactly those instruments for which the greatest known
  version at \<open>k\<close> of some series is an inclusion in the index whose validity contains \<open>t\<close>.
\<close>

theorem membership_at_point_in_time:
  assumes "pit_reachable s" and "0 < cutoff_of t known"
  shows "\<exists>is. membership_at s t index known = Inr is \<and> sorted is \<and> distinct is \<and>
     (\<forall>i. i \<in> set is \<longleftrightarrow>
        (\<exists>r \<in> set (ps_records s). available_at_ns r \<le> cutoff_of t known \<and>
           (\<forall>r' \<in> set (ps_records s). series_key r' = series_key r \<longrightarrow>
              available_at_ns r' \<le> cutoff_of t known \<longrightarrow> rec_version r' \<le> rec_version r) \<and>
           rec_payload r = IndexMembership index i True \<and>
           validity_contains (rec_validity r) t))"
proof -
  have inv: "pit_store_inv s" using assms(1) by (rule pit_reachable_inv)
  obtain rs where snap: "snapshot s (cutoff_of t known) True = Inr rs"
    using mem.snap_total [OF inv assms(2)] by blast
  have avail: "available_by (cutoff_of t known) True r \<longleftrightarrow> available_at_ns r \<le> cutoff_of t known" for r
    by (auto simp: available_by_def)
  have mem: "membership_at s t index known = Inr (membership_from t index rs)"
    by (simp add: membership_at_def as_known_at_def snap)
  have srt: "sorted (membership_from t index rs) \<and> distinct (membership_from t index rs)"
    by (simp add: mem.membership_spec [OF inv snap])
  show ?thesis
    using mem srt
    by (auto simp: mem.membership_iff [OF inv snap] in_snapshot [OF snap] is_member_def
        last_available_version [OF inv] avail Bex_def)
qed

theorem membership_at_point_in_time_witness:
  "\<exists>is. membership_at ex_store2 30 (lit ''SPX'') (Some 15) = Inr is \<and> sorted is \<and> distinct is \<and>
     (\<forall>i. i \<in> set is \<longleftrightarrow>
        (\<exists>r \<in> set (ps_records ex_store2). available_at_ns r \<le> cutoff_of 30 (Some 15) \<and>
           (\<forall>r' \<in> set (ps_records ex_store2). series_key r' = series_key r \<longrightarrow>
              available_at_ns r' \<le> cutoff_of 30 (Some 15) \<longrightarrow> rec_version r' \<le> rec_version r) \<and>
           rec_payload r = IndexMembership (lit ''SPX'') i True \<and>
           validity_contains (rec_validity r) 30))"
  by (rule membership_at_point_in_time [OF ex_reachable(2)]) (simp add: cutoff_of_def)

text \<open>
  \<open>symbol_mapping_at(t, symbol, k)\<close> answers with a mapping exactly when the greatest version
  of the symbol's series known at \<open>k\<close> is valid at \<open>t\<close>, and answers with that revision's payload.
\<close>

theorem symbol_mapping_at_point_in_time:
  assumes "pit_reachable s" and "0 < cutoff_of t known"
  shows "symbol_mapping_at s t wanted known = Inr (Some (SymbolMapping wanted i v)) \<longleftrightarrow>
     (\<exists>r \<in> set (ps_records s). available_at_ns r \<le> cutoff_of t known \<and>
        (\<forall>r' \<in> set (ps_records s). series_key r' = series_key r \<longrightarrow>
           available_at_ns r' \<le> cutoff_of t known \<longrightarrow> rec_version r' \<le> rec_version r) \<and>
        rec_payload r = SymbolMapping wanted i v \<and> validity_contains (rec_validity r) t)"
proof -
  have inv: "pit_store_inv s" using assms(1) by (rule pit_reachable_inv)
  obtain rs where snap: "snapshot s (cutoff_of t known) True = Inr rs"
    using mem.snap_total [OF inv assms(2)] by blast
  have avail: "available_by (cutoff_of t known) True r \<longleftrightarrow> available_at_ns r \<le> cutoff_of t known" for r
    by (auto simp: available_by_def)
  show ?thesis
    by (auto simp: symbol_mapping_at_def as_known_at_def snap mem.symbol_mapping_iff [OF inv snap]
        in_snapshot [OF snap] last_available_version [OF inv] avail)
qed

theorem symbol_mapping_at_point_in_time_witness:
  "symbol_mapping_at ex_store2 30 (lit ''A'') (Some 15) =
     Inr (Some (SymbolMapping (lit ''A'') (lit ''x'') (lit ''v''))) \<longleftrightarrow>
     (\<exists>r \<in> set (ps_records ex_store2). available_at_ns r \<le> cutoff_of 30 (Some 15) \<and>
        (\<forall>r' \<in> set (ps_records ex_store2). series_key r' = series_key r \<longrightarrow>
           available_at_ns r' \<le> cutoff_of 30 (Some 15) \<longrightarrow> rec_version r' \<le> rec_version r) \<and>
        rec_payload r = SymbolMapping (lit ''A'') (lit ''x'') (lit ''v'') \<and>
        validity_contains (rec_validity r) 30)"
  by (rule symbol_mapping_at_point_in_time [OF ex_reachable(2)]) (simp add: cutoff_of_def)

text \<open>
  Nothing is erased: after any accepted append every record id still resolves to the same
  immutable record, the history of every series is a prefix of its new history, and only the series of
  the appended record grows.
\<close>

theorem append_only_history:
  assumes "pit_reachable s" and "pit_record_ok r" and "store_append s r = Inr s'"
  shows "(\<forall>i x. record_by_id s i = Some x \<longrightarrow> record_by_id s' i = Some x) \<and>
     record_by_id s' (record_id r) = Some r \<and>
     (\<forall>k l. records_for s' k l = records_for s k l @ (if series_key r = (k, l) then [r] else []))"
proof -
  have inv: "pit_store_inv s" using assms(1) by (rule pit_reachable_inv)
  have inv': "pit_store_inv s'" using inv assms(2,3) by (rule store_append_inv)
  have recs: "ps_records s' = ps_records s @ [r]" using assms(3) by (auto simp: store_append_Inr)
  have hist: "pit_store_inv x \<Longrightarrow> records_for x k l = series x (k, l)" for x k l
    by (simp add: records_for_def pit_store_inv_by_series)
  have "records_for s' k l = records_for s k l @ (if series_key r = (k, l) then [r] else [])" for k l
    using inv inv' by (simp add: hist series_append [OF recs])
  moreover have "record_by_id s' i = Some x" if "record_by_id s i = Some x" for i x
    using that inv inv' by (simp add: record_by_id_def pit_store_inv_by_id recs)
  moreover have "record_by_id s' (record_id r) = Some r"
    using inv' by (simp add: record_by_id_def pit_store_inv_by_id recs)
  ultimately show ?thesis by blast
qed

theorem append_only_history_witness:
  "record_by_id ex_store2 (lit ''m1'') = Some (ex_member ''m1'' 1 5 10 True) \<and>
   record_by_id ex_store2 (lit ''m2'') = Some (ex_member ''m2'' 2 15 20 False) \<and>
   records_for ex_store2 INDEX_MEMBERSHIP (lit ''SPX:AAA'') =
     [ex_member ''m1'' 1 5 10 True, ex_member ''m2'' 2 15 20 False]"
proof -
  note hist = append_only_history [OF ex_reachable(1) ex_member_ok(2) ex_append2]
  have "record_by_id ex_store1 (lit ''m1'') = Some (ex_member ''m1'' 1 5 10 True)"
    and "records_for ex_store1 INDEX_MEMBERSHIP (lit ''SPX:AAA'') = [ex_member ''m1'' 1 5 10 True]"
    and "record_id (ex_member ''m2'' 2 15 20 False) = lit ''m2''"
    and "series_key (ex_member ''m2'' 2 15 20 False) = (INDEX_MEMBERSHIP, lit ''SPX:AAA'')"
    by (simp_all add: record_by_id_def records_for_def ex_store1_def ex_member_def series_key_def)
  with hist show ?thesis by auto
qed

text \<open>
  \<open>revisions_after(t)\<close> returns every appended record whose revision time is later than \<open>t\<close>
  exactly once, ordered by revision time, kind, logical key and version.
\<close>

theorem revisions_after_complete:
  assumes "pit_reachable s" and "0 < t"
  shows "\<exists>rs. revisions_after s t = Inr rs \<and> sorted (map revision_order rs) \<and> distinct rs \<and>
     set rs = {r \<in> set (ps_records s). t < revision_time_ns r}"
proof -
  have "distinct (ps_records s)"
    using pit_store_inv_distinct [OF pit_reachable_inv [OF assms(1)]] by (simp add: distinct_map)
  then show ?thesis
    using assms(2) by (simp add: revisions_after_def validate_timestamp_def raise_if_def)
qed

theorem revisions_after_complete_witness:
  "\<exists>rs. revisions_after ex_store2 5 = Inr rs \<and> sorted (map revision_order rs) \<and> distinct rs \<and>
     set rs = {r \<in> set (ps_records ex_store2). 5 < revision_time_ns r}"
  by (rule revisions_after_complete [OF ex_reachable(2)]) simp

end
