(* ===== verification/Leakage.thy ===== *)
theory Leakage
  imports Pit_Store
begin

text \<open>
  The fail-closed dataset validator of \<open>python/research/aegis_mx_research/leakage.py\<close>.

  \<open>validate\<close> is \<open>LeakageValidator.validate\<close>: it collects every violation of every sample and split
  boundary and sorts them. Its store argument appears as the two queries the validator calls on it,
  \<open>record_by_id\<close> and \<open>membership_at\<close>; the locale \<open>leakage_source\<close> states what the validator needs of
  them and is interpreted on the in-memory store. \<open>leak_free\<close> is the declarative contract of the
  documentation; the properties show that the validator accepts exactly the datasets that satisfy it.
\<close>

section \<open>Violations and reports\<close>

datatype leakage_code =
    FUTURE_MACRO_REVISION | FUTURE_CONSTITUENT | POST_EVENT_ESTIMATE | FUTURE_CORPORATE_ACTION
  | SURVIVORSHIP_BIAS | LABEL_OVERLAP | RANDOMIZED_TIME_SPLIT | NON_CHRONOLOGICAL_SPLIT
  | FUTURE_RECORD | MISSING_PROVENANCE | FUTURE_FEATURE

fun leakage_code_value :: "leakage_code \<Rightarrow> int" where
  "leakage_code_value FUTURE_MACRO_REVISION = 1"
| "leakage_code_value FUTURE_CONSTITUENT = 2"
| "leakage_code_value POST_EVENT_ESTIMATE = 3"
| "leakage_code_value FUTURE_CORPORATE_ACTION = 4"
| "leakage_code_value SURVIVORSHIP_BIAS = 5"
| "leakage_code_value LABEL_OVERLAP = 6"
| "leakage_code_value RANDOMIZED_TIME_SPLIT = 7"
| "leakage_code_value NON_CHRONOLOGICAL_SPLIT = 8"
| "leakage_code_value FUTURE_RECORD = 9"
| "leakage_code_value MISSING_PROVENANCE = 10"
| "leakage_code_value FUTURE_FEATURE = 11"

record leakage_violation =
  lv_code :: leakage_code
  lv_sample_id :: ustr
  lv_record_id :: "ustr option"
  lv_detail :: ustr

record leakage_report =
  lr_dataset_id :: ustr
  lr_violations :: "leakage_violation list"

definition violation :: "leakage_code \<Rightarrow> ustr \<Rightarrow> ustr option \<Rightarrow> string \<Rightarrow> leakage_violation" where
  "violation code sid rid detail =
     \<lparr>lv_code = code, lv_sample_id = sid, lv_record_id = rid, lv_detail = lit detail\<rparr>"

definition accepted :: "leakage_report \<Rightarrow> bool" where
  "accepted report \<longleftrightarrow> lr_violations report = []"

text \<open>\<open>LeakageDetectedError\<close> retains the whole report; other exceptions are those of the store.\<close>

datatype leakage_error = LeakageDetectedError leakage_report | StoreError py_error

definition raise_if_invalid :: "leakage_report \<Rightarrow> leakage_error option" where
  "raise_if_invalid report = raise_if (lr_violations report \<noteq> []) (LeakageDetectedError report)"

section \<open>Checking one sample\<close>

fun future_code :: "record_kind \<Rightarrow> leakage_code" where
  "future_code MACRO_VINTAGE = FUTURE_MACRO_REVISION"
| "future_code INDEX_MEMBERSHIP = FUTURE_CONSTITUENT"
| "future_code ANALYST_ESTIMATE = POST_EVENT_ESTIMATE"
| "future_code CORPORATE_ACTION = FUTURE_CORPORATE_ACTION"
| "future_code _ = FUTURE_RECORD"

definition sample_cutoff :: "dataset_sample \<Rightarrow> int" where
  "sample_cutoff s = min (feature_end_ns s) (sample_event_time_ns s)"

definition validate_record ::
    "(ustr \<Rightarrow> pit_record option) \<Rightarrow> dataset_sample \<Rightarrow> ustr \<Rightarrow> leakage_violation list" where
  "validate_record by_id s rid =
     (case by_id rid of
        None \<Rightarrow>
          [violation MISSING_PROVENANCE (sample_id s) (Some rid)
             ''sample references an unknown point-in-time record'']
      | Some r \<Rightarrow>
          (if sample_cutoff s < available_at_ns r
           then [violation (future_code (rec_kind r)) (sample_id s) (Some rid)
                   ''record was unavailable at the feature cutoff'']
           else []) @
          (if rec_kind r = INDEX_MEMBERSHIP \<and>
              \<not> validity_contains (rec_validity r) (sample_event_time_ns s)
           then [violation FUTURE_CONSTITUENT (sample_id s) (Some rid)
                   ''constituent state is not effective at the sample time'']
           else []) @
          (if rec_kind r = CORPORATE_ACTION \<and>
              \<not> validity_contains (rec_validity r) (sample_event_time_ns s)
           then [violation FUTURE_CORPORATE_ACTION (sample_id s) (Some rid)
                   ''corporate action was applied outside its effective interval'']
           else []))"

type_synonym membership_query = "int \<Rightarrow> ustr \<Rightarrow> int option \<Rightarrow> py_error + ustr list"

definition validate_sample ::
    "(ustr \<Rightarrow> pit_record option) \<Rightarrow> membership_query \<Rightarrow> dataset_manifest \<Rightarrow>
     dataset_sample \<Rightarrow> leakage_violation list \<Rightarrow> py_error + leakage_violation list" where
  "validate_sample by_id membership manifest s violations =
     (let found = violations @
        (if sample_event_time_ns s < feature_end_ns s
         then [violation FUTURE_FEATURE (sample_id s) None
                 ''feature window extends beyond the sample event time'']
         else []) @
        (if label_start_ns s \<le> feature_end_ns s
         then [violation LABEL_OVERLAP (sample_id s) None
                 ''label interval overlaps the feature interval'']
         else []) @
        concat (map (validate_record by_id s) (record_ids s))
      in case membership (sample_event_time_ns s) (universe_index_id manifest)
                (Some (sample_cutoff s)) of
           Inl e \<Rightarrow> Inl e
         | Inr expected_universe \<Rightarrow>
             Inr (found @
               (if set expected_universe \<noteq> set (universe_instrument_ids s)
                then [violation SURVIVORSHIP_BIAS (sample_id s) None
                        ''sample universe differs from point-in-time index membership'']
                else [])))"

section \<open>Checking the split boundaries\<close>

text \<open>Python's \<open>min(xs, key=f)\<close> is the first least element; \<open>sort_key\<close> is stable.\<close>

definition first_min :: "('a \<Rightarrow> 'b::linorder) \<Rightarrow> 'a list \<Rightarrow> 'a" where
  "first_min f xs = hd (sort_key f xs)"

definition boundary_violations ::
    "dataset_manifest \<Rightarrow> dataset_sample list \<Rightarrow> dataset_sample list \<Rightarrow> leakage_violation list" where
  "boundary_violations manifest prior current =
     (if current \<noteq> [] \<and> prior \<noteq> [] then
        (if Max (set (map sample_event_time_ns prior)) \<ge> Min (set (map sample_event_time_ns current))
         then [violation NON_CHRONOLOGICAL_SPLIT
                 (sample_id (first_min sample_event_time_ns current)) None
                 ''later dataset partition is not strictly later in time'']
         else []) @
        (if Max (set (map label_end_ns prior)) + embargo_ns manifest >
            Min (set (map feature_start_ns current))
         then [violation LABEL_OVERLAP
                 (sample_id (first_min feature_start_ns current)) None
                 ''prior labels overlap the next split or its embargo'']
         else [])
      else [])"

fun validate_splits ::
    "dataset_manifest \<Rightarrow> dataset_split list \<Rightarrow> dataset_sample list \<Rightarrow> leakage_violation list" where
  "validate_splits manifest [] prior = []"
| "validate_splits manifest (split # splits) prior =
     (let current = filter (\<lambda>s. sample_split s = split) (samples manifest)
      in boundary_violations manifest prior current @
         validate_splits manifest splits (prior @ current))"

definition validate_split_boundaries :: "dataset_manifest \<Rightarrow> leakage_violation list" where
  "validate_split_boundaries manifest = validate_splits manifest [TRAIN, VALIDATION, TEST] []"

section \<open>The validator\<close>

definition violation_order :: "leakage_violation \<Rightarrow> int \<times> ustr \<times> ustr \<times> ustr" where
  "violation_order v =
     (leakage_code_value (lv_code v), lv_sample_id v,
      (case lv_record_id v of None \<Rightarrow> [] | Some r \<Rightarrow> r), lv_detail v)"

definition validate ::
    "(ustr \<Rightarrow> pit_record option) \<Rightarrow> membership_query \<Rightarrow> dataset_manifest \<Rightarrow>
     py_error + leakage_report" where
  "validate by_id membership manifest =
     (let randomized =
        (if manifest_split_method manifest = RANDOMIZED
         then [violation RANDOMIZED_TIME_SPLIT [] None
                 ''randomized train/test splitting is forbidden for time series'']
         else [])
      in case fold_result (validate_sample by_id membership manifest) (samples manifest) randomized of
           Inl e \<Rightarrow> Inl e
         | Inr violations \<Rightarrow>
             Inr \<lparr>lr_dataset_id = dataset_id manifest,
                  lr_violations = sort_key violation_order
                    (violations @ validate_split_boundaries manifest)\<rparr>)"

definition validate_or_raise ::
    "(ustr \<Rightarrow> pit_record option) \<Rightarrow> membership_query \<Rightarrow> dataset_manifest \<Rightarrow>
     leakage_error + leakage_report" where
  "validate_or_raise by_id membership manifest =
     (case validate by_id membership manifest of
        Inl e \<Rightarrow> Inl (StoreError e)
      | Inr report \<Rightarrow>
          (case raise_if_invalid report of Some e \<Rightarrow> Inl e | None \<Rightarrow> Inr report))"

section \<open>The contract of a leak-free dataset\<close>

definition record_leak_free :: "dataset_sample \<Rightarrow> pit_record \<Rightarrow> bool" where
  "record_leak_free s r \<longleftrightarrow>
     available_at_ns r \<le> feature_end_ns s \<and> available_at_ns r \<le> sample_event_time_ns s \<and>
     (rec_kind r \<in> {INDEX_MEMBERSHIP, CORPORATE_ACTION} \<longrightarrow>
        validity_contains (rec_validity r) (sample_event_time_ns s))"

definition sample_leak_free ::
    "(ustr \<Rightarrow> pit_record option) \<Rightarrow> membership_query \<Rightarrow> ustr \<Rightarrow> dataset_sample \<Rightarrow> bool" where
  "sample_leak_free by_id membership index s \<longleftrightarrow>
     feature_end_ns s \<le> sample_event_time_ns s \<and> feature_end_ns s < label_start_ns s \<and>
     (\<forall>rid \<in> set (record_ids s). \<exists>r. by_id rid = Some r \<and> record_leak_free s r) \<and>
     (\<exists>universe. membership (sample_event_time_ns s) index (Some (sample_cutoff s)) = Inr universe \<and>
        set universe = set (universe_instrument_ids s))"

definition splits_leak_free :: "dataset_manifest \<Rightarrow> bool" where
  "splits_leak_free m \<longleftrightarrow>
     (\<forall>a \<in> set (samples m). \<forall>b \<in> set (samples m).
        dataset_split_value (sample_split a) < dataset_split_value (sample_split b) \<longrightarrow>
        sample_event_time_ns a < sample_event_time_ns b \<and>
        label_end_ns a + embargo_ns m \<le> feature_start_ns b)"

definition leak_free ::
    "(ustr \<Rightarrow> pit_record option) \<Rightarrow> membership_query \<Rightarrow> dataset_manifest \<Rightarrow> bool" where
  "leak_free by_id membership m \<longleftrightarrow>
     manifest_split_method m \<noteq> RANDOMIZED \<and>
     (\<forall>s \<in> set (samples m). sample_leak_free by_id membership (universe_index_id m) s) \<and>
     splits_leak_free m"

section \<open>The validator against the contract\<close>

lemma validate_record_Nil:
  "validate_record by_id s rid = [] \<longleftrightarrow> (\<exists>r. by_id rid = Some r \<and> record_leak_free s r)"
  by (auto simp: validate_record_def record_leak_free_def sample_cutoff_def split: option.splits)

lemma sorted_Nil_iff: "sort_key f xs = [] \<longleftrightarrow> xs = []"
  by (metis length_0_conv length_sort)

lemma boundary_violations_Nil:
  "boundary_violations m prior current = [] \<longleftrightarrow>
     (\<forall>a \<in> set prior. \<forall>b \<in> set current. sample_event_time_ns a < sample_event_time_ns b \<and>
        label_end_ns a + embargo_ns m \<le> feature_start_ns b)"
proof (cases "current = [] \<or> prior = []")
  case True
  then show ?thesis by (auto simp: boundary_violations_def)
next
  case False
  have max_min: "Max (set (map f prior)) + c \<le> Min (set (map g current)) \<longleftrightarrow>
      (\<forall>a \<in> set prior. \<forall>b \<in> set current. f a + c \<le> (g b :: int))" for f g and c :: int
  proof -
    have "Max (set (map f prior)) + c \<le> Min (set (map g current)) \<longleftrightarrow>
        (\<forall>b \<in> set current. Max (set (map f prior)) \<le> g b - c)"
      using False by (simp add: le_diff_eq)
    also have "\<dots> \<longleftrightarrow> (\<forall>b \<in> set current. \<forall>a \<in> set prior. f a \<le> g b - c)"
      using False by simp
    finally show ?thesis by (auto simp: le_diff_eq)
  qed
  have times: "(Min (set (map sample_event_time_ns current)) \<le>
        Max (set (map sample_event_time_ns prior))) \<longleftrightarrow>
      \<not> (\<forall>a \<in> set prior. \<forall>b \<in> set current. sample_event_time_ns a + 1 \<le> sample_event_time_ns b)"
    unfolding max_min [symmetric] by linarith
  have labels: "(Min (set (map feature_start_ns current)) <
        Max (set (map label_end_ns prior)) + embargo_ns m) \<longleftrightarrow>
      \<not> (\<forall>a \<in> set prior. \<forall>b \<in> set current. label_end_ns a + embargo_ns m \<le> feature_start_ns b)"
    unfolding max_min [symmetric] by linarith
  have "current \<noteq> [] \<and> prior \<noteq> []" using False by simp
  then show ?thesis
    unfolding boundary_violations_def times labels add1_zle_eq by auto
qed

lemma validate_split_boundaries_Nil:
  "validate_split_boundaries m = [] \<longleftrightarrow> splits_leak_free m"
proof -
  have cases3: "dataset_split_value a < dataset_split_value b \<longleftrightarrow>
      a = TRAIN \<and> b = VALIDATION \<or> a = TRAIN \<and> b = TEST \<or> a = VALIDATION \<and> b = TEST" for a b
    by (cases a; cases b) simp_all
  show ?thesis
    unfolding validate_split_boundaries_def splits_leak_free_def cases3
    by (simp add: Let_def boundary_violations_Nil) blast
qed

text \<open>What the validator relies on: the membership query answers at every positive cutoff.\<close>

locale leakage_source =
  fixes by_id :: "ustr \<Rightarrow> pit_record option"
    and membership :: membership_query
  assumes membership_total: "0 < k \<Longrightarrow> \<exists>universe. membership t index (Some k) = Inr universe"
begin

lemma validate_sample_total:
  assumes "dataset_sample_post_init s = None"
  shows "\<exists>found. \<forall>vs. validate_sample by_id membership m s vs = Inr (vs @ found) \<and>
     (found = [] \<longleftrightarrow> sample_leak_free by_id membership (universe_index_id m) s)"
proof -
  have "0 < sample_cutoff s" using assms by (simp add: sample_cutoff_def dataset_sample_ok_times)
  then obtain universe where u: "membership (sample_event_time_ns s) (universe_index_id m)
      (Some (sample_cutoff s)) = Inr universe"
    using membership_total by blast
  define found where "found =
      (if sample_event_time_ns s < feature_end_ns s
       then [violation FUTURE_FEATURE (sample_id s) None
               ''feature window extends beyond the sample event time''] else []) @
      (if label_start_ns s \<le> feature_end_ns s
       then [violation LABEL_OVERLAP (sample_id s) None
               ''label interval overlaps the feature interval''] else []) @
      concat (map (validate_record by_id s) (record_ids s)) @
      (if set universe \<noteq> set (universe_instrument_ids s)
       then [violation SURVIVORSHIP_BIAS (sample_id s) None
               ''sample universe differs from point-in-time index membership''] else [])"
  have "validate_sample by_id membership m s vs = Inr (vs @ found)" for vs
    by (simp add: validate_sample_def Let_def u found_def)
  moreover have "found = [] \<longleftrightarrow> sample_leak_free by_id membership (universe_index_id m) s"
    by (simp add: found_def sample_leak_free_def u validate_record_Nil not_le not_less)
  ultimately show ?thesis by blast
qed

lemma validate_samples_total:
  assumes "\<forall>s \<in> set ss. dataset_sample_post_init s = None"
  shows "\<exists>found. (\<forall>vs. fold_result (validate_sample by_id membership m) ss vs = Inr (vs @ found)) \<and>
     (found = [] \<longleftrightarrow> (\<forall>s \<in> set ss. sample_leak_free by_id membership (universe_index_id m) s))"
  using assms
proof (induction ss)
  case (Cons s ss)
  then obtain found where "\<And>vs. fold_result (validate_sample by_id membership m) ss vs = Inr (vs @ found)"
    and "found = [] \<longleftrightarrow> (\<forall>s \<in> set ss. sample_leak_free by_id membership (universe_index_id m) s)"
    by auto
  moreover obtain here where "\<And>vs. validate_sample by_id membership m s vs = Inr (vs @ here)"
    and "here = [] \<longleftrightarrow> sample_leak_free by_id membership (universe_index_id m) s"
    using validate_sample_total [of s m] Cons.prems by auto
  ultimately show ?case by (intro exI [of _ "here @ found"]) simp
qed simp

lemma validate_total:
  assumes "dataset_manifest_ok m"
  obtains report where "validate by_id membership m = Inr report"
    and "lr_dataset_id report = dataset_id m"
    and "sorted (map violation_order (lr_violations report))"
    and "accepted report \<longleftrightarrow> leak_free by_id membership m"
proof -
  obtain found where
    f: "\<And>vs. fold_result (validate_sample by_id membership m) (samples m) vs = Inr (vs @ found)" and
    n: "found = [] \<longleftrightarrow> (\<forall>s \<in> set (samples m). sample_leak_free by_id membership (universe_index_id m) s)"
    using validate_samples_total [of "samples m" m] assms by (auto simp: dataset_manifest_ok_def)
  show ?thesis
    by (rule that, unfold validate_def Let_def f sum.case, rule refl)
      (auto simp: accepted_def leak_free_def sorted_Nil_iff n validate_split_boundaries_Nil)
qed

lemma validate_accepted:
  assumes "dataset_manifest_ok m" and "validate by_id membership m = Inr report"
  shows "accepted report \<longleftrightarrow> leak_free by_id membership m"
proof -
  obtain r where "validate by_id membership m = Inr r" and "accepted r \<longleftrightarrow> leak_free by_id membership m"
    by (rule validate_total [OF assms(1)])
  with assms(2) show ?thesis by simp
qed

lemma validate_leak_free:
  assumes "dataset_manifest_ok m" and "leak_free by_id membership m"
  shows "\<exists>report. validate by_id membership m = Inr report \<and> accepted report"
proof -
  obtain r where "validate by_id membership m = Inr r" and "accepted r \<longleftrightarrow> leak_free by_id membership m"
    by (rule validate_total [OF assms(1)])
  with assms(2) show ?thesis by simp
qed

end

interpretation leak_mem: leakage_source "record_by_id s" "membership_at s" for s
proof unfold_locales
  fix k t index
  assume "0 < (k :: int)"
  then show "\<exists>universe. membership_at s t index (Some k) = Inr universe"
    by (simp add: membership_at_def as_known_at_def cutoff_of_def snapshot_collect)
qed

lemma validate_sample_keeps:
  "validate_sample by_id membership m s vs = Inr vs' \<Longrightarrow>
     set vs \<subseteq> set vs' \<and> (\<forall>rid \<in> set (record_ids s). set (validate_record by_id s rid) \<subseteq> set vs')"
  by (auto simp: validate_sample_def Let_def split: sum.splits)

lemma validate_samples_keep:
  assumes "fold_result (validate_sample by_id membership m) ss vs = Inr vs'"
  shows "set vs \<subseteq> set vs' \<and>
     (\<forall>s \<in> set ss. \<forall>rid \<in> set (record_ids s). set (validate_record by_id s rid) \<subseteq> set vs')"
  using assms
proof (induction ss arbitrary: vs)
  case (Cons s ss)
  then obtain vs1 where one: "validate_sample by_id membership m s vs = Inr vs1"
    and rest: "fold_result (validate_sample by_id membership m) ss vs1 = Inr vs'"
    by (auto split: sum.splits)
  show ?case using validate_sample_keeps [OF one] Cons.IH [OF rest] by fastforce
qed simp

lemma validate_keeps_records:
  assumes "validate by_id membership m = Inr report"
    and "x \<in> set (samples m)" and "rid \<in> set (record_ids x)"
  shows "set (validate_record by_id x rid) \<subseteq> set (lr_violations report)"
proof -
  define first where "first = (if manifest_split_method m = RANDOMIZED
      then [violation RANDOMIZED_TIME_SPLIT [] None
              ''randomized train/test splitting is forbidden for time series''] else [])"
  obtain found where found: "fold_result (validate_sample by_id membership m) (samples m) first = Inr found"
    using assms(1) by (cases "fold_result (validate_sample by_id membership m) (samples m) first")
      (simp_all add: validate_def Let_def first_def)
  then have "set (lr_violations report) = set found \<union> set (validate_split_boundaries m)"
    using assms(1) by (auto simp: validate_def Let_def first_def)
  then show ?thesis using validate_samples_keep [OF found] assms(2,3) by blast
qed

lemma store_extend_keeps_ids:
  assumes "store_extend s rs = (s', e)" and "pit_store_inv s" and "\<forall>r \<in> set rs. pit_record_ok r"
    and "record_by_id s rid = Some r"
  shows "record_by_id s' rid = Some r"
  using assms
proof (induction rs arbitrary: s)
  case (Cons x rs)
  show ?case
  proof (cases "store_append s x")
    case (Inl err)
    with Cons.prems show ?thesis by simp
  next
    case (Inr s1)
    then have "record_by_id s1 rid = Some r"
      using Cons.prems(4) by (auto simp: store_append_Inr record_by_id_def)
    moreover have "pit_store_inv s1" using Inr Cons.prems by (auto intro: store_append_inv)
    ultimately show ?thesis using Inr Cons.prems by (intro Cons.IH [of s1]) auto
  qed
qed simp

lemma leak_free_mono:
  assumes free: "leak_free by_id membership m"
    and ids: "\<And>rid r. by_id rid = Some r \<Longrightarrow> by_id' rid = Some r"
    and same: "\<And>x. x \<in> set (samples m) \<Longrightarrow>
      membership' (sample_event_time_ns x) (universe_index_id m) (Some (sample_cutoff x)) =
      membership (sample_event_time_ns x) (universe_index_id m) (Some (sample_cutoff x))"
  shows "leak_free by_id' membership' m"
proof -
  have "sample_leak_free by_id' membership' (universe_index_id m) x" if x: "x \<in> set (samples m)" for x
  proof -
    have "sample_leak_free by_id membership (universe_index_id m) x"
      using free x by (simp add: leak_free_def)
    then show ?thesis
      unfolding sample_leak_free_def same [OF x] using ids by blast
  qed
  then show ?thesis using free by (simp add: leak_free_def)
qed

section \<open>A worked dataset\<close>

definition ex_sample :: "string \<Rightarrow> dataset_split \<Rightarrow> int \<Rightarrow> dataset_sample" where
  "ex_sample i split t = \<lparr>sample_id = lit i, sample_event_time_ns = t, feature_start_ns = t - 1,
     feature_end_ns = t, label_start_ns = t + 1, label_end_ns = t + 2, sample_split = split,
     record_ids = [lit ''m1''], universe_instrument_ids = [lit ''AAA'']\<rparr>"

definition ex_manifest :: "split_method \<Rightarrow> dataset_manifest" where
  "ex_manifest method = \<lparr>dataset_id = lit ''ds'', created_at_ns = 100, manifest_split_method = method,
     samples = [ex_sample ''a'' TRAIN 11, ex_sample ''b'' TEST 16],
     universe_index_id = lit ''SPX'', embargo_ns = 2, random_seed = None\<rparr>"

lemma ex_manifest_ok: "dataset_manifest_ok (ex_manifest WALK_FORWARD)"
    "dataset_manifest_ok ((ex_manifest RANDOMIZED)\<lparr>random_seed := Some 7\<rparr>)"
  by (simp_all add: ex_manifest_def ex_sample_def dataset_manifest_ok_def dataset_manifest_post_init_def
      dataset_sample_post_init_def bounded_text_def lit_def utf8_length_def utf8_width_def
      is_surrogate_def MAX_TEXT_BYTES_def list_ex_iff)

lemma ex_snapshot:
  "snapshot ex_store2 11 True = Inr [ex_member ''m1'' 1 5 10 True]"
  "snapshot ex_store2 16 True = Inr [ex_member ''m1'' 1 5 10 True]"
  by (simp_all add: snapshot_collect ex_store2_def ex_member_def available_by_def available_at_ns_def
      collect_last_def listing_def)

lemma ex_membership:
  "membership_at ex_store2 11 (lit ''SPX'') (Some 11) = Inr [lit ''AAA'']"
  "membership_at ex_store2 16 (lit ''SPX'') (Some 16) = Inr [lit ''AAA'']"
  by (simp_all add: membership_at_def as_known_at_def cutoff_of_def ex_snapshot membership_from_def
      ex_member_def validity_contains_def)

lemma ex_record: "record_by_id ex_store1 (lit ''m1'') = Some (ex_member ''m1'' 1 5 10 True)"
    "record_by_id ex_store2 (lit ''m1'') = Some (ex_member ''m1'' 1 5 10 True)"
  by (simp_all add: record_by_id_def ex_store1_def ex_store2_def)

lemma ex_membership1:
  "membership_at ex_store1 11 (lit ''SPX'') (Some 11) = Inr [lit ''AAA'']"
  "membership_at ex_store1 16 (lit ''SPX'') (Some 16) = Inr [lit ''AAA'']"
  using snapshot_unaffected [OF ex_append2, of 11 True]
    snapshot_unaffected [OF ex_append2, of 16 True] ex_membership
  by (simp_all add: membership_at_def as_known_at_def cutoff_of_def available_by_def
      ex_member_def available_at_ns_def)

lemma ex_leak_free:
  "leak_free (record_by_id ex_store1) (membership_at ex_store1) (ex_manifest WALK_FORWARD)"
  "leak_free (record_by_id ex_store2) (membership_at ex_store2) (ex_manifest WALK_FORWARD)"
  by (simp_all add: leak_free_def sample_leak_free_def splits_leak_free_def record_leak_free_def
      ex_manifest_def ex_sample_def sample_cutoff_def ex_membership ex_membership1 ex_record
      ex_member_def available_at_ns_def validity_contains_def)

section \<open>Properties of the validator\<close>

text \<open>
  Claim C4. \<open>LeakageValidator.validate\<close> is total on constructed manifests and exact: it returns a report
  for the dataset, its violations in the documented order, and the report is accepted if and only if the
  dataset is leak free: the split is not randomized, no feature window passes its sample time or touches
  its label, every referenced record is known and was available at the cutoff (memberships and corporate
  actions also in force at the sample time), every sample universe is the point-in-time membership, and
  any two samples of different partitions are separated in time by at least the embargo.
\<close>

theorem validate_accepts_iff_leak_free:
  assumes "dataset_manifest_ok m"
  shows "\<exists>report. validate (record_by_id s) (membership_at s) m = Inr report \<and>
     lr_dataset_id report = dataset_id m \<and>
     sorted (map violation_order (lr_violations report)) \<and>
     (accepted report \<longleftrightarrow> leak_free (record_by_id s) (membership_at s) m)"
  by (rule leak_mem.validate_total [OF assms, of s]) blast

theorem validate_accepts_iff_leak_free_witness:
  "(\<exists>report. validate (record_by_id ex_store2) (membership_at ex_store2) (ex_manifest WALK_FORWARD) =
       Inr report \<and> accepted report) \<and>
   (\<exists>report. validate (record_by_id ex_store2) (membership_at ex_store2)
       ((ex_manifest RANDOMIZED)\<lparr>random_seed := Some 7\<rparr>) = Inr report \<and> \<not> accepted report)"
  using validate_accepts_iff_leak_free [OF ex_manifest_ok(1), of ex_store2]
    validate_accepts_iff_leak_free [OF ex_manifest_ok(2), of ex_store2] ex_leak_free(2)
  by (auto simp: leak_free_def ex_manifest_def)

text \<open>
  \<open>validate_or_raise\<close> fails closed: a constructed manifest is returned as an accepted report when
  it is leak free, and otherwise \<open>LeakageDetectedError\<close> is raised carrying a nonempty report; no other
  exception leaves the validator.
\<close>

theorem validate_or_raise_fails_closed:
  assumes "dataset_manifest_ok m"
  shows "if leak_free (record_by_id s) (membership_at s) m
     then validate_or_raise (record_by_id s) (membership_at s) m =
       Inr \<lparr>lr_dataset_id = dataset_id m, lr_violations = []\<rparr>
     else \<exists>report. validate_or_raise (record_by_id s) (membership_at s) m =
       Inl (LeakageDetectedError report) \<and> lr_violations report \<noteq> []"
proof -
  obtain report where "validate (record_by_id s) (membership_at s) m = Inr report"
    and "lr_dataset_id report = dataset_id m"
    and "accepted report \<longleftrightarrow> leak_free (record_by_id s) (membership_at s) m"
    by (rule leak_mem.validate_total [OF assms])
  then show ?thesis
    by (cases "lr_violations report")
      (auto simp: validate_or_raise_def raise_if_invalid_def raise_if_def accepted_def)
qed

theorem validate_or_raise_fails_closed_witness:
  "validate_or_raise (record_by_id ex_store2) (membership_at ex_store2) (ex_manifest WALK_FORWARD) =
     Inr \<lparr>lr_dataset_id = lit ''ds'', lr_violations = []\<rparr>"
  using validate_or_raise_fails_closed [OF ex_manifest_ok(1), of ex_store2] ex_leak_free(2)
  by (simp add: ex_manifest_def)

text \<open>
  Claim C23. A dataset that was accepted stays accepted: extending the store with any batch of records
  that become available only after every sample's cutoff cannot turn an accepted dataset into a rejected
  one, whatever the batch does (it may even stop at an error).
\<close>

theorem accepted_dataset_is_stable:
  assumes "pit_reachable s" and "dataset_manifest_ok m"
    and "validate (record_by_id s) (membership_at s) m = Inr report" and "accepted report"
    and "store_extend s rs = (s', e)" and "\<forall>r \<in> set rs. pit_record_ok r"
    and "\<forall>r \<in> set rs. \<forall>x \<in> set (samples m). sample_cutoff x < available_at_ns r"
  shows "\<exists>report'. validate (record_by_id s') (membership_at s') m = Inr report' \<and> accepted report'"
proof -
  have same: "membership_at s' t index (Some (sample_cutoff x)) = membership_at s t index (Some (sample_cutoff x))"
    if "x \<in> set (samples m)" for x t index
    using store_extend_unaffected [OF assms(5), of "sample_cutoff x" True] assms(7) that
    by (fastforce simp: membership_at_def as_known_at_def cutoff_of_def available_by_def)
  have ids: "record_by_id s' rid = Some r" if "record_by_id s rid = Some r" for rid r
    using store_extend_keeps_ids [OF assms(5) pit_reachable_inv [OF assms(1)] assms(6) that] .
  have "leak_free (record_by_id s) (membership_at s) m"
    using leak_mem.validate_accepted [OF assms(2,3)] assms(4) by simp
  then have "leak_free (record_by_id s') (membership_at s') m"
    by (rule leak_free_mono) (simp_all add: ids same)
  then show ?thesis by (rule leak_mem.validate_leak_free [OF assms(2)])
qed

theorem accepted_dataset_is_stable_witness:
  "\<exists>report. validate (record_by_id ex_store2) (membership_at ex_store2) (ex_manifest WALK_FORWARD) =
     Inr report \<and> accepted report"
proof -
  obtain report where "validate (record_by_id ex_store1) (membership_at ex_store1)
      (ex_manifest WALK_FORWARD) = Inr report" and "accepted report"
    using leak_mem.validate_leak_free [OF ex_manifest_ok(1) ex_leak_free(1)] by blast
  then show ?thesis
    by (rule accepted_dataset_is_stable [OF ex_reachable(1) ex_manifest_ok(1), where e = None and
          rs = "[ex_member ''m2'' 2 15 20 False]"])
      (simp_all add: ex_append2 ex_member_ok(2), simp add: ex_manifest_def ex_sample_def
        sample_cutoff_def ex_member_def available_at_ns_def)
qed

text \<open>
  Every look-ahead is reported under the code of its kind: when a sample references a record
  that became available after the sample's cutoff, the report holds a violation for that sample and record
  whose code is the future-data code of the record's kind (a macro vintage, a constituent, an estimate, a
  corporate action, any other record); an unknown record is reported as missing provenance.
\<close>

theorem look_ahead_is_reported:
  assumes "validate by_id membership m = Inr report"
    and "x \<in> set (samples m)" and "rid \<in> set (record_ids x)"
    and "by_id rid = None \<and> code = MISSING_PROVENANCE \<or>
      (\<exists>r. by_id rid = Some r \<and> sample_cutoff x < available_at_ns r \<and> code = future_code (rec_kind r))"
  shows "\<exists>v \<in> set (lr_violations report).
     lv_code v = code \<and> lv_sample_id v = sample_id x \<and> lv_record_id v = Some rid"
proof -
  have "set (validate_record by_id x rid) \<subseteq> set (lr_violations report)"
    using assms(1-3) by (rule validate_keeps_records)
  moreover have "\<exists>v \<in> set (validate_record by_id x rid).
      lv_code v = code \<and> lv_sample_id v = sample_id x \<and> lv_record_id v = Some rid"
    using assms(4) by (auto simp: validate_record_def violation_def)
  ultimately show ?thesis by blast
qed

theorem look_ahead_is_reported_witness:
  "\<exists>report v. validate (record_by_id ex_store0) (membership_at ex_store0) (ex_manifest WALK_FORWARD) =
       Inr report \<and> v \<in> set (lr_violations report) \<and> lv_code v = MISSING_PROVENANCE \<and>
       lv_record_id v = Some (lit ''m1'')"
proof -
  obtain report where r: "validate (record_by_id ex_store0) (membership_at ex_store0)
      (ex_manifest WALK_FORWARD) = Inr report"
    by (rule leak_mem.validate_total [OF ex_manifest_ok(1), of ex_store0])
  show ?thesis
    using look_ahead_is_reported [OF r, of "ex_sample ''a'' TRAIN 11" "lit ''m1''" MISSING_PROVENANCE] r
    by (auto simp: ex_manifest_def ex_sample_def record_by_id_def ex_store0_def)
qed

end
