(* ===== verification/Identifier.thy ===== *)
theory Identifier
  imports Prelude
begin

text \<open>
  The opaque 128-bit identifiers of \<open>python/intelligence/aegis_mx_intelligence/contracts.py\<close>.
  \<open>InstrumentId\<close>, \<open>ConfigurationVersion\<close>, \<open>VenueId\<close> and the other identifier names are \<open>NewType\<close>s of
  \<open>Identifier128\<close>: the same values at run time. The dataclass is declared with \<open>order=True\<close>, so it
  is ordered as the pair of its fields.
\<close>

section \<open>Identifiers\<close>

datatype identifier128 = Identifier128 (id_high: int) (id_low: int)

definition identifier128_post_init :: "identifier128 \<Rightarrow> py_error option" where
  "identifier128_post_init i = first_error
     [raise_if (\<not> (0 \<le> id_high i \<and> id_high i \<le> 2 ^ 64 - 1) \<or> \<not> (0 \<le> id_low i \<and> id_low i \<le> 2 ^ 64 - 1))
        (ValueError ''identifier words must be unsigned 64-bit integers''),
      raise_if (id_high i = 0 \<and> id_low i = 0)
        (ValueError ''the all-zero identifier is reserved and invalid'')]"

abbreviation identifier128_ok :: "identifier128 \<Rightarrow> bool" where
  "identifier128_ok i \<equiv> identifier128_post_init i = None"

instantiation identifier128 :: linorder
begin

definition less_eq_identifier128 :: "identifier128 \<Rightarrow> identifier128 \<Rightarrow> bool" where
  "a \<le> b \<longleftrightarrow> id_high a < id_high b \<or> id_high a = id_high b \<and> id_low a \<le> id_low b"

definition less_identifier128 :: "identifier128 \<Rightarrow> identifier128 \<Rightarrow> bool" where
  "a < b \<longleftrightarrow> id_high a < id_high b \<or> id_high a = id_high b \<and> id_low a < id_low b"

instance
  by standard (auto simp: less_eq_identifier128_def less_identifier128_def intro: identifier128.expand)

end

section \<open>Canonical hexadecimal text\<close>

definition hex_digit :: "nat \<Rightarrow> nat" where
  "hex_digit d = (if d < 10 then 48 + d else 87 + d)"

fun hex_nat :: "nat \<Rightarrow> ustr" where
  "hex_nat n = (if n < 16 then [hex_digit n] else hex_nat (n div 16) @ [hex_digit (n mod 16)])"

declare hex_nat.simps [simp del]

text \<open>The format \<open>016x\<close>: lowercase hexadecimal, padded with zeros to sixteen digits.\<close>

definition format_016x :: "int \<Rightarrow> ustr" where
  "format_016x n = (let digits = hex_nat (nat n) in replicate (16 - length digits) 48 @ digits)"

definition identifier_hex :: "identifier128 \<Rightarrow> ustr" where
  "identifier_hex i = format_016x (id_high i) @ format_016x (id_low i)"

text \<open>The value of a run of lowercase hexadecimal digits, as \<open>int(text, 16)\<close> reads it.\<close>

definition is_hex_digit :: "nat \<Rightarrow> bool" where
  "is_hex_digit c \<longleftrightarrow> 48 \<le> c \<and> c \<le> 57 \<or> 97 \<le> c \<and> c \<le> 102"

definition hex_digit_value :: "nat \<Rightarrow> nat" where
  "hex_digit_value c = (if c \<le> 57 then c - 48 else c - 87)"

definition hex_value :: "ustr \<Rightarrow> nat" where
  "hex_value cs = foldl (\<lambda>n c. 16 * n + hex_digit_value c) 0 cs"

lemma hex_digit_value_digit [simp]: "d < 16 \<Longrightarrow> hex_digit_value (hex_digit d) = d"
  by (simp add: hex_digit_value_def hex_digit_def)

lemma is_hex_digit_digit [simp]: "d < 16 \<Longrightarrow> is_hex_digit (hex_digit d)"
  by (auto simp: is_hex_digit_def hex_digit_def)

lemma hex_value_snoc: "hex_value (cs @ [c]) = 16 * hex_value cs + hex_digit_value c"
  by (simp add: hex_value_def)

lemma hex_value_nat: "hex_value (hex_nat n) = n"
proof (induction n rule: hex_nat.induct)
  case (1 n)
  then show ?case
    by (subst hex_nat.simps) (auto simp: hex_value_snoc, simp add: hex_value_def)
qed

lemma hex_value_zeros: "hex_value (replicate k 48 @ cs) = hex_value cs"
  by (induction k) (simp_all add: hex_value_def hex_digit_value_def)

lemma length_hex_nat: "n < 16 ^ Suc k \<Longrightarrow> length (hex_nat n) \<le> Suc k"
proof (induction k arbitrary: n)
  case 0
  then show ?case by (subst hex_nat.simps) simp
next
  case (Suc k)
  have "n div 16 < 16 ^ Suc k" using Suc.prems by (simp add: less_mult_imp_div_less mult.commute)
  then have "length (hex_nat (n div 16)) \<le> Suc k" by (rule Suc.IH)
  then show ?case by (subst hex_nat.simps) simp
qed

lemma hex_nat_digits: "c \<in> set (hex_nat n) \<Longrightarrow> is_hex_digit c"
proof (induction n rule: hex_nat.induct)
  case (1 n)
  show ?case
  proof (cases "n < 16")
    case True
    with "1.prems" show ?thesis by (subst (asm) hex_nat.simps) simp
  next
    case False
    with "1.prems" have "c \<in> set (hex_nat (n div 16)) \<or> c = hex_digit (n mod 16)"
      by (subst (asm) hex_nat.simps) auto
    with False "1.IH" show ?thesis by auto
  qed
qed

lemma format_016x_roundtrip:
  assumes "0 \<le> n" and "n \<le> 2 ^ 64 - 1"
  shows "length (format_016x n) = 16" and "int (hex_value (format_016x n)) = n"
    and "\<forall>c \<in> set (format_016x n). is_hex_digit c"
proof -
  have "nat n < 16 ^ Suc 15" using assms by simp
  then have "length (hex_nat (nat n)) \<le> 16" using length_hex_nat by fastforce
  then show "length (format_016x n) = 16" by (simp add: format_016x_def Let_def)
  show "int (hex_value (format_016x n)) = n"
    using assms by (simp add: format_016x_def Let_def hex_value_zeros hex_value_nat)
  show "\<forall>c \<in> set (format_016x n). is_hex_digit c"
    by (auto simp: format_016x_def Let_def intro: hex_nat_digits) (simp add: is_hex_digit_def)
qed

lemma identifier_ok_words:
  assumes "identifier128_ok i"
  shows "0 \<le> id_high i" "id_high i \<le> 2 ^ 64 - 1" "0 \<le> id_low i" "id_low i \<le> 2 ^ 64 - 1"
  using assms by (simp_all add: identifier128_post_init_def)

text \<open>
  The canonical text of an identifier is faithful: for every constructed identifier it has
  exactly 32 lowercase hexadecimal digits, and reading its two halves in base 16 gives back the identifier,
  so distinct identifiers never share a text.
\<close>

theorem identifier_hex_roundtrip:
  assumes "identifier128_ok i"
  shows "length (identifier_hex i) = 32 \<and> (\<forall>c \<in> set (identifier_hex i). is_hex_digit c) \<and>
     Identifier128 (int (hex_value (take 16 (identifier_hex i)))) (int (hex_value (drop 16 (identifier_hex i)))) = i"
  using format_016x_roundtrip [of "id_high i"] format_016x_roundtrip [of "id_low i"]
    identifier_ok_words [OF assms]
  by (auto simp: identifier_hex_def)

theorem identifier_hex_roundtrip_witness:
  "length (identifier_hex (Identifier128 0 255)) = 32 \<and>
   Identifier128 (int (hex_value (take 16 (identifier_hex (Identifier128 0 255)))))
     (int (hex_value (drop 16 (identifier_hex (Identifier128 0 255))))) = Identifier128 0 255"
  using identifier_hex_roundtrip [of "Identifier128 0 255"]
  by (simp add: identifier128_post_init_def)

end
