(* ===== verification/Json.thy ===== *)
theory Json
  imports Identifier
begin

text \<open>
  The part of Python's \<open>json\<close> module the research code uses.

  \<^item> \<open>json_dumps\<close> is \<open>json.dumps(v, ensure_ascii=True, separators=(",", ":"), sort_keys=True)\<close>: objects
    with their keys in code-point order, no blanks, everything outside printable ASCII escaped. Printing an
    integer of more than 4300 digits raises \<open>ValueError\<close>.
  \<^item> \<open>json_loads\<close> is \<open>json.loads\<close> on text: blanks between tokens, the escapes of strict strings with
    surrogate pairs joined, duplicate keys resolved to the last value, numbers with a fraction or an exponent
    (and NaN and the infinities) kept as floats by their lexeme, integers of more than 4300 digits refused.
    Its fuel is twice the length of the input plus two; \<open>json_loads_has_fuel\<close> shows it never runs out.
  \<^item> The round trip: \<open>json_loads\<close> gives back every value \<open>json_dumps\<close> printed, for values with sorted
    distinct keys and text without surrogates.
  \<^item> Not modelled: the interpreter's recursion limit, which a document nested about a thousand levels deep
    would meet; the documents of this code nest at most five levels.
\<close>

section \<open>Values\<close>

datatype json =
    JNull
  | JBool bool
  | JInt int
  | JFloat ustr
  | JStr ustr
  | JArr "json list"
  | JObj "(ustr \<times> json) list"

datatype json_error = JSONDecodeError | IntDigitsError | OutOfFuel

definition MAX_INT_DIGITS :: nat where
  "MAX_INT_DIGITS = 4300"

section \<open>Printing\<close>

definition hex4 :: "nat \<Rightarrow> ustr" where
  "hex4 c = map (\<lambda>i. hex_digit (c div 16 ^ i mod 16)) [3, 2, 1, 0]"

definition escape_unit :: "nat \<Rightarrow> ustr" where
  "escape_unit c = [92, 117] @ hex4 c"

definition escape_char :: "nat \<Rightarrow> ustr" where
  "escape_char c =
     (if c = 34 then [92, 34] else if c = 92 then [92, 92]
      else if c = 10 then [92, 110] else if c = 13 then [92, 114] else if c = 9 then [92, 116]
      else if c = 12 then [92, 102] else if c = 8 then [92, 98]
      else if 32 \<le> c \<and> c \<le> 126 then [c]
      else if c < 65536 then escape_unit c
      else escape_unit (55296 + (c - 65536) div 1024) @ escape_unit (56320 + (c - 65536) mod 1024))"

definition emit_string :: "ustr \<Rightarrow> ustr" where
  "emit_string t = [34] @ concat (map escape_char t) @ [34]"

definition emit_int :: "int \<Rightarrow> ustr" where
  "emit_int n = (if n < 0 then [45] else []) @ lit (nat_dec (nat \<bar>n\<bar>))"

fun join_commas :: "ustr list \<Rightarrow> ustr" where
  "join_commas [] = []"
| "join_commas [x] = x"
| "join_commas (x # y # ys) = x @ [44] @ join_commas (y # ys)"

function emit :: "json \<Rightarrow> ustr" where
  "emit JNull = lit ''null''"
| "emit (JBool b) = lit (if b then ''true'' else ''false'')"
| "emit (JInt n) = emit_int n"
| "emit (JFloat t) = t"
| "emit (JStr t) = emit_string t"
| "emit (JArr vs) = [91] @ join_commas (map emit vs) @ [93]"
| "emit (JObj kvs) = [123] @
     join_commas (map (\<lambda>kv. emit_string (fst kv) @ [58] @ emit (snd kv)) (sort_key fst kvs)) @ [125]"
  by pat_completeness auto
termination
proof (relation "measure size")
  fix kvs kv
  assume "kv \<in> set (sort_key fst (kvs :: (ustr \<times> json) list))"
  then have "kv \<in> set kvs" by simp
  then have "size (snd kv) < size_list (size_prod (\<lambda>x. 0) size) kvs"
    by (rule size_list_estimation) (simp add: size_prod_simp)
  then show "(snd kv, JObj kvs) \<in> measure size" by simp
qed (auto simp: less_Suc_eq_le size_list_estimation')

fun json_ints_ok :: "json \<Rightarrow> bool" where
  "json_ints_ok (JInt n) = (length (nat_dec (nat \<bar>n\<bar>)) \<le> MAX_INT_DIGITS)"
| "json_ints_ok (JArr vs) = list_all json_ints_ok vs"
| "json_ints_ok (JObj kvs) = list_all (\<lambda>kv. json_ints_ok (snd kv)) kvs"
| "json_ints_ok _ = True"

definition json_dumps :: "json \<Rightarrow> py_error + ustr" where
  "json_dumps v =
     (if json_ints_ok v then Inr (emit v)
      else Inl (ValueError ''Exceeds the limit for integer string conversion''))"

section \<open>Scanning\<close>

definition is_blank :: "nat \<Rightarrow> bool" where
  "is_blank c \<longleftrightarrow> c = 32 \<or> c = 9 \<or> c = 10 \<or> c = 13"

definition skip_blanks :: "ustr \<Rightarrow> ustr" where
  "skip_blanks s = dropWhile is_blank s"

definition hex_value_of :: "nat \<Rightarrow> nat option" where
  "hex_value_of c = (if 48 \<le> c \<and> c \<le> 57 then Some (c - 48)
     else if 97 \<le> c \<and> c \<le> 102 then Some (c - 87)
     else if 65 \<le> c \<and> c \<le> 70 then Some (c - 55) else None)"

fun scan_hex4 :: "ustr \<Rightarrow> (nat \<times> ustr) option" where
  "scan_hex4 (a # b # c # d # s) =
     (case (hex_value_of a, hex_value_of b, hex_value_of c, hex_value_of d) of
        (Some w, Some x, Some y, Some z) \<Rightarrow> Some (((w * 16 + x) * 16 + y) * 16 + z, s)
      | _ \<Rightarrow> None)"
| "scan_hex4 _ = None"

text \<open>The low half of a surrogate pair, when an escape for one follows.\<close>

fun scan_low :: "ustr \<Rightarrow> (nat \<times> ustr) option" where
  "scan_low (x # y # s) =
     (if x = 92 \<and> y = 117 then
        (case scan_hex4 s of
           Some (c, s') \<Rightarrow> if 56320 \<le> c \<and> c \<le> 57343 then Some (c, s') else None
         | None \<Rightarrow> None)
      else None)"
| "scan_low _ = None"

fun simple_escape :: "nat \<Rightarrow> nat option" where
  "simple_escape c = (if c = 34 \<or> c = 92 \<or> c = 47 then Some c
     else if c = 98 then Some 8 else if c = 102 then Some 12 else if c = 110 then Some 10
     else if c = 114 then Some 13 else if c = 116 then Some 9 else None)"

text \<open>One character of a string literal after its backslash.\<close>

fun scan_escape :: "ustr \<Rightarrow> (nat \<times> ustr) option" where
  "scan_escape [] = None"
| "scan_escape (e # s) =
     (if e = 117 then
        (case scan_hex4 s of
           None \<Rightarrow> None
         | Some (c, s') \<Rightarrow>
             (case (if 55296 \<le> c \<and> c \<le> 56319 then scan_low s' else None) of
                Some (low, s'') \<Rightarrow> Some (65536 + (c - 55296) * 1024 + (low - 56320), s'')
              | None \<Rightarrow> Some (c, s')))
      else (case simple_escape e of Some c \<Rightarrow> Some (c, s) | None \<Rightarrow> None))"

lemma scan_hex4_shorter: "scan_hex4 s = Some (c, s') \<Longrightarrow> length s' < length s"
  by (cases s rule: scan_hex4.cases) (auto split: option.splits)

lemma scan_low_shorter: "scan_low s = Some (c, s') \<Longrightarrow> length s' < length s"
  by (cases s rule: scan_low.cases) (auto split: option.splits if_splits dest: scan_hex4_shorter)

lemma scan_escape_shorter: "scan_escape s = Some (c, s') \<Longrightarrow> length s' < length s"
  by (cases s) (auto split: option.splits if_splits dest!: scan_hex4_shorter scan_low_shorter)

function scan_string :: "ustr \<Rightarrow> (ustr \<times> ustr) option" where
  "scan_string [] = None"
| "scan_string (c # s) =
     (if c = 34 then Some ([], s)
      else if c = 92 then
        (case scan_escape s of
           None \<Rightarrow> None
         | Some (d, s') \<Rightarrow> (case scan_string s' of None \<Rightarrow> None | Some (t, r) \<Rightarrow> Some (d # t, r)))
      else if c \<le> 31 then None
      else (case scan_string s of None \<Rightarrow> None | Some (t, r) \<Rightarrow> Some (c # t, r)))"
  by pat_completeness auto
termination
  by (relation "measure length") (auto dest: scan_escape_shorter)

definition is_digit :: "nat \<Rightarrow> bool" where
  "is_digit c \<longleftrightarrow> 48 \<le> c \<and> c \<le> 57"

definition dec_value :: "ustr \<Rightarrow> nat" where
  "dec_value ds = foldl (\<lambda>n d. 10 * n + (d - 48)) 0 ds"

definition scan_fraction :: "ustr \<Rightarrow> ustr \<times> ustr" where
  "scan_fraction s = (case s of
     c # r \<Rightarrow> if c = 46 \<and> takeWhile is_digit r \<noteq> []
              then (46 # takeWhile is_digit r, dropWhile is_digit r) else ([], s)
   | [] \<Rightarrow> ([], s))"

definition scan_sign :: "ustr \<Rightarrow> ustr \<times> ustr" where
  "scan_sign s = (case s of c # r \<Rightarrow> if c = 43 \<or> c = 45 then ([c], r) else ([], s) | [] \<Rightarrow> ([], s))"

definition scan_exponent :: "ustr \<Rightarrow> ustr \<times> ustr" where
  "scan_exponent s = (case s of
     c # r \<Rightarrow> (case scan_sign r of (sg, r') \<Rightarrow>
       if (c = 101 \<or> c = 69) \<and> takeWhile is_digit r' \<noteq> []
       then (c # sg @ takeWhile is_digit r', dropWhile is_digit r') else ([], s))
   | [] \<Rightarrow> ([], s))"

definition scan_integer_part :: "ustr \<Rightarrow> (ustr \<times> ustr) option" where
  "scan_integer_part s = (case s of
     c # r \<Rightarrow> if c = 48 then Some ([48], r)
              else if is_digit c then Some (takeWhile is_digit s, dropWhile is_digit s) else None
   | [] \<Rightarrow> None)"

definition scan_number :: "ustr \<Rightarrow> json_error + (json \<times> ustr)" where
  "scan_number s =
     (let negative = (s \<noteq> [] \<and> hd s = 45); body = (if negative then tl s else s)
      in case scan_integer_part body of
           None \<Rightarrow> Inl JSONDecodeError
         | Some (ds, r) \<Rightarrow>
             (case scan_fraction r of (fraction, r1) \<Rightarrow>
              case scan_exponent r1 of (exponent, r2) \<Rightarrow>
                if fraction = [] \<and> exponent = [] then
                  (if MAX_INT_DIGITS < length ds then Inl IntDigitsError
                   else Inr (JInt (if negative then - int (dec_value ds) else int (dec_value ds)), r2))
                else Inr (JFloat ((if negative then [45] else []) @ ds @ fraction @ exponent), r2)))"

definition scan_constant :: "ustr \<Rightarrow> (json \<times> ustr) option" where
  "scan_constant s =
     (if take 4 s = lit ''null'' then Some (JNull, drop 4 s)
      else if take 4 s = lit ''true'' then Some (JBool True, drop 4 s)
      else if take 5 s = lit ''false'' then Some (JBool False, drop 5 s)
      else if take 3 s = lit ''NaN'' then Some (JFloat (lit ''NaN''), drop 3 s)
      else if take 8 s = lit ''Infinity'' then Some (JFloat (lit ''Infinity''), drop 8 s)
      else if take 9 s = lit ''-Infinity'' then Some (JFloat (lit ''-Infinity''), drop 9 s)
      else None)"

fun scan_once :: "nat \<Rightarrow> ustr \<Rightarrow> json_error + (json \<times> ustr)"
  and scan_elements :: "nat \<Rightarrow> ustr \<Rightarrow> json_error + (json list \<times> ustr)"
  and scan_members :: "nat \<Rightarrow> (ustr \<times> json) list \<Rightarrow> ustr \<Rightarrow> json_error + ((ustr \<times> json) list \<times> ustr)"
where
  "scan_once 0 s = Inl OutOfFuel"
| "scan_once (Suc n) s =
     (case s of
        [] \<Rightarrow> Inl JSONDecodeError
      | c # r \<Rightarrow>
          if c = 34 then
            (case scan_string r of None \<Rightarrow> Inl JSONDecodeError | Some (t, r') \<Rightarrow> Inr (JStr t, r'))
          else if c = 123 then
            (case skip_blanks r of
               [] \<Rightarrow> Inl JSONDecodeError
             | d # r' \<Rightarrow> if d = 125 then Inr (JObj [], r')
                         else (case scan_members n [] (d # r') of
                                 Inl e \<Rightarrow> Inl e | Inr (kvs, r'') \<Rightarrow> Inr (JObj kvs, r'')))
          else if c = 91 then
            (case skip_blanks r of
               [] \<Rightarrow> Inl JSONDecodeError
             | d # r' \<Rightarrow> if d = 93 then Inr (JArr [], r')
                         else (case scan_elements n (d # r') of
                                 Inl e \<Rightarrow> Inl e | Inr (vs, r'') \<Rightarrow> Inr (JArr vs, r'')))
          else (case scan_constant s of Some vr \<Rightarrow> Inr vr | None \<Rightarrow> scan_number s))"
| "scan_elements 0 s = Inl OutOfFuel"
| "scan_elements (Suc n) s =
     (case scan_once n s of
        Inl e \<Rightarrow> Inl e
      | Inr (v, r) \<Rightarrow>
          (case skip_blanks r of
             [] \<Rightarrow> Inl JSONDecodeError
           | d # r' \<Rightarrow>
               if d = 93 then Inr ([v], r')
               else if d = 44 then
                 (case scan_elements n (skip_blanks r') of
                    Inl e \<Rightarrow> Inl e | Inr (vs, r'') \<Rightarrow> Inr (v # vs, r''))
               else Inl JSONDecodeError))"
| "scan_members 0 acc s = Inl OutOfFuel"
| "scan_members (Suc n) acc s =
     (case s of
        [] \<Rightarrow> Inl JSONDecodeError
      | c # r \<Rightarrow>
          if c \<noteq> 34 then Inl JSONDecodeError
          else case scan_string r of
            None \<Rightarrow> Inl JSONDecodeError
          | Some (k, r1) \<Rightarrow>
              (case skip_blanks r1 of
                 [] \<Rightarrow> Inl JSONDecodeError
               | d # r2 \<Rightarrow>
                   if d \<noteq> 58 then Inl JSONDecodeError
                   else case scan_once n (skip_blanks r2) of
                     Inl e \<Rightarrow> Inl e
                   | Inr (v, r3) \<Rightarrow>
                       (case skip_blanks r3 of
                          [] \<Rightarrow> Inl JSONDecodeError
                        | f # r4 \<Rightarrow>
                            if f = 125 then Inr (AList.update k v acc, r4)
                            else if f = 44 then scan_members n (AList.update k v acc) (skip_blanks r4)
                            else Inl JSONDecodeError)))"

definition json_loads :: "ustr \<Rightarrow> json_error + json" where
  "json_loads s =
     (if s \<noteq> [] \<and> hd s = 65279 then Inl JSONDecodeError
      else case scan_once (2 * length s + 2) (skip_blanks s) of
        Inl e \<Rightarrow> Inl e
      | Inr (v, r) \<Rightarrow> if skip_blanks r = [] then Inr v else Inl JSONDecodeError)"

section \<open>The scanner has enough fuel\<close>

lemma skip_blanks_length: "length (skip_blanks s) \<le> length s"
  by (simp add: skip_blanks_def length_dropWhile_le)

lemma scan_string_shorter: "scan_string s = Some (t, r) \<Longrightarrow> length r < length s"
proof (induction s arbitrary: t r rule: scan_string.induct)
  case (2 c s)
  show ?case
  proof (cases "c = 34 \<or> c \<noteq> 92")
    case True
    with "2.prems" "2.IH"(2) show ?thesis
      by (fastforce split: if_splits option.splits)
  next
    case False
    with "2.prems" obtain d s' t' where "scan_escape s = Some (d, s')" "scan_string s' = Some (t', r)"
      by (auto split: option.splits)
    with False "2.IH"(1) scan_escape_shorter [of s d s'] show ?thesis by fastforce
  qed
qed simp

lemma scan_integer_part_shorter: "scan_integer_part s = Some (ds, r) \<Longrightarrow> length r < length s"
  by (auto simp: scan_integer_part_def split: list.splits if_splits)
    (simp add: length_dropWhile_le le_imp_less_Suc)

lemma scan_fraction_length: "scan_fraction s = (f, r) \<Longrightarrow> length r \<le> length s"
  by (auto simp: scan_fraction_def length_dropWhile_le le_SucI split: list.splits if_splits)

lemma scan_sign_length: "scan_sign s = (f, r) \<Longrightarrow> length r \<le> length s"
  by (auto simp: scan_sign_def split: list.splits if_splits)

lemma scan_exponent_length: "scan_exponent s = (f, r) \<Longrightarrow> length r \<le> length s"
proof -
  have "length (dropWhile is_digit r') \<le> Suc (length r)" if "scan_sign r = (sg, r')" for r r' sg
    using scan_sign_length [OF that] length_dropWhile_le [of is_digit r'] by simp
  then show "scan_exponent s = (f, r) \<Longrightarrow> length r \<le> length s"
    by (auto simp: scan_exponent_def split: list.splits if_splits prod.splits)
qed

lemma scan_number_shorter:
  assumes "scan_number s = Inr (v, r)"
  shows "length r < length s"
proof -
  define body where "body = (if s \<noteq> [] \<and> hd s = 45 then tl s else s)"
  obtain ds r0 where i: "scan_integer_part body = Some (ds, r0)"
    using assms by (auto simp: scan_number_def Let_def body_def split: option.splits)
  obtain fr r1 where f: "scan_fraction r0 = (fr, r1)" by (cases "scan_fraction r0")
  obtain ex r2 where e: "scan_exponent r1 = (ex, r2)" by (cases "scan_exponent r1")
  have "r = r2"
    using assms i f e by (simp add: scan_number_def Let_def body_def [symmetric] split: if_splits)
  moreover have "length body \<le> length s" by (simp add: body_def)
  ultimately show ?thesis
    using scan_integer_part_shorter [OF i] scan_fraction_length [OF f] scan_exponent_length [OF e] by simp
qed

lemma scan_number_fuel: "scan_number s \<noteq> Inl OutOfFuel"
  by (auto simp: scan_number_def Let_def split: option.splits prod.splits)

lemma scan_constant_shorter: "scan_constant s = Some (v, r) \<Longrightarrow> length r < length s"
  by (auto simp: scan_constant_def split: if_splits intro!: diff_less) (auto simp: lit_def)

lemma skip_blanks_Cons: "skip_blanks s = c # r \<Longrightarrow> length r < length s"
  using skip_blanks_length [of s] by simp

lemma scan_shorter_all:
  "(\<forall>s v r. scan_once n s = Inr (v, r) \<longrightarrow> length r < length s) \<and>
   (\<forall>s vs r. scan_elements n s = Inr (vs, r) \<longrightarrow> length r < length s) \<and>
   (\<forall>acc s kvs r. scan_members n acc s = Inr (kvs, r) \<longrightarrow> length r < length s)"
proof (induction n)
  case (Suc n)
  have once: "length r < length s" if "scan_once n s = Inr (v, r)" for s v r using Suc that by blast
  have elements: "length r < length s" if "scan_elements n s = Inr (vs, r)" for s vs r using Suc that by blast
  have members: "length r < length s" if "scan_members n acc s = Inr (kvs, r)" for acc s kvs r
    using Suc that by blast
  have "length r < length s" if "scan_once (Suc n) s = Inr (v, r)" for s v r
    using that
    by (auto split: list.splits if_splits option.splits sum.splits
        dest!: scan_string_shorter skip_blanks_Cons elements members scan_constant_shorter scan_number_shorter)
  moreover have "length r < length s" if scanned: "scan_elements (Suc n) s = Inr (vs, r)" for s vs r
  proof -
    obtain v r1 d r2 where one: "scan_once n s = Inr (v, r1)" "skip_blanks r1 = d # r2"
      using scanned by (auto split: sum.splits list.splits)
    then have "r = r2 \<or> (\<exists>vs'. scan_elements n (skip_blanks r2) = Inr (vs', r))"
      using scanned by (auto split: sum.splits if_splits)
    then have "length r \<le> length r2" using elements skip_blanks_length [of r2] by fastforce
    then show ?thesis using once [OF one(1)] skip_blanks_Cons [OF one(2)] by simp
  qed
  moreover have "length r < length s" if scanned: "scan_members (Suc n) acc s = Inr (kvs, r)" for acc s kvs r
  proof -
    obtain c r0 k r1 d r2 v r3 f r4 where m: "s = c # r0" "scan_string r0 = Some (k, r1)"
      "skip_blanks r1 = d # r2" "scan_once n (skip_blanks r2) = Inr (v, r3)" "skip_blanks r3 = f # r4"
      using scanned by (auto split: sum.splits list.splits option.splits if_splits)
    then have "r = r4 \<or> (\<exists>acc'. scan_members n acc' (skip_blanks r4) = Inr (kvs, r))"
      using scanned by (auto split: if_splits)
    then have "length r \<le> length r4" using members skip_blanks_length [of r4] by fastforce
    then show ?thesis
      using m(1) scan_string_shorter [OF m(2)] skip_blanks_Cons [OF m(3)] once [OF m(4)]
        skip_blanks_Cons [OF m(5)] skip_blanks_length [of r2] by simp
  qed
  ultimately show ?case by blast
qed simp

lemmas scan_once_shorter = scan_shorter_all [THEN conjunct1, rule_format]

lemma scan_fuel_all:
  "(\<forall>s. 2 * length s + 1 \<le> n \<longrightarrow> scan_once n s \<noteq> Inl OutOfFuel) \<and>
   (\<forall>s. 2 * length s + 2 \<le> n \<longrightarrow> scan_elements n s \<noteq> Inl OutOfFuel) \<and>
   (\<forall>acc s. 2 * length s + 1 \<le> n \<longrightarrow> scan_members n acc s \<noteq> Inl OutOfFuel)"
proof (induction n)
  case (Suc n)
  have once: "scan_once n s \<noteq> Inl OutOfFuel" if "2 * length s + 1 \<le> n" for s using Suc that by blast
  have elements: "scan_elements n s \<noteq> Inl OutOfFuel" if "2 * length s + 2 \<le> n" for s using Suc that by blast
  have members: "scan_members n acc s \<noteq> Inl OutOfFuel" if "2 * length s + 1 \<le> n" for acc s
    using Suc that by blast
  have "scan_once (Suc n) s \<noteq> Inl OutOfFuel" if "2 * length s + 1 \<le> Suc n" for s
  proof (cases s)
    case (Cons c r)
    have "scan_elements n (d # r') \<noteq> Inl OutOfFuel \<and> scan_members n [] (d # r') \<noteq> Inl OutOfFuel"
      if "skip_blanks r = d # r'" for d r'
      using skip_blanks_length [of r] that \<open>2 * length s + 1 \<le> Suc n\<close> Cons elements members by simp
    then show ?thesis
      using Cons scan_number_fuel [of s]
      by (auto split: list.splits if_splits option.splits sum.splits)
  qed simp
  moreover have "scan_elements (Suc n) s \<noteq> Inl OutOfFuel" if "2 * length s + 2 \<le> Suc n" for s
  proof -
    have "scan_elements n (skip_blanks r2) \<noteq> Inl OutOfFuel"
      if "scan_once n s = Inr (v, r1)" and "skip_blanks r1 = d # r2" for v r1 d r2
      using scan_once_shorter [OF that(1)] skip_blanks_Cons [OF that(2)] skip_blanks_length [of r2]
        \<open>2 * length s + 2 \<le> Suc n\<close> by (intro elements) simp
    then show ?thesis using once [of s] that by (auto split: list.splits if_splits sum.splits)
  qed
  moreover have "scan_members (Suc n) acc s \<noteq> Inl OutOfFuel" if "2 * length s + 1 \<le> Suc n" for acc s
  proof -
    have once': "scan_once n (skip_blanks r2) \<noteq> Inl OutOfFuel"
      if "s = c # r0" "scan_string r0 = Some (k, r1)" "skip_blanks r1 = d # r2" for c r0 k r1 d r2
      using scan_string_shorter [OF that(2)] skip_blanks_Cons [OF that(3)] skip_blanks_length [of r2]
        that(1) \<open>2 * length s + 1 \<le> Suc n\<close> by (intro once) simp
    have "scan_members n acc' (skip_blanks r4) \<noteq> Inl OutOfFuel"
      if "s = c # r0" "scan_string r0 = Some (k, r1)" "skip_blanks r1 = d # r2"
        "scan_once n (skip_blanks r2) = Inr (v, r3)" "skip_blanks r3 = f # r4" for c r0 k r1 d r2 v r3 f r4 acc'
      using scan_string_shorter [OF that(2)] skip_blanks_Cons [OF that(3)] skip_blanks_length [of r2]
        scan_once_shorter [OF that(4)] skip_blanks_Cons [OF that(5)] skip_blanks_length [of r4]
        that(1) \<open>2 * length s + 1 \<le> Suc n\<close> by (intro members) simp
    then show ?thesis by (auto split: list.splits if_splits option.splits sum.splits dest: once')
  qed
  ultimately show ?case by blast
qed simp

lemma json_loads_has_fuel: "json_loads s \<noteq> Inl OutOfFuel"
proof -
  have "scan_once (2 * length s + 2) (skip_blanks s) \<noteq> Inl OutOfFuel"
    using scan_fuel_all [of "2 * length s + 2"] skip_blanks_length [of s] by simp
  then show ?thesis by (auto simp: json_loads_def split: sum.splits if_splits)
qed

section \<open>Reading back what was printed\<close>

definition text_ok :: "ustr \<Rightarrow> bool" where
  "text_ok t \<longleftrightarrow> (\<forall>c \<in> set t. c < 1114112 \<and> \<not> is_surrogate c)"

fun json_wf :: "json \<Rightarrow> bool" where
  "json_wf (JFloat t) = False"
| "json_wf (JStr t) = text_ok t"
| "json_wf (JArr vs) = list_all json_wf vs"
| "json_wf (JObj kvs) = (sorted_wrt (<) (map fst kvs) \<and> list_all text_ok (map fst kvs) \<and>
     list_all (\<lambda>kv. json_wf (snd kv)) kvs)"
| "json_wf _ = True"

subsection \<open>Strings\<close>

lemma hex_value_of_digit: "d < 16 \<Longrightarrow> hex_value_of (hex_digit d) = Some d"
  by (auto simp: hex_value_of_def hex_digit_def)

lemma scan_hex4_hex4:
  assumes "c < 65536"
  shows "scan_hex4 (hex4 c @ s) = Some (c, s)"
proof -
  have small: "c div 4096 < 16" using assms by (simp add: div_less_iff_less_mult)
  then have top: "c div 4096 mod 16 = c div 4096" by simp
  have "c div 4096 * 16 + c div 256 mod 16 = c div 256"
    using div_mult_mod_eq [of "c div 256" 16] by (simp add: div_mult2_eq [symmetric])
  moreover have "c div 256 * 16 + c div 16 mod 16 = c div 16"
    using div_mult_mod_eq [of "c div 16" 16] by (simp add: div_mult2_eq [symmetric])
  ultimately have "((c div 4096 mod 16 * 16 + c div 256 mod 16) * 16 + c div 16 mod 16) * 16 + c mod 16 = c"
    unfolding top by (simp only: div_mult_mod_eq)
  then show ?thesis by (simp add: hex4_def hex_value_of_digit top small)
qed

lemma scan_escape_unit:
  assumes "c < 65536" and "\<not> (55296 \<le> c \<and> c \<le> 56319)"
  shows "scan_escape (117 # hex4 c @ s) = Some (c, s)"
  using assms by (auto simp: scan_hex4_hex4)

lemma scan_escape_pair:
  assumes "65536 \<le> c" and "c < 1114112"
  shows "scan_escape (117 # hex4 (55296 + (c - 65536) div 1024) @
     92 # 117 # hex4 (56320 + (c - 65536) mod 1024) @ s) = Some (c, s)"
proof -
  have "(c - 65536) div 1024 < 1024" using assms by (simp add: div_less_iff_less_mult)
  then have high: "55296 + (c - 65536) div 1024 \<le> 56319" by simp
  have "(c - 65536) mod 1024 < 1024" by simp
  then have low: "56320 + (c - 65536) mod 1024 \<le> 57343" by linarith
  have "(c - 65536) div 1024 * 1024 + (c - 65536) mod 1024 = c - 65536" by (rule div_mult_mod_eq)
  then show ?thesis
    using assms high low by (simp add: scan_hex4_hex4)
qed

lemma scan_string_escape:
  assumes "c < 1114112" and "\<not> is_surrogate c"
  shows "scan_string (escape_char c @ s) =
     (case scan_string s of None \<Rightarrow> None | Some (t, r) \<Rightarrow> Some (c # t, r))"
proof -
  have unit: "scan_string (escape_unit c @ s) =
      (case scan_string s of None \<Rightarrow> None | Some (t, r) \<Rightarrow> Some (c # t, r))" if "c < 65536"
  proof -
    have "scan_escape (117 # hex4 c @ s) = Some (c, s)"
      using that assms(2) by (intro scan_escape_unit) (auto simp: is_surrogate_def)
    then show ?thesis by (simp add: escape_unit_def del: scan_escape.simps)
  qed
  have pair: "scan_string (escape_unit (55296 + (c - 65536) div 1024) @
        escape_unit (56320 + (c - 65536) mod 1024) @ s) =
      (case scan_string s of None \<Rightarrow> None | Some (t, r) \<Rightarrow> Some (c # t, r))" if "65536 \<le> c"
    using scan_escape_pair [OF that assms(1), of s]
    by (simp add: escape_unit_def del: scan_escape.simps)
  show ?thesis
    unfolding escape_char_def using unit pair by (simp split: if_split)  auto
qed

lemma scan_string_emit:
  "text_ok t \<Longrightarrow> scan_string (concat (map escape_char t) @ 34 # s) = Some (t, s)"
  by (induction t) (simp_all add: text_ok_def scan_string_escape)

subsection \<open>Integers\<close>

definition delimited :: "ustr \<Rightarrow> bool" where
  "delimited s \<longleftrightarrow> s = [] \<or> hd s = 44 \<or> hd s = 93 \<or> hd s = 125"

lemma of_char_digit: "d < 10 \<Longrightarrow> (of_char (digit_char d) :: nat) = 48 + d"
  by (simp add: digit_char_def)

lemma nat_dec_digits: "\<forall>c \<in> set (lit (nat_dec n)). is_digit c"
proof (induction n rule: nat_dec.induct)
  case (1 n)
  then show ?case
    by (subst nat_dec.simps) (auto simp: lit_def of_char_digit is_digit_def)
qed

lemma dec_value_snoc: "dec_value (ds @ [d]) = 10 * dec_value ds + (d - 48)"
  by (simp add: dec_value_def)

lemma dec_value_nat_dec: "dec_value (lit (nat_dec n)) = n"
proof (induction n rule: nat_dec.induct)
  case (1 n)
  show ?case
  proof (cases "n < 10")
    case True
    then show ?thesis by (subst nat_dec.simps) (simp add: lit_def of_char_digit dec_value_def)
  next
    case False
    then have "lit (nat_dec n) = lit (nat_dec (n div 10)) @ [48 + n mod 10]"
      by (subst nat_dec.simps) (simp add: lit_def of_char_digit)
    with 1 False show ?thesis by (simp add: dec_value_snoc)
  qed
qed

lemma nat_dec_first:
  "\<exists>c cs. lit (nat_dec n) = c # cs \<and> is_digit c \<and> (c = 48 \<longrightarrow> cs = [])"
proof (induction n rule: nat_dec.induct)
  case (1 n)
  show ?case
  proof (cases "n < 10")
    case True
    then show ?thesis by (subst nat_dec.simps) (simp add: lit_def of_char_digit is_digit_def)
  next
    case False
    then have n: "lit (nat_dec n) = lit (nat_dec (n div 10)) @ [48 + n mod 10]"
      by (subst nat_dec.simps) (simp add: lit_def of_char_digit)
    obtain c cs where c: "lit (nat_dec (n div 10)) = c # cs" "is_digit c" "c = 48 \<longrightarrow> cs = []"
      using 1 False by blast
    have "c \<noteq> 48"
    proof
      assume "c = 48"
      then have "n div 10 = 0" using c dec_value_nat_dec [of "n div 10"] by (simp add: dec_value_def)
      with False show False by simp
    qed
    with n c show ?thesis by simp
  qed
qed

lemma scan_integer_part_dec:
  assumes "s = [] \<or> \<not> is_digit (hd s)"
  shows "scan_integer_part (lit (nat_dec n) @ s) = Some (lit (nat_dec n), s)"
proof -
  obtain c cs where c: "lit (nat_dec n) = c # cs" "is_digit c" "c = 48 \<longrightarrow> cs = []"
    using nat_dec_first by blast
  have "takeWhile is_digit (lit (nat_dec n) @ s) = lit (nat_dec n)"
    "dropWhile is_digit (lit (nat_dec n) @ s) = s"
    using nat_dec_digits [of n] assms by (cases s; simp add: takeWhile_append dropWhile_append)+
  then show ?thesis using c by (auto simp: scan_integer_part_def)
qed

lemma delimited_no_tail: "delimited s \<Longrightarrow> scan_fraction s = ([], s) \<and> scan_exponent s = ([], s)"
  by (cases s) (auto simp: delimited_def scan_fraction_def scan_exponent_def split: prod.splits)

lemma scan_number_emit:
  assumes "delimited s" and "length (nat_dec (nat \<bar>n\<bar>)) \<le> MAX_INT_DIGITS"
  shows "scan_number (emit_int n @ s) = Inr (JInt n, s)"
proof -
  have "s = [] \<or> \<not> is_digit (hd s)" using assms(1) by (auto simp: delimited_def is_digit_def)
  note part = scan_integer_part_dec [OF this]
  obtain c cs where c: "lit (nat_dec (nat \<bar>n\<bar>)) = c # cs" "is_digit c" using nat_dec_first by blast
  have "c \<noteq> 45" using c(2) by (simp add: is_digit_def)
  have tail: "scan_fraction s = ([], s)" "scan_exponent s = ([], s)"
    using delimited_no_tail [OF assms(1)] by simp_all
  show ?thesis
  proof (cases "n < 0")
    case True
    then show ?thesis
      using part [of "nat \<bar>n\<bar>"] tail assms(2)
      by (simp add: scan_number_def emit_int_def Let_def dec_value_nat_dec not_less)
  next
    case False
    then have "emit_int n @ s = lit (nat_dec (nat \<bar>n\<bar>)) @ s" "hd (emit_int n @ s) \<noteq> 45"
      using c \<open>c \<noteq> 45\<close> by (simp_all add: emit_int_def)
    then show ?thesis
      using part [of "nat \<bar>n\<bar>"] tail assms(2) False
      by (simp add: scan_number_def Let_def dec_value_nat_dec not_less)
  qed
qed

subsection \<open>Values\<close>

lemma emit_int_first:
  "\<exists>c cs. emit_int n = c # cs \<and> (c = 45 \<and> cs \<noteq> [] \<and> is_digit (hd cs) \<or> is_digit c)"
proof -
  obtain c cs where "lit (nat_dec (nat \<bar>n\<bar>)) = c # cs" "is_digit c" using nat_dec_first by blast
  then show ?thesis by (auto simp: emit_int_def)
qed

lemma emit_first:
  assumes "json_wf v"
  shows "\<exists>c cs. emit v = c # cs \<and> \<not> is_blank c \<and> c \<noteq> 93"
proof (cases v)
  case (JInt n)
  then show ?thesis using emit_int_first [of n] by (auto simp: is_blank_def is_digit_def)
next
  case (JBool b)
  then show ?thesis by (cases b) (auto simp: lit_def is_blank_def)
qed (use assms in \<open>auto simp: lit_def is_blank_def emit_string_def\<close>)

lemma emit_skip [simp]: "json_wf v \<Longrightarrow> skip_blanks (emit v @ s) = emit v @ s"
  using emit_first [of v] by (auto simp: skip_blanks_def)

lemma scan_once_int:
  assumes "delimited s" and "length (nat_dec (nat \<bar>n\<bar>)) \<le> MAX_INT_DIGITS"
  shows "scan_once (Suc k) (emit_int n @ s) = Inr (JInt n, s)"
proof -
  obtain c cs where c: "emit_int n = c # cs" "c = 45 \<and> cs \<noteq> [] \<and> is_digit (hd cs) \<or> is_digit c"
    using emit_int_first by blast
  have "scan_constant (emit_int n @ s) = None"
  proof -
    obtain d ds where "cs = d # ds \<or> cs = []" by (cases cs) auto
    with c show ?thesis by (auto simp: scan_constant_def lit_def is_digit_def)
  qed
  moreover have "c \<notin> {34, 123, 91}" using c(2) by (auto simp: is_digit_def)
  ultimately show ?thesis using scan_number_emit [OF assms] c(1) by simp
qed

lemma join_commas_Cons: "xs \<noteq> [] \<Longrightarrow> join_commas (x # xs) = x @ [44] @ join_commas xs"
  by (cases xs) simp_all

lemma scan_elements_emit:
  assumes "vs \<noteq> []" and "\<forall>v \<in> set vs. json_wf v"
    and "\<And>v n s. v \<in> set vs \<Longrightarrow> 2 * length (emit v) < n \<Longrightarrow> delimited s \<Longrightarrow>
      scan_once n (emit v @ s) = Inr (v, s)"
    and "2 * length (join_commas (map emit vs)) + 1 < n"
  shows "scan_elements n (join_commas (map emit vs) @ 93 # s) = Inr (vs, s)"
  using assms
proof (induction vs arbitrary: n)
  case (Cons v vs)
  obtain m where n: "n = Suc m" using Cons.prems(4) by (cases n) auto
  show ?case
  proof (cases "vs = []")
    case True
    have "scan_once m (emit v @ 93 # s) = Inr (v, 93 # s)"
      using Cons.prems n True by (intro Cons.prems(3)) (simp_all add: delimited_def)
    then show ?thesis using n True by (simp add: skip_blanks_def is_blank_def)
  next
    case False
    let ?rest = "join_commas (map emit vs) @ 93 # s"
    have j: "join_commas (map emit (v # vs)) = emit v @ [44] @ join_commas (map emit vs)"
      using False by (simp add: join_commas_Cons)
    have "scan_once m (emit v @ 44 # ?rest) = Inr (v, 44 # ?rest)"
      using Cons.prems(4) n j by (intro Cons.prems(3)) (simp_all add: delimited_def)
    moreover have "scan_elements m ?rest = Inr (vs, s)"
      using Cons.prems n j False by (intro Cons.IH) auto
    moreover have "skip_blanks ?rest = ?rest"
    proof -
      obtain w ws where "vs = w # ws" using False by (cases vs) auto
      then have "\<exists>t. ?rest = emit w @ t" by (cases ws) auto
      then show ?thesis using Cons.prems(2) \<open>vs = w # ws\<close> by auto
    qed
    ultimately show ?thesis using n j by (simp add: skip_blanks_def [of "44 # _"] is_blank_def)
  qed
qed simp

definition emit_member :: "ustr \<times> json \<Rightarrow> ustr" where
  "emit_member kv = emit_string (fst kv) @ [58] @ emit (snd kv)"

lemma update_new: "k \<notin> fst ` set acc \<Longrightarrow> AList.update k v acc = acc @ [(k, v)]"
  by (induction acc) auto

lemma scan_members_emit:
  assumes "kvs \<noteq> []" and "\<forall>kv \<in> set kvs. text_ok (fst kv) \<and> json_wf (snd kv)"
    and "distinct (map fst (acc @ kvs))"
    and "\<And>kv n s. kv \<in> set kvs \<Longrightarrow> 2 * length (emit (snd kv)) < n \<Longrightarrow> delimited s \<Longrightarrow>
      scan_once n (emit (snd kv) @ s) = Inr (snd kv, s)"
    and "2 * length (join_commas (map emit_member kvs)) + 1 < n"
  shows "scan_members n acc (join_commas (map emit_member kvs) @ 125 # s) = Inr (acc @ kvs, s)"
  using assms
proof (induction kvs arbitrary: n acc)
  case (Cons kv kvs)
  obtain k v where kv: "kv = (k, v)" by (cases kv)
  obtain m where n: "n = Suc m" using Cons.prems(5) by (cases n) auto
  have ok: "text_ok k" "json_wf v" using Cons.prems(2) kv by auto
  have update: "AList.update k v acc = acc @ [(k, v)]"
    using Cons.prems(3) kv by (intro update_new) auto
  have head: "scan_members n acc (emit_member kv @ d # t) =
      (if d = 125 then Inr (acc @ [(k, v)], t)
       else scan_members m (acc @ [(k, v)]) (skip_blanks t))"
    if "2 * length (emit v) < m" and "d = 125 \<or> d = 44" for d t
  proof -
    have "scan_once m (emit v @ d # t) = Inr (v, d # t)"
      using Cons.prems(4) [of kv m "d # t"] that kv by (auto simp: delimited_def)
    moreover have "scan_string (concat (map escape_char k) @ 34 # 58 # emit v @ d # t) =
        Some (k, 58 # emit v @ d # t)" using ok by (simp add: scan_string_emit)
    ultimately show ?thesis
      using that ok n update kv
      by (auto simp: emit_member_def emit_string_def skip_blanks_def [of "58 # _"] skip_blanks_def [of "d # _"]
          is_blank_def)
  qed
  show ?case
  proof (cases "kvs = []")
    case True
    then show ?thesis
      using head [of 125 s] Cons.prems(5) n kv by (simp add: emit_member_def)
  next
    case False
    let ?rest = "join_commas (map emit_member kvs) @ 125 # s"
    have j: "join_commas (map emit_member (kv # kvs)) = emit_member kv @ [44] @ join_commas (map emit_member kvs)"
      using False by (simp add: join_commas_Cons)
    have "scan_members m (acc @ [(k, v)]) ?rest = Inr ((acc @ [(k, v)]) @ kvs, s)"
      using Cons.prems n j False kv by (intro Cons.IH) auto
    moreover have "skip_blanks ?rest = ?rest"
    proof -
      obtain w ws where "kvs = w # ws" using False by (cases kvs) auto
      then have "\<exists>t. ?rest = 34 # t" by (cases ws) (auto simp: emit_member_def emit_string_def)
      then show ?thesis by (auto simp: skip_blanks_def is_blank_def)
    qed
    moreover have "length (emit v) < length (join_commas (map emit_member (kv # kvs)))"
      unfolding j by (simp add: emit_member_def kv)
    then have "2 * length (emit v) < m" using Cons.prems(5) n by linarith
    ultimately show ?thesis using head [of 44 ?rest] j kv by simp
  qed
qed simp

lemma emit_obj:
  assumes "sorted_wrt (<) (map fst kvs)"
  shows "emit (JObj kvs) = [123] @ join_commas (map emit_member kvs) @ [125]"
proof -
  have "sorted (map fst kvs)" using assms strict_sorted_iff by blast
  then have "sort_key fst kvs = kvs" by (rule sort_key_id_if_sorted)
  then show ?thesis by (simp add: emit_member_def [abs_def])
qed

lemma scan_once_emit:
  "json_wf v \<Longrightarrow> json_ints_ok v \<Longrightarrow> 2 * length (emit v) < n \<Longrightarrow> delimited s \<Longrightarrow>
     scan_once n (emit v @ s) = Inr (v, s)"
proof (induction v arbitrary: n s)
  case JNull
  then show ?case by (cases n) (simp_all add: lit_def scan_constant_def)
next
  case (JBool b)
  then show ?case by (cases n; cases b) (simp_all add: lit_def scan_constant_def)
next
  case (JInt k)
  then show ?case using scan_once_int by (cases n) auto
next
  case (JStr t)
  then show ?case by (cases n) (simp_all add: emit_string_def scan_string_emit)
next
  case (JArr vs)
  obtain m where n: "n = Suc m" using JArr.prems(3) by (cases n) auto
  show ?case
  proof (cases "vs = []")
    case True
    then show ?thesis using n by (simp add: skip_blanks_def is_blank_def)
  next
    case False
    have "scan_elements m (join_commas (map emit vs) @ 93 # s) = Inr (vs, s)"
      using False JArr n by (intro scan_elements_emit) (auto simp: list_all_iff)
    moreover obtain c cs where "join_commas (map emit vs) = c # cs" "\<not> is_blank c" "c \<noteq> 93"
    proof -
      obtain w ws where w: "vs = w # ws" using False by (cases vs) auto
      then obtain c cs where "emit w = c # cs" "\<not> is_blank c" "c \<noteq> 93"
        using emit_first [of w] JArr.prems(1) by auto
      with w show ?thesis by (cases ws) (auto intro: that)
    qed
    ultimately show ?thesis using n by (simp add: skip_blanks_def)
  qed
next
  case (JObj kvs)
  obtain m where n: "n = Suc m" using JObj.prems(3) by (cases n) auto
  have e: "emit (JObj kvs) = [123] @ join_commas (map emit_member kvs) @ [125]"
    using JObj.prems(1) by (intro emit_obj) simp
  show ?case
  proof (cases "kvs = []")
    case True
    then show ?thesis using n by (simp add: skip_blanks_def is_blank_def)
  next
    case False
    have "distinct (map fst kvs)" using JObj.prems(1) strict_sorted_iff by auto
    then have "scan_members m [] (join_commas (map emit_member kvs) @ 125 # s) = Inr ([] @ kvs, s)"
      using False JObj.prems n e
      by (intro scan_members_emit JObj.IH) (auto simp: list_all_iff snds.simps)
    moreover obtain t where "join_commas (map emit_member kvs) = 34 # t"
    proof -
      obtain w ws where "kvs = w # ws" using False by (cases kvs) auto
      then show ?thesis by (cases ws) (auto simp: emit_member_def emit_string_def intro: that)
    qed
    ultimately show ?thesis using n e by (simp add: skip_blanks_def is_blank_def del: emit.simps)
  qed
qed simp

lemma json_loads_emit:
  assumes "json_wf v" and "json_ints_ok v"
  shows "json_loads (emit v) = Inr v"
proof -
  have "scan_once (2 * length (emit v) + 2) (emit v) = Inr (v, [])"
    using scan_once_emit [OF assms, of "2 * length (emit v) + 2" "[]"] by (simp add: delimited_def)
  moreover have "skip_blanks (emit v) = emit v" using emit_skip [OF assms(1), of "[]"] by simp
  moreover have "hd (emit v) \<noteq> 65279" if "emit v \<noteq> []"
  proof (cases v)
    case (JInt n)
    then show ?thesis using emit_int_first [of n] by (auto simp: is_digit_def)
  next
    case (JBool b)
    then show ?thesis by (cases b) (simp_all add: lit_def)
  qed (use assms(1) in \<open>auto simp: lit_def emit_string_def\<close>)
  ultimately show ?thesis by (auto simp: json_loads_def skip_blanks_def [of "[]"] simp del: scan_once.simps)
qed

text \<open>The printed text is printable ASCII, so \<open>.encode("ascii")\<close> never raises and is the identity here.\<close>

abbreviation printable :: "nat \<Rightarrow> bool" where
  "printable c \<equiv> 32 \<le> c \<and> c \<le> 126"

lemma hex_digit_printable: "d < 16 \<Longrightarrow> printable (hex_digit d)"
  by (auto simp: hex_digit_def)

lemma escape_char_printable: "c < 1114112 \<Longrightarrow> d \<in> set (escape_char c) \<Longrightarrow> printable d"
  by (auto simp: escape_char_def escape_unit_def hex4_def hex_digit_printable split: if_splits)

lemma emit_string_printable: "text_ok t \<Longrightarrow> d \<in> set (emit_string t) \<Longrightarrow> printable d"
  by (auto simp: emit_string_def text_ok_def dest!: escape_char_printable)

lemma join_commas_printable:
  "\<forall>x \<in> set xs. \<forall>d \<in> set x. printable d \<Longrightarrow> d \<in> set (join_commas xs) \<Longrightarrow> printable d"
  by (induction xs rule: join_commas.induct) auto

lemma emit_printable: "json_wf v \<Longrightarrow> d \<in> set (emit v) \<Longrightarrow> printable d"
proof (induction v arbitrary: d rule: emit.induct)
  case (3 n)
  have "printable c" if "c \<in> set (lit (nat_dec k))" for c k
    using nat_dec_digits [of k] that by (fastforce simp: is_digit_def)
  with 3 show ?case by (auto simp: emit_int_def split: if_splits)
next
  case (5 t)
  then show ?case using emit_string_printable by simp
next
  case (6 vs)
  then have "d = 91 \<or> d = 93 \<or> d \<in> set (join_commas (map emit vs))" by auto
  then show ?case
    using 6 join_commas_printable [of "map emit vs" d] by (auto simp: list_all_iff)
next
  case (7 kvs)
  let ?xs = "map (\<lambda>kv. emit_string (fst kv) @ [58] @ emit (snd kv)) (sort_key fst kvs)"
  have "\<forall>x \<in> set ?xs. \<forall>d \<in> set x. printable d"
    using 7 emit_string_printable by (auto simp: list_all_iff)
  moreover have "d = 123 \<or> d = 125 \<or> d \<in> set (join_commas ?xs)" using 7(3) by auto
  ultimately show ?case using join_commas_printable [of ?xs d] by auto
qed (auto simp: lit_def split: if_splits)

end
