(* ===== verification/Sha256.thy ===== *)
theory Sha256
  imports Prelude "HOL-Library.Word"
begin

text \<open>
  The SHA-256 digest of \<open>hashlib.sha256\<close> (FIPS 180-4), on 32-bit words whose addition wraps: padding to
  whole 64-byte blocks, the 64-word message schedule, 64 rounds per block. Messages are far below the
  standard's bound of two to the 61 bytes, so the length field never wraps.
\<close>

unbundle bit_operations_syntax

section \<open>Word functions\<close>

definition big_sigma0 :: "32 word \<Rightarrow> 32 word" where
  "big_sigma0 x = word_rotr 2 x XOR word_rotr 13 x XOR word_rotr 22 x"

definition big_sigma1 :: "32 word \<Rightarrow> 32 word" where
  "big_sigma1 x = word_rotr 6 x XOR word_rotr 11 x XOR word_rotr 25 x"

definition small_sigma0 :: "32 word \<Rightarrow> 32 word" where
  "small_sigma0 x = word_rotr 7 x XOR word_rotr 18 x XOR drop_bit 3 x"

definition small_sigma1 :: "32 word \<Rightarrow> 32 word" where
  "small_sigma1 x = word_rotr 17 x XOR word_rotr 19 x XOR drop_bit 10 x"

definition choose_bits :: "32 word \<Rightarrow> 32 word \<Rightarrow> 32 word \<Rightarrow> 32 word" where
  "choose_bits x y z = (x AND y) XOR (NOT x AND z)"

definition majority :: "32 word \<Rightarrow> 32 word \<Rightarrow> 32 word \<Rightarrow> 32 word" where
  "majority x y z = (x AND y) XOR (x AND z) XOR (y AND z)"

section \<open>Constants\<close>

text \<open>
  The standard defines its constants rather than choosing them: a round constant is the first 32 bits of the
  fractional part of the cube root of a prime, an initial hash word those of a square root. They are
  computed here as integer roots (\<open>integer_root_exact\<close>), scaled by two to the 32; the conversion to a word
  drops the integer part.
\<close>

definition primes_below :: "nat \<Rightarrow> nat list" where
  "primes_below n = filter (\<lambda>p. list_all (\<lambda>d. p mod d \<noteq> 0) [2..<p]) [2..<n]"

definition integer_root :: "nat \<Rightarrow> nat \<Rightarrow> nat \<Rightarrow> nat" where
  "integer_root k bits n = fold (\<lambda>b r. if (r + 2 ^ b) ^ k \<le> n then r + 2 ^ b else r) (rev [0..<bits]) 0"

definition round_constants :: "32 word list" where
  "round_constants = map (\<lambda>p. of_nat (integer_root 3 35 (p * 2 ^ 96))) (primes_below 312)"

definition initial_hash :: "32 word list" where
  "initial_hash = map (\<lambda>p. of_nat (integer_root 2 35 (p * 2 ^ 64))) (primes_below 20)"

section \<open>Padding and parsing\<close>

definition be_bytes :: "nat \<Rightarrow> nat \<Rightarrow> bytes" where
  "be_bytes k n = map (\<lambda>i. n div 256 ^ (k - 1 - i) mod 256) [0..<k]"

definition be_value :: "bytes \<Rightarrow> nat" where
  "be_value bs = foldl (\<lambda>n b. 256 * n + b) 0 bs"

definition pad_message :: "bytes \<Rightarrow> bytes" where
  "pad_message m =
     m @ [128] @ replicate ((119 - length m mod 64) mod 64) 0 @ be_bytes 8 (8 * length m)"

function chunks :: "nat \<Rightarrow> 'a list \<Rightarrow> 'a list list" where
  "chunks k xs = (if xs = [] \<or> k = 0 then [] else take k xs # chunks k (drop k xs))"
  by pat_completeness auto
termination
  by (relation "measure (\<lambda>(k, xs). length xs)") auto

declare chunks.simps [simp del]

section \<open>The digest\<close>

definition message_schedule :: "bytes \<Rightarrow> 32 word list" where
  "message_schedule block =
     fold (\<lambda>t w. w @ [small_sigma1 (w ! (t - 2)) + w ! (t - 7) + small_sigma0 (w ! (t - 15)) + w ! (t - 16)])
       [16..<64] (map (\<lambda>bs. of_nat (be_value bs)) (chunks 4 block))"

fun sha_round :: "32 word \<times> 32 word \<Rightarrow> 32 word list \<Rightarrow> 32 word list" where
  "sha_round (k, w) [a, b, c, d, e, f, g, h] =
     (let t1 = h + big_sigma1 e + choose_bits e f g + k + w;
          t2 = big_sigma0 a + majority a b c
      in [t1 + t2, a, b, c, d + t1, e, f, g])"
| "sha_round _ s = s"

definition compress :: "bytes \<Rightarrow> 32 word list \<Rightarrow> 32 word list" where
  "compress block hash =
     map2 (+) (fold sha_round (zip round_constants (message_schedule block)) hash) hash"

definition sha256 :: "bytes \<Rightarrow> bytes" where
  "sha256 m = concat (map (\<lambda>w. be_bytes 4 (unat w)) (fold compress (chunks 64 (pad_message m)) initial_hash))"

section \<open>Shape of the digest\<close>

lemma sha_round_length [simp]: "length (sha_round kw s) = length s"
  by (cases "(kw, s)" rule: sha_round.cases) (simp_all add: Let_def)

lemma fold_round_length: "length (fold sha_round kws s) = length s"
  by (induction kws arbitrary: s) simp_all

lemma compress_length [simp]: "length (compress b hash) = length hash"
  by (simp add: compress_def fold_round_length)

lemma fold_compress_length: "length (fold compress bs hash) = length hash"
  by (induction bs arbitrary: hash) simp_all

lemma integer_root_step:
  fixes r n :: nat
  assumes "r ^ k \<le> n" "n < (r + 2 ^ Suc b) ^ k"
  shows "(if (r + 2 ^ b) ^ k \<le> n then r + 2 ^ b else r) ^ k \<le> n \<and>
    n < ((if (r + 2 ^ b) ^ k \<le> n then r + 2 ^ b else r) + 2 ^ b) ^ k"
  using assms by (simp add: add.assoc flip: mult_2)

lemma integer_root_exact:
  assumes "0 < k" "n < (2 ^ bits) ^ k"
  shows "integer_root k bits n ^ k \<le> n \<and> n < (integer_root k bits n + 1) ^ k"
proof -
  have "r ^ k \<le> n \<Longrightarrow> n < (r + 2 ^ bits) ^ k \<Longrightarrow>
      (let q = fold (\<lambda>b r. if (r + 2 ^ b) ^ k \<le> n then r + 2 ^ b else r) (rev [0..<bits]) r
       in q ^ k \<le> n \<and> n < (q + 1) ^ k)" for r
  proof (induction bits arbitrary: r)
    case (Suc b)
    show ?case using Suc.IH integer_root_step [OF Suc.prems] by simp
  qed simp
  from this [of 0] show ?thesis using assms by (simp add: integer_root_def Let_def zero_power)
qed

lemma initial_hash_length: "length initial_hash = 8"
proof -
  have "primes_below 20 = [2, 3, 5, 7, 11, 13, 17, 19]" by code_simp
  then show ?thesis by (simp add: initial_hash_def)
qed

lemma sha256_length: "length (sha256 m) = 32"
proof -
  define ws where "ws = fold compress (chunks 64 (pad_message m)) initial_hash"
  have "length ws = 8" by (simp add: ws_def fold_compress_length initial_hash_length)
  moreover have "length (concat (map (\<lambda>w. be_bytes 4 (unat w)) ws)) = 4 * length ws"
    by (induction ws) (simp_all add: be_bytes_def)
  ultimately show ?thesis by (simp add: sha256_def ws_def)
qed

lemma sha256_bytes: "b \<in> set (sha256 m) \<Longrightarrow> b < 256"
  by (auto simp: sha256_def be_bytes_def)

end
