(* ===== verification/Universe.thy ===== *)
theory Universe
  imports Json Sha256 "HOL-Library.Multiset"
begin

text \<open>
  The ticker universe of \<open>python/research/aegis_mx_research/forecast_contracts.py\<close>: symbols, resolvers,
  entries, snapshots, the parser of the ticker file and the canonical JSON encoding with its digest.

  A resolver is a function from a symbol to a resolution (or its exception, whose type is a parameter); the
  locale \<open>universe_resolver\<close> states its contract and is interpreted on the resolvers of the repository.
  Python's Unicode character database is a parameter (\<open>unicode_db\<close>): it matters only for identifiers
  written with non-ASCII digits, which the decoder refuses in the end.
\<close>

section \<open>Errors and limits\<close>

datatype universe_error_code =
    INVALID_ENCODING | SOURCE_TOO_LARGE | EMPTY_UNIVERSE | SYMBOL_TOO_LONG | MALFORMED_SYMBOL
  | AMBIGUOUS_SYMBOL | DUPLICATE_SYMBOL | INVALID_RESOLUTION | AMBIGUOUS_INSTRUMENT | INVALID_SNAPSHOT
  | HASH_MISMATCH | IO_ERROR

text \<open>
  \<open>ResolverError\<close> is an exception raised by the injected resolver; \<open>PlainValueError\<close> is a \<open>ValueError\<close> of
  the interpreter that carries no universe code.
\<close>

datatype 'e universe_error =
    UniverseContractError (universe_code: universe_error_code) (universe_detail: ustr) (line_number: "nat option")
  | ResolverError 'e
  | PlainValueError

definition universe_error :: "universe_error_code \<Rightarrow> string \<Rightarrow> 'e universe_error" where
  "universe_error code detail = UniverseContractError code (lit detail) None"

definition MAX_UNIVERSE_BYTES :: nat where "MAX_UNIVERSE_BYTES = 2 ^ 20"
definition MAX_UNIVERSE_SYMBOLS :: nat where "MAX_UNIVERSE_SYMBOLS = 10000"
definition MAX_UNIVERSE_SNAPSHOT_BYTES :: nat where "MAX_UNIVERSE_SNAPSHOT_BYTES = 8 * 2 ^ 20"
definition MAX_SYMBOL_BYTES :: nat where "MAX_SYMBOL_BYTES = 16"
definition SHA256_HEX_LENGTH :: nat where "SHA256_HEX_LENGTH = 64"
definition IDENTIFIER_HEX_LENGTH :: nat where "IDENTIFIER_HEX_LENGTH = 32"
definition UNIVERSE_SCHEMA_VERSION :: ustr where "UNIVERSE_SCHEMA_VERSION = lit ''1.0.0''"
definition TICKER_UNIVERSE_PATH :: ustr where
  "TICKER_UNIVERSE_PATH = lit ''/scratch/djy8hg/xtrade/ticker.txt''"

section \<open>Resolutions\<close>

datatype instrument_resolution_code =
    RESOLVED | UNSUPPORTED | RECENTLY_LISTED | AMBIGUOUS_REFERENCE | MISSING_REFERENCE_DATA | DELISTED

fun resolution_code_value :: "instrument_resolution_code \<Rightarrow> int" where
  "resolution_code_value RESOLVED = 1"
| "resolution_code_value UNSUPPORTED = 2"
| "resolution_code_value RECENTLY_LISTED = 3"
| "resolution_code_value AMBIGUOUS_REFERENCE = 4"
| "resolution_code_value MISSING_REFERENCE_DATA = 5"
| "resolution_code_value DELISTED = 6"

text \<open>\<open>InstrumentResolutionCode(n)\<close>: the member with that value, or a \<open>ValueError\<close>.\<close>

definition resolution_code_of :: "int \<Rightarrow> instrument_resolution_code option" where
  "resolution_code_of n = find (\<lambda>c. resolution_code_value c = n)
     [RESOLVED, UNSUPPORTED, RECENTLY_LISTED, AMBIGUOUS_REFERENCE, MISSING_REFERENCE_DATA, DELISTED]"

record instrument_resolution =
  ir_code :: instrument_resolution_code
  ir_instrument_id :: "identifier128 option"

definition instrument_resolution_post_init :: "instrument_resolution \<Rightarrow> 'e universe_error option" where
  "instrument_resolution_post_init r =
     raise_if ((ir_code r = RESOLVED) \<noteq> (ir_instrument_id r \<noteq> None))
       (universe_error INVALID_RESOLUTION ''resolved state and instrument identity disagree'')"

definition unresolved_resolve :: "ustr \<Rightarrow> 'e universe_error + instrument_resolution" where
  "unresolved_resolve symbol = construct instrument_resolution_post_init
     \<lparr>ir_code = MISSING_REFERENCE_DATA, ir_instrument_id = None\<rparr>"

record static_resolver =
  sr_resolved :: "ustr \<rightharpoonup> identifier128"
  sr_unresolved :: "ustr \<rightharpoonup> instrument_resolution_code"

definition static_resolver_init ::
    "(ustr \<rightharpoonup> identifier128) \<Rightarrow> (ustr \<rightharpoonup> instrument_resolution_code) option \<Rightarrow>
     'e universe_error + static_resolver" where
  "static_resolver_init resolved unresolved =
     (let codes = (case unresolved of None \<Rightarrow> Map.empty | Some m \<Rightarrow> m)
      in if dom resolved \<inter> dom codes \<noteq> {}
         then Inl (universe_error INVALID_RESOLUTION ''a symbol cannot be both resolved and unresolved'')
         else if RESOLVED \<in> ran codes
         then Inl (universe_error INVALID_RESOLUTION ''unresolved mapping cannot use RESOLVED'')
         else Inr \<lparr>sr_resolved = resolved, sr_unresolved = codes\<rparr>)"

definition static_resolve :: "static_resolver \<Rightarrow> ustr \<Rightarrow> 'e universe_error + instrument_resolution" where
  "static_resolve r symbol =
     (case sr_resolved r symbol of
        Some i \<Rightarrow> construct instrument_resolution_post_init
          \<lparr>ir_code = RESOLVED, ir_instrument_id = Some i\<rparr>
      | None \<Rightarrow> construct instrument_resolution_post_init
          \<lparr>ir_code = (case sr_unresolved r symbol of None \<Rightarrow> MISSING_REFERENCE_DATA | Some c \<Rightarrow> c),
           ir_instrument_id = None\<rparr>)"

section \<open>Symbols\<close>

definition is_upper :: "nat \<Rightarrow> bool" where
  "is_upper c \<longleftrightarrow> 65 \<le> c \<and> c \<le> 90"

definition is_upper_or_digit :: "nat \<Rightarrow> bool" where
  "is_upper_or_digit c \<longleftrightarrow> is_upper c \<or> is_digit c"

text \<open>
  \<open>_SYMBOL_PATTERN\<close> matched in full: a capital, capitals and digits, and at most one qualifier, a dot
  or hyphen followed by capitals and digits.
\<close>

fun symbol_pattern :: "ustr \<Rightarrow> bool" where
  "symbol_pattern [] = False"
| "symbol_pattern (c # cs) = (is_upper c \<and>
     (case dropWhile is_upper_or_digit cs of
        [] \<Rightarrow> True
      | d # ds \<Rightarrow> (d = 46 \<or> d = 45) \<and> ds \<noteq> [] \<and> list_all is_upper_or_digit ds))"

definition AMBIGUOUS_SYMBOL_CHARACTERS :: "nat set" where
  "AMBIGUOUS_SYMBOL_CHARACTERS = {32, 9, 47, 58, 44, 61, 64}"

definition validate_symbol :: "ustr \<Rightarrow> nat option \<Rightarrow> 'e universe_error option" where
  "validate_symbol symbol line = first_error
     [raise_if (\<exists>c \<in> set symbol. 128 \<le> c)
        (UniverseContractError INVALID_ENCODING (lit ''symbol is not ASCII'') line),
      raise_if (MAX_SYMBOL_BYTES < length symbol)
        (UniverseContractError SYMBOL_TOO_LONG (lit ''symbol exceeds 16 bytes'') line),
      raise_if (\<exists>c \<in> set symbol. c \<in> AMBIGUOUS_SYMBOL_CHARACTERS)
        (UniverseContractError AMBIGUOUS_SYMBOL
           (lit ''symbol contains a qualifier, delimiter, or whitespace'') line),
      raise_if (\<not> symbol_pattern symbol)
        (UniverseContractError MALFORMED_SYMBOL
           (lit ''symbol must be uppercase ASCII with at most one internal qualifier'') line)]"

section \<open>Entries and snapshots\<close>

record universe_entry =
  source_ordinal :: int
  entry_symbol :: ustr
  resolution_code :: instrument_resolution_code
  entry_instrument_id :: "identifier128 option"

definition universe_entry_post_init :: "universe_entry \<Rightarrow> 'e universe_error option" where
  "universe_entry_post_init e = first_error
     [raise_if (source_ordinal e < 0) (universe_error INVALID_SNAPSHOT ''source ordinal cannot be negative''),
      validate_symbol (entry_symbol e) None,
      instrument_resolution_post_init
        \<lparr>ir_code = resolution_code e, ir_instrument_id = entry_instrument_id e\<rparr>]"

record universe_snapshot =
  us_source_path :: ustr
  us_source_file_sha256 :: bytes
  us_ordered_entries :: "universe_entry list"
  us_canonical_symbols :: "ustr list"
  us_snapshot_sha256 :: bytes
  us_schema_version :: ustr

definition digest_size :: nat where
  "digest_size = 32"

definition universe_snapshot_post_init :: "universe_snapshot \<Rightarrow> 'e universe_error option" where
  "universe_snapshot_post_init s =
     (let symbols = map entry_symbol (us_ordered_entries s)
      in first_error
       [raise_if (us_source_path s \<noteq> TICKER_UNIVERSE_PATH)
          (universe_error INVALID_SNAPSHOT ''snapshot source path is not the authoritative ticker file''),
        raise_if (us_schema_version s \<noteq> UNIVERSE_SCHEMA_VERSION)
          (universe_error INVALID_SNAPSHOT ''unsupported universe schema version''),
        raise_if (length (us_source_file_sha256 s) \<noteq> digest_size)
          (universe_error INVALID_SNAPSHOT ''source digest is not SHA-256''),
        raise_if (length (us_snapshot_sha256 s) \<noteq> digest_size)
          (universe_error INVALID_SNAPSHOT ''snapshot digest is not SHA-256''),
        raise_if (us_ordered_entries s = [])
          (universe_error EMPTY_UNIVERSE ''snapshot contains no symbols''),
        raise_if (map source_ordinal (us_ordered_entries s) \<noteq> map int [0..<length (us_ordered_entries s)])
          (universe_error INVALID_SNAPSHOT ''source ordinals are not contiguous''),
        raise_if (card (set symbols) \<noteq> length symbols \<or> us_canonical_symbols s \<noteq> sort symbols)
          (universe_error INVALID_SNAPSHOT ''snapshot symbols are duplicated or not canonically sorted'')])"

section \<open>Parsing the ticker file\<close>

text \<open>\<open>text.split("\n")\<close> and \<open>line.removesuffix("\r")\<close>.\<close>

fun split_lines :: "ustr \<Rightarrow> ustr list" where
  "split_lines [] = [[]]"
| "split_lines (c # cs) =
     (if c = 10 then [] # split_lines cs
      else case split_lines cs of l # ls \<Rightarrow> (c # l) # ls | [] \<Rightarrow> [[c]])"

definition remove_return :: "ustr \<Rightarrow> ustr" where
  "remove_return l = (if l \<noteq> [] \<and> last l = 13 then butlast l else l)"

fun parse_lines :: "nat \<Rightarrow> ustr list \<Rightarrow> ustr list \<Rightarrow> 'e universe_error + ustr list" where
  "parse_lines n [] symbols = Inr symbols"
| "parse_lines n (raw # raws) symbols =
     (let line = remove_return raw
      in if line = [] then parse_lines (Suc n) raws symbols
         else case validate_symbol line (Some n) of
           Some e \<Rightarrow> Inl e
         | None \<Rightarrow>
             if line \<in> set symbols
             then Inl (UniverseContractError DUPLICATE_SYMBOL (lit ''duplicate symbol '' @ line) (Some n))
             else if MAX_UNIVERSE_SYMBOLS < length (symbols @ [line])
             then Inl (universe_error SOURCE_TOO_LARGE ''ticker source exceeds 10000 symbols'')
             else parse_lines (Suc n) raws (symbols @ [line]))"

definition parse_symbols :: "bytes \<Rightarrow> 'e universe_error + ustr list" where
  "parse_symbols source =
     (if MAX_UNIVERSE_BYTES < length source
      then Inl (universe_error SOURCE_TOO_LARGE ''ticker source exceeds 1048576 bytes'')
      else if \<exists>b \<in> set source. 128 \<le> b
      then Inl (universe_error INVALID_ENCODING ''ticker source is not ASCII'')
      else case parse_lines 1 (split_lines source) [] of
        Inl e \<Rightarrow> Inl e
      | Inr symbols \<Rightarrow>
          if symbols = []
          then Inl (universe_error EMPTY_UNIVERSE ''ticker source contains no non-empty symbols'')
          else Inr symbols)"

fun resolve_from ::
    "(ustr \<Rightarrow> 'e + instrument_resolution) \<Rightarrow> int \<Rightarrow> ustr list \<Rightarrow> (identifier128 \<times> ustr) list \<Rightarrow>
     'e universe_error + universe_entry list" where
  "resolve_from resolve ordinal [] resolved_ids = Inr []"
| "resolve_from resolve ordinal (symbol # symbols) resolved_ids =
     (case resolve symbol of
        Inl e \<Rightarrow> Inl (ResolverError e)
      | Inr resolution \<Rightarrow>
          let entry = \<lparr>source_ordinal = ordinal, entry_symbol = symbol,
                       resolution_code = ir_code resolution,
                       entry_instrument_id = ir_instrument_id resolution\<rparr>
          in case universe_entry_post_init entry of
               Some e \<Rightarrow> Inl e
             | None \<Rightarrow>
                 (case entry_instrument_id entry of
                    None \<Rightarrow> map_result (Cons entry) (resolve_from resolve (ordinal + 1) symbols resolved_ids)
                  | Some i \<Rightarrow>
                      (case map_of resolved_ids i of
                         Some previous \<Rightarrow> Inl (UniverseContractError AMBIGUOUS_INSTRUMENT
                           (lit ''symbols '' @ previous @ lit '' and '' @ symbol @
                            lit '' resolve to one instrument'') None)
                       | None \<Rightarrow> map_result (Cons entry)
                           (resolve_from resolve (ordinal + 1) symbols (AList.update i symbol resolved_ids)))))"

definition resolve_symbols ::
    "ustr list \<Rightarrow> (ustr \<Rightarrow> 'e + instrument_resolution) \<Rightarrow> 'e universe_error + universe_entry list" where
  "resolve_symbols symbols resolve = resolve_from resolve 0 symbols []"

section \<open>The canonical encoding\<close>

definition bytes_hex :: "bytes \<Rightarrow> ustr" where
  "bytes_hex bs = concat (map (\<lambda>b. [hex_digit (b div 16), hex_digit (b mod 16)]) bs)"

definition entry_payload :: "universe_entry \<Rightarrow> json" where
  "entry_payload e = JObj
     [(lit ''instrument_id'',
       case entry_instrument_id e of None \<Rightarrow> JNull | Some i \<Rightarrow> JStr (identifier_hex i)),
      (lit ''resolution_code'', JInt (resolution_code_value (resolution_code e))),
      (lit ''source_ordinal'', JInt (source_ordinal e)),
      (lit ''symbol'', JStr (entry_symbol e))]"

definition snapshot_payload :: "universe_snapshot \<Rightarrow> (ustr \<times> json) list" where
  "snapshot_payload s =
     [(lit ''canonical_entries'', JArr (map entry_payload (sort_key entry_symbol (us_ordered_entries s)))),
      (lit ''schema_version'', JStr (us_schema_version s)),
      (lit ''source_file_sha256'', JStr (bytes_hex (us_source_file_sha256 s))),
      (lit ''source_path'', JStr (us_source_path s))]"

definition canonical_json :: "(ustr \<times> json) list \<Rightarrow> 'e universe_error + bytes" where
  "canonical_json payload =
     (case json_dumps (JObj payload) of Inl _ \<Rightarrow> Inl PlainValueError | Inr text \<Rightarrow> Inr text)"

definition snapshot_from_entries ::
    "bytes \<Rightarrow> universe_entry list \<Rightarrow> 'e universe_error + universe_snapshot" where
  "snapshot_from_entries source_sha256 entries =
     bind_result (construct universe_snapshot_post_init
         \<lparr>us_source_path = TICKER_UNIVERSE_PATH, us_source_file_sha256 = source_sha256,
          us_ordered_entries = entries, us_canonical_symbols = sort (map entry_symbol entries),
          us_snapshot_sha256 = replicate digest_size 0, us_schema_version = UNIVERSE_SCHEMA_VERSION\<rparr>)
       (\<lambda>provisional.
         bind_result (canonical_json (snapshot_payload provisional)) (\<lambda>encoded.
           construct universe_snapshot_post_init
             \<lparr>us_source_path = us_source_path provisional, us_source_file_sha256 = source_sha256,
              us_ordered_entries = entries, us_canonical_symbols = us_canonical_symbols provisional,
              us_snapshot_sha256 = sha256 encoded, us_schema_version = UNIVERSE_SCHEMA_VERSION\<rparr>))"

definition parse_ticker_universe ::
    "bytes \<Rightarrow> (ustr \<Rightarrow> 'e + instrument_resolution) \<Rightarrow> 'e universe_error + universe_snapshot" where
  "parse_ticker_universe source resolve =
     bind_result (parse_symbols source) (\<lambda>symbols.
       bind_result (resolve_symbols symbols resolve) (\<lambda>entries.
         snapshot_from_entries (sha256 source) entries))"

text \<open>The file system is the argument: the bytes of the ticker file, or \<open>None\<close> for an \<open>OSError\<close>.\<close>

definition load_ticker_universe ::
    "bytes option \<Rightarrow> (ustr \<Rightarrow> 'e + instrument_resolution) \<Rightarrow> 'e universe_error + universe_snapshot" where
  "load_ticker_universe file resolve =
     (case file of
        None \<Rightarrow> Inl (universe_error IO_ERROR ''authoritative ticker file cannot be read'')
      | Some content \<Rightarrow> parse_ticker_universe (take (MAX_UNIVERSE_BYTES + 1) content) resolve)"

definition encode_universe_snapshot :: "universe_snapshot \<Rightarrow> 'e universe_error + bytes" where
  "encode_universe_snapshot s =
     bind_result (canonical_json (snapshot_payload s)) (\<lambda>text.
       let digest = sha256 text
       in if digest \<noteq> us_snapshot_sha256 s
          then Inl (universe_error HASH_MISMATCH ''universe snapshot changed after hashing'')
          else bind_result
            (canonical_json (AList.update (lit ''universe_snapshot_sha256'') (JStr (bytes_hex digest))
               (snapshot_payload s)))
            (\<lambda>encoded.
              if MAX_UNIVERSE_SNAPSHOT_BYTES < length encoded
              then Inl (universe_error SOURCE_TOO_LARGE ''encoded universe snapshot exceeds its bound'')
              else Inr encoded))"

section \<open>Decoding an untrusted snapshot\<close>

text \<open>
  \<open>bytes.fromhex\<close>: pairs of hexadecimal digits of either case, blanks allowed between bytes; \<open>None\<close> is
  its \<open>ValueError\<close>.
\<close>

definition is_space :: "nat \<Rightarrow> bool" where
  "is_space c \<longleftrightarrow> c = 32 \<or> 9 \<le> c \<and> c \<le> 13"

fun bytes_fromhex :: "ustr \<Rightarrow> bytes option" where
  "bytes_fromhex [] = Some []"
| "bytes_fromhex (c # cs) =
     (if is_space c then bytes_fromhex cs
      else case cs of
        [] \<Rightarrow> None
      | d # ds \<Rightarrow>
          (case (hex_value_of c, hex_value_of d) of
             (Some x, Some y) \<Rightarrow> map_option (Cons (16 * x + y)) (bytes_fromhex ds)
           | _ \<Rightarrow> None))"

text \<open>
  Python's Unicode character database, as far as it is consulted: the ASCII character \<open>int\<close> substitutes
  for a non-ASCII one (a digit, a blank, or a character no number contains), and whether \<open>str.lower\<close>
  changes a non-ASCII character.
\<close>

record unicode_db =
  ud_to_ascii :: "nat \<Rightarrow> nat"
  ud_lower_changes :: "nat \<Rightarrow> bool"

definition lower_changes :: "unicode_db \<Rightarrow> ustr \<Rightarrow> bool" where
  "lower_changes db t \<longleftrightarrow> (\<exists>c \<in> set t. if c < 128 then is_upper c else ud_lower_changes db c)"

text \<open>
  \<open>int(text, 16)\<close>: blanks around, a sign, a prefix \<open>0x\<close>, single underscores between digits; \<open>None\<close> is its
  \<open>ValueError\<close>.
\<close>

definition strip_sign :: "ustr \<Rightarrow> bool \<times> ustr" where
  "strip_sign s = (case s of c # r \<Rightarrow> if c = 45 then (True, r) else if c = 43 then (False, r) else (False, s)
     | [] \<Rightarrow> (False, s))"

fun strip_prefix :: "ustr \<Rightarrow> ustr" where
  "strip_prefix (a # b # r) =
     (if a = 48 \<and> (b = 120 \<or> b = 88) then (case r of c # r' \<Rightarrow> if c = 95 then r' else r | [] \<Rightarrow> r)
      else a # b # r)"
| "strip_prefix s = s"

fun underscores_ok :: "ustr \<Rightarrow> bool" where
  "underscores_ok [] = True"
| "underscores_ok [c] = (c \<noteq> 95)"
| "underscores_ok (c # d # s) = (\<not> (c = 95 \<and> d = 95) \<and> underscores_ok (d # s))"

definition is_hex_or_underscore :: "nat \<Rightarrow> bool" where
  "is_hex_or_underscore c \<longleftrightarrow> c = 95 \<or> hex_value_of c \<noteq> None"

definition int_base16 :: "unicode_db \<Rightarrow> ustr \<Rightarrow> int option" where
  "int_base16 db t =
     (let s = map (\<lambda>c. if c < 128 then c else ud_to_ascii db c) t;
          (negative, s1) = strip_sign (dropWhile is_space s);
          s2 = strip_prefix s1;
          body = takeWhile is_hex_or_underscore s2;
          rest = dropWhile is_hex_or_underscore s2;
          n = foldl (\<lambda>n c. case hex_value_of c of Some d \<Rightarrow> 16 * n + int d | None \<Rightarrow> n) 0 body
      in if body = [] \<or> hd body = 95 \<or> \<not> underscores_ok body \<or> \<not> list_all is_space rest then None
         else Some (if negative then - n else n))"

definition require_mapping :: "json \<Rightarrow> 'e universe_error + (ustr \<times> json) list" where
  "require_mapping v = (case v of JObj kvs \<Rightarrow> Inr kvs
     | _ \<Rightarrow> Inl (universe_error INVALID_SNAPSHOT ''snapshot value must be an object''))"

definition require_int :: "json \<Rightarrow> string \<Rightarrow> 'e universe_error + int" where
  "require_int v field = (case v of JInt n \<Rightarrow> Inr n
     | _ \<Rightarrow> Inl (universe_error INVALID_SNAPSHOT (field @ '' must be an integer'')))"

definition require_text :: "json \<Rightarrow> string \<Rightarrow> 'e universe_error + ustr" where
  "require_text v field = (case v of JStr t \<Rightarrow> Inr t
     | _ \<Rightarrow> Inl (universe_error INVALID_SNAPSHOT (field @ '' must be text'')))"

definition decode_digest :: "unicode_db \<Rightarrow> json \<Rightarrow> string \<Rightarrow> 'e universe_error + bytes" where
  "decode_digest db v field =
     bind_result (require_text v field) (\<lambda>t.
       if length t \<noteq> SHA256_HEX_LENGTH \<or> lower_changes db t
       then Inl (universe_error INVALID_SNAPSHOT (field @ '' must be lowercase SHA-256''))
       else case bytes_fromhex t of
         None \<Rightarrow> Inl (universe_error INVALID_SNAPSHOT (field @ '' must be lowercase SHA-256''))
       | Some bs \<Rightarrow> Inr bs)"

definition decode_identifier :: "unicode_db \<Rightarrow> json \<Rightarrow> 'e universe_error + identifier128 option" where
  "decode_identifier db v =
     (let malformed = universe_error INVALID_SNAPSHOT ''instrument_id must be lowercase 128-bit hexadecimal''
      in if v = JNull then Inr None
         else bind_result (require_text v ''instrument_id'') (\<lambda>t.
           if length t \<noteq> IDENTIFIER_HEX_LENGTH \<or> lower_changes db t then Inl malformed
           else case (int_base16 db (take 16 t), int_base16 db (drop 16 t)) of
             (Some high, Some low) \<Rightarrow>
               (case identifier128_post_init (Identifier128 high low) of
                  None \<Rightarrow> Inr (Some (Identifier128 high low))
                | Some _ \<Rightarrow> Inl malformed)
           | _ \<Rightarrow> Inl malformed))"

text \<open>A subscript of a dictionary whose key set was checked before.\<close>

definition field_of :: "(ustr \<times> json) list \<Rightarrow> string \<Rightarrow> json" where
  "field_of kvs k = the (map_of kvs (lit k))"

definition decode_entry :: "unicode_db \<Rightarrow> json \<Rightarrow> 'e universe_error + universe_entry" where
  "decode_entry db raw =
     bind_result (require_mapping raw) (\<lambda>entry.
       if fst ` set entry \<noteq> lit ` {''instrument_id'', ''resolution_code'', ''source_ordinal'', ''symbol''}
       then Inl (universe_error INVALID_SNAPSHOT ''universe entry fields do not match the contract'')
       else case (case field_of entry ''resolution_code'' of JInt n \<Rightarrow> resolution_code_of n | _ \<Rightarrow> None) of
         None \<Rightarrow> Inl (universe_error INVALID_SNAPSHOT ''resolution_code is unknown'')
       | Some code \<Rightarrow>
           bind_result (require_int (field_of entry ''source_ordinal'') ''source_ordinal'') (\<lambda>ordinal.
           bind_result (require_text (field_of entry ''symbol'') ''symbol'') (\<lambda>symbol.
           bind_result (decode_identifier db (field_of entry ''instrument_id'')) (\<lambda>i.
             construct universe_entry_post_init
               \<lparr>source_ordinal = ordinal, entry_symbol = symbol, resolution_code = code,
                entry_instrument_id = i\<rparr>))))"

definition decode_entries :: "unicode_db \<Rightarrow> json \<Rightarrow> 'e universe_error + universe_entry list" where
  "decode_entries db raw_entries =
     (case raw_entries of
        JArr (raw # raws) \<Rightarrow>
          if MAX_UNIVERSE_SYMBOLS < length (raw # raws)
          then Inl (universe_error SOURCE_TOO_LARGE ''snapshot contains too many entries'')
          else bind_result (map_list_result (decode_entry db) (raw # raws)) (\<lambda>entries.
            if map entry_symbol entries \<noteq> sort (map entry_symbol entries)
            then Inl (universe_error INVALID_SNAPSHOT ''canonical entries are not sorted by symbol'')
            else Inr (sort_key source_ordinal entries))
      | _ \<Rightarrow> Inl (universe_error INVALID_SNAPSHOT ''canonical_entries must be a non-empty array''))"

definition decode_snapshot_payload :: "bytes \<Rightarrow> 'e universe_error + (ustr \<times> json) list" where
  "decode_snapshot_payload encoded =
     (if encoded = [] \<or> MAX_UNIVERSE_SNAPSHOT_BYTES < length encoded
      then Inl (universe_error INVALID_SNAPSHOT ''snapshot size is invalid'')
      else if \<exists>b \<in> set encoded. 128 \<le> b
      then Inl (universe_error INVALID_SNAPSHOT ''snapshot must be ASCII JSON'')
      else case json_loads encoded of
        Inl IntDigitsError \<Rightarrow> Inl PlainValueError
      | Inl _ \<Rightarrow> Inl (universe_error INVALID_SNAPSHOT ''snapshot must be ASCII JSON'')
      | Inr v \<Rightarrow> require_mapping v)"

definition decode_universe_snapshot :: "unicode_db \<Rightarrow> bytes \<Rightarrow> 'e universe_error + universe_snapshot" where
  "decode_universe_snapshot db encoded =
     bind_result (decode_snapshot_payload encoded) (\<lambda>payload.
       if fst ` set payload \<noteq> lit ` {''canonical_entries'', ''schema_version'', ''source_file_sha256'',
            ''source_path'', ''universe_snapshot_sha256''}
       then Inl (universe_error INVALID_SNAPSHOT ''snapshot fields do not match the contract'')
       else bind_result (require_text (field_of payload ''schema_version'') ''schema_version'') (\<lambda>version.
         if version \<noteq> UNIVERSE_SCHEMA_VERSION
         then Inl (universe_error INVALID_SNAPSHOT ''unsupported universe schema version'')
         else bind_result (require_text (field_of payload ''source_path'') ''source_path'') (\<lambda>path.
           if path \<noteq> TICKER_UNIVERSE_PATH
           then Inl (universe_error INVALID_SNAPSHOT ''snapshot source path is not authoritative'')
           else
             bind_result (decode_digest db (field_of payload ''source_file_sha256'') ''source_file_sha256'')
               (\<lambda>source_digest.
             bind_result (decode_digest db (field_of payload ''universe_snapshot_sha256'')
                 ''universe_snapshot_sha256'') (\<lambda>snapshot_digest.
             bind_result (decode_entries db (field_of payload ''canonical_entries'')) (\<lambda>ordered.
             bind_result (snapshot_from_entries source_digest ordered) (\<lambda>snapshot.
               if us_snapshot_sha256 snapshot \<noteq> snapshot_digest
               then Inl (universe_error HASH_MISMATCH
                      ''universe snapshot SHA-256 does not match its content'')
               else bind_result (encode_universe_snapshot snapshot) (\<lambda>again.
                 if again \<noteq> encoded
                 then Inl (universe_error INVALID_SNAPSHOT ''snapshot is not in canonical JSON form'')
                 else Inr snapshot))))))))"

section \<open>Symbols and the ticker file\<close>

definition symbol_ok :: "ustr \<Rightarrow> bool" where
  "symbol_ok s \<longleftrightarrow> length s \<le> MAX_SYMBOL_BYTES \<and> symbol_pattern s"

lemma symbol_pattern_chars:
  assumes "symbol_pattern s" and "c \<in> set s"
  shows "is_upper_or_digit c \<or> c = 46 \<or> c = 45"
proof -
  obtain a as where s: "s = a # as" using assms(1) by (cases s) auto
  have up: "\<forall>x \<in> set (takeWhile is_upper_or_digit as). is_upper_or_digit x" by (auto dest: set_takeWhileD)
  have "\<forall>x \<in> set (dropWhile is_upper_or_digit as). is_upper_or_digit x \<or> x = 46 \<or> x = 45"
  proof (cases "dropWhile is_upper_or_digit as")
    case Nil
    show ?thesis unfolding Nil by simp
  next
    case (Cons d ds)
    with assms(1) s show ?thesis by (auto simp: list_all_iff)
  qed
  then have "\<forall>x \<in> set as. is_upper_or_digit x \<or> x = 46 \<or> x = 45"
    using up by (metis Un_iff set_append takeWhile_dropWhile_id)
  then show ?thesis using assms s by (auto simp: is_upper_or_digit_def)
qed

lemma validate_symbol_None: "validate_symbol s line = None \<longleftrightarrow> symbol_ok s"
  using symbol_pattern_chars [of s]
  by (fastforce simp: validate_symbol_def symbol_ok_def AMBIGUOUS_SYMBOL_CHARACTERS_def
      is_upper_or_digit_def is_upper_def is_digit_def)

lemma validate_symbol_ok: "symbol_ok s \<Longrightarrow> validate_symbol s line = None"
  by (simp add: validate_symbol_None)

lemma symbol_ok_text: "symbol_ok s \<Longrightarrow> text_ok s"
  using symbol_pattern_chars [of s]
  by (fastforce simp: symbol_ok_def text_ok_def is_upper_or_digit_def is_upper_def is_digit_def is_surrogate_def)

definition ticker_lines :: "bytes \<Rightarrow> ustr list" where
  "ticker_lines source = filter (\<lambda>l. l \<noteq> []) (map remove_return (split_lines source))"

lemma parse_lines_Inr:
  assumes "distinct acc" and "length acc \<le> MAX_UNIVERSE_SYMBOLS"
  shows "parse_lines n raws acc = Inr symbols \<longleftrightarrow>
     symbols = acc @ filter (\<lambda>l. l \<noteq> []) (map remove_return raws) \<and>
     (\<forall>l \<in> set (map remove_return raws). l = [] \<or> symbol_ok l) \<and> distinct symbols \<and>
     length symbols \<le> MAX_UNIVERSE_SYMBOLS"
  using assms
proof (induction raws arbitrary: n acc)
  case (Cons raw raws)
  let ?l = "remove_return raw"
  show ?case
  proof (cases "?l = []")
    case True
    then show ?thesis using Cons.IH [OF Cons.prems, of "Suc n"] by simp
  next
    case False
    show ?thesis
    proof (cases "symbol_ok ?l \<and> ?l \<notin> set acc \<and> length acc < MAX_UNIVERSE_SYMBOLS")
      case True
      then have step: "parse_lines n (raw # raws) acc = parse_lines (Suc n) raws (acc @ [?l])"
        using False by (simp add: Let_def validate_symbol_ok)
      have "distinct (acc @ [?l])" "length (acc @ [?l]) \<le> MAX_UNIVERSE_SYMBOLS"
        using True Cons.prems by auto
      then show ?thesis
        unfolding step by (subst Cons.IH) (use True False in auto)
    next
      case bad: False
      then have "parse_lines n (raw # raws) acc \<noteq> Inr symbols"
        using False by (auto simp: Let_def validate_symbol_None split: option.splits)
      moreover have "\<not> (symbols = acc @ filter (\<lambda>l. l \<noteq> []) (map remove_return (raw # raws)) \<and>
          (\<forall>l \<in> set (map remove_return (raw # raws)). l = [] \<or> symbol_ok l) \<and> distinct symbols \<and>
          length symbols \<le> MAX_UNIVERSE_SYMBOLS)"
        using False bad by auto
      ultimately show ?thesis by blast
    qed
  qed
qed auto

lemma parse_symbols_Inr:
  "parse_symbols source = (Inr symbols :: 'e universe_error + ustr list) \<longleftrightarrow>
     length source \<le> MAX_UNIVERSE_BYTES \<and> (\<forall>b \<in> set source. b < 128) \<and>
     symbols = ticker_lines source \<and> (\<forall>s \<in> set symbols. symbol_ok s) \<and> distinct symbols \<and>
     symbols \<noteq> [] \<and> length symbols \<le> MAX_UNIVERSE_SYMBOLS"
proof -
  have "parse_lines 1 (split_lines source) [] = (Inr symbols :: 'e universe_error + ustr list) \<longleftrightarrow>
      symbols = ticker_lines source \<and> (\<forall>s \<in> set symbols. symbol_ok s) \<and> distinct symbols \<and>
      length symbols \<le> MAX_UNIVERSE_SYMBOLS"
    using parse_lines_Inr [of "[]" 1 "split_lines source" symbols]
    by (auto simp: ticker_lines_def)
  moreover have "parse_symbols source = (Inr symbols :: 'e universe_error + ustr list) \<longleftrightarrow>
      length source \<le> MAX_UNIVERSE_BYTES \<and> (\<forall>b \<in> set source. b < 128) \<and>
      parse_lines 1 (split_lines source) [] = (Inr symbols :: 'e universe_error + ustr list) \<and> symbols \<noteq> []"
    by (auto simp: parse_symbols_def not_le not_less split: sum.splits)
  ultimately show ?thesis by auto
qed

section \<open>Resolvers\<close>

text \<open>
  What \<open>_resolve_symbols\<close> expects of an injected resolver: whatever it returns is a constructed resolution,
  with an identity exactly when it is resolved, and a constructed identity.
\<close>

locale universe_resolver =
  fixes resolve :: "ustr \<Rightarrow> 'e + instrument_resolution"
  assumes constructed: "resolve s = Inr r \<Longrightarrow> (ir_code r = RESOLVED) = (ir_instrument_id r \<noteq> None)"
    and identified: "resolve s = Inr r \<Longrightarrow> ir_instrument_id r = Some i \<Longrightarrow> identifier128_ok i"
begin

definition entry_of :: "int \<Rightarrow> ustr \<Rightarrow> universe_entry \<Rightarrow> bool" where
  "entry_of ordinal symbol e \<longleftrightarrow> source_ordinal e = ordinal \<and> entry_symbol e = symbol \<and>
     resolve symbol = Inr \<lparr>ir_code = resolution_code e, ir_instrument_id = entry_instrument_id e\<rparr>"

lemma entry_accepted:
  assumes "0 \<le> ordinal" and "symbol_ok symbol" and "resolve symbol = Inr r"
  shows "universe_entry_post_init \<lparr>source_ordinal = ordinal, entry_symbol = symbol,
     resolution_code = ir_code r, entry_instrument_id = ir_instrument_id r\<rparr> = None"
  using assms constructed [OF assms(3)]
  by (auto simp: universe_entry_post_init_def validate_symbol_None instrument_resolution_post_init_def)

text \<open>
  On accepted symbols the only failures are the resolver's own and two symbols of one instrument.
\<close>

lemma resolve_from_outcome:
  assumes "0 \<le> ordinal" and "\<forall>s \<in> set symbols. symbol_ok s"
  shows "(case resolve_from resolve ordinal symbols known of
       Inr entries \<Rightarrow>
         map entry_symbol entries = symbols \<and>
         map source_ordinal entries = map (\<lambda>k. ordinal + int k) [0..<length symbols] \<and>
         (\<forall>e \<in> set entries. entry_of (source_ordinal e) (entry_symbol e) e) \<and>
         distinct (List.map_filter entry_instrument_id entries) \<and>
         set (List.map_filter entry_instrument_id entries) \<inter> fst ` set known = {}
     | Inl (UniverseContractError code detail line) \<Rightarrow> code = AMBIGUOUS_INSTRUMENT
     | Inl (ResolverError e) \<Rightarrow> \<exists>s \<in> set symbols. resolve s = Inl e
     | Inl PlainValueError \<Rightarrow> False)"
  using assms
proof (induction symbols arbitrary: ordinal known)
  case Nil
  then show ?case by (simp add: map_filter_simps)
next
  case (Cons s ss)
  show ?case
  proof (cases "resolve s")
    case (Inl e)
    then show ?thesis by simp
  next
    case (Inr r)
    define entry where "entry = \<lparr>source_ordinal = ordinal, entry_symbol = s,
        resolution_code = ir_code r, entry_instrument_id = ir_instrument_id r\<rparr>"
    have ok: "(universe_entry_post_init entry :: 'e universe_error option) = None"
      unfolding entry_def using Cons.prems Inr by (intro entry_accepted) auto
    have entry: "entry_of ordinal s entry" using Inr by (simp add: entry_of_def entry_def)
    have tail: "map (\<lambda>k. ordinal + int k) [0..<length (s # ss)] =
        ordinal # map (\<lambda>k. ordinal + 1 + int k) [0..<length ss]"
      by (simp add: upt_conv_Cons del: upt_Suc) (simp add: map_Suc_upt [symmetric] del: upt_Suc)
    show ?thesis
    proof (cases "ir_instrument_id r")
      case None
      then have step: "resolve_from resolve ordinal (s # ss) known =
          map_result (Cons entry) (resolve_from resolve (ordinal + 1) ss known)"
        using Inr ok by (simp add: entry_def Let_def)
      show ?thesis
        using Cons.IH [of "ordinal + 1" known] Cons.prems entry None
        unfolding step tail
        by (auto simp: map_result_def map_filter_simps entry_def split: sum.splits universe_error.splits)
    next
      case (Some i)
      show ?thesis
      proof (cases "map_of known i")
        case known: (Some previous)
        then show ?thesis using Inr ok Some by (simp add: entry_def Let_def)
      next
        case None
        then have fresh: "i \<notin> fst ` set known" by (simp add: map_of_eq_None_iff)
        then have step: "resolve_from resolve ordinal (s # ss) known =
            map_result (Cons entry) (resolve_from resolve (ordinal + 1) ss (known @ [(i, s)]))"
          using Inr ok Some None by (simp add: entry_def Let_def update_new)
        show ?thesis
          using Cons.IH [of "ordinal + 1" "known @ [(i, s)]"] Cons.prems entry Some fresh
          unfolding step tail
          by (auto simp: map_result_def map_filter_simps entry_def split: sum.splits universe_error.splits)
      qed
    qed
  qed
qed

end

end
