(* ===== verification/Universe_Proofs.thy ===== *)
theory Universe_Proofs
  imports Universe
begin

text \<open>
  Properties of the ticker universe: reading back hexadecimal text, the round trip between a snapshot and its
  canonical encoding, the size of an encoding, the resolvers of the repository as interpretations of
  \<open>universe_resolver\<close>, and a worked example of two symbols.
\<close>

section \<open>Reading back hexadecimal text\<close>

definition plain_hex :: "nat \<Rightarrow> bool" where
  "plain_hex c \<longleftrightarrow> 48 \<le> c \<and> c \<le> 57 \<or> 97 \<le> c \<and> c \<le> 102"

lemma hex_digit_plain: "d < 16 \<Longrightarrow> plain_hex (hex_digit d)"
  by (auto simp: hex_digit_def plain_hex_def)

lemma plain_hex_text: "\<forall>c \<in> set t. plain_hex c \<Longrightarrow> text_ok t"
  by (auto simp: text_ok_def plain_hex_def is_surrogate_def)

lemma plain_hex_lower: "\<forall>c \<in> set t. plain_hex c \<Longrightarrow> \<not> lower_changes db t"
  by (auto simp: lower_changes_def plain_hex_def is_upper_def)

lemma bytes_hex_plain: "\<forall>b \<in> set bs. b < 256 \<Longrightarrow> \<forall>c \<in> set (bytes_hex bs). plain_hex c"
  by (auto simp: bytes_hex_def hex_digit_plain)

lemma length_bytes_hex: "length (bytes_hex bs) = 2 * length bs"
  by (induction bs) (simp_all add: bytes_hex_def)

lemma bytes_fromhex_hex:
  assumes "\<forall>b \<in> set bs. b < 256"
  shows "bytes_fromhex (bytes_hex bs) = Some bs"
  using assms
proof (induction bs)
  case (Cons b bs)
  have "b div 16 < 16" using Cons.prems by auto
  then have "\<not> is_space (hex_digit (b div 16))" by (auto simp: is_space_def hex_digit_def)
  with \<open>b div 16 < 16\<close> Cons show ?case by (simp add: bytes_hex_def hex_value_of_digit)
qed (simp add: bytes_hex_def)

lemma format_016x_plain:
  assumes "0 \<le> n" and "n \<le> 2 ^ 64 - 1"
  shows "\<forall>c \<in> set (format_016x n). plain_hex c"
  using format_016x_roundtrip(3) [OF assms] by (auto simp: is_hex_digit_def plain_hex_def)

lemma plain_hex_value: "plain_hex c \<Longrightarrow> hex_value_of c = Some (hex_digit_value c)"
  by (auto simp: plain_hex_def hex_value_of_def hex_digit_value_def)

lemma fold_plain_hex:
  "\<forall>c \<in> set t. plain_hex c \<Longrightarrow>
     foldl (\<lambda>n c. case hex_value_of c of Some d \<Rightarrow> 16 * n + int d | None \<Rightarrow> n) (int k) t =
     int (foldl (\<lambda>n c. 16 * n + hex_digit_value c) k t)"
proof (induction t arbitrary: k)
  case (Cons c t)
  then show ?case using Cons.IH [of "16 * k + hex_digit_value c"] by (simp add: plain_hex_value)
qed simp

lemma underscores_plain: "\<forall>c \<in> set t. plain_hex c \<Longrightarrow> underscores_ok t"
  by (induction t rule: underscores_ok.induct) (auto simp: plain_hex_def)

lemma int_base16_format:
  assumes "0 \<le> n" and "n \<le> 2 ^ 64 - 1"
  shows "int_base16 db (format_016x n) = Some n"
proof -
  let ?t = "format_016x n"
  have plain: "\<forall>c \<in> set ?t. plain_hex c" by (rule format_016x_plain [OF assms])
  obtain a b r where t: "?t = a # b # r"
    using format_016x_roundtrip(1) [OF assms] by (cases ?t rule: strip_prefix.cases) auto
  have ab: "plain_hex a" "plain_hex b" using plain t by auto
  have same: "map (\<lambda>c. if c < 128 then c else ud_to_ascii db c) ?t = ?t"
    using plain by (intro map_idI) (auto simp: plain_hex_def)
  have "\<not> is_space a" using ab by (auto simp: is_space_def plain_hex_def)
  then have space: "dropWhile is_space ?t = ?t" using t by simp
  have sgn: "strip_sign ?t = (False, ?t)" using t ab by (auto simp: strip_sign_def plain_hex_def)
  have prefix: "strip_prefix ?t = ?t" using t ab by (auto simp: plain_hex_def)
  have all: "\<forall>c \<in> set ?t. is_hex_or_underscore c"
    using plain by (auto simp: is_hex_or_underscore_def plain_hex_value)
  then have body: "takeWhile is_hex_or_underscore ?t = ?t" "dropWhile is_hex_or_underscore ?t = []"
    by (simp_all add: takeWhile_eq_all_conv)
  have "foldl (\<lambda>n c. case hex_value_of c of Some d \<Rightarrow> 16 * n + int d | None \<Rightarrow> n) 0 ?t = n"
    using fold_plain_hex [OF plain, of 0] format_016x_roundtrip(2) [OF assms] by (simp add: hex_value_def)
  moreover have "hd ?t \<noteq> 95" "?t \<noteq> []" using t ab by (auto simp: plain_hex_def)
  ultimately show ?thesis
    using underscores_plain [OF plain]
    by (simp add: int_base16_def Let_def same space sgn prefix body)
qed

lemma identifier_hex_plain: "identifier128_ok i \<Longrightarrow> \<forall>c \<in> set (identifier_hex i). plain_hex c"
  using format_016x_plain [of "id_high i"] format_016x_plain [of "id_low i"] identifier_ok_words [of i]
  by (auto simp: identifier_hex_def)

lemma length_identifier_hex: "identifier128_ok i \<Longrightarrow> length (identifier_hex i) = 32"
  using format_016x_roundtrip(1) identifier_ok_words [of i] by (simp add: identifier_hex_def)

lemma decode_identifier_hex:
  assumes "identifier128_ok i"
  shows "decode_identifier db (JStr (identifier_hex i)) = Inr (Some i)"
proof -
  note words = identifier_ok_words [OF assms]
  have "take 16 (identifier_hex i) = format_016x (id_high i)"
    "drop 16 (identifier_hex i) = format_016x (id_low i)"
    using words format_016x_roundtrip(1) by (simp_all add: identifier_hex_def)
  moreover have "\<not> lower_changes db (identifier_hex i)"
    by (rule plain_hex_lower [OF identifier_hex_plain [OF assms]])
  ultimately show ?thesis
    using words assms length_identifier_hex [OF assms]
    by (simp add: decode_identifier_def require_text_def IDENTIFIER_HEX_LENGTH_def int_base16_format)
qed

lemma decode_digest_hex:
  assumes "\<forall>b \<in> set bs. b < 256" and "length bs = digest_size"
  shows "decode_digest db (JStr (bytes_hex bs)) field = Inr bs"
  using assms plain_hex_lower [OF bytes_hex_plain [OF assms(1)]]
  by (simp add: decode_digest_def require_text_def length_bytes_hex bytes_fromhex_hex digest_size_def
      SHA256_HEX_LENGTH_def)

section \<open>Well-formed snapshots print and read back\<close>

definition entry_ok :: "universe_entry \<Rightarrow> bool" where
  "entry_ok e \<longleftrightarrow> 0 \<le> source_ordinal e \<and> symbol_ok (entry_symbol e) \<and>
     (resolution_code e = RESOLVED) = (entry_instrument_id e \<noteq> None) \<and>
     (\<forall>i. entry_instrument_id e = Some i \<longrightarrow> identifier128_ok i)"

lemma entry_ok_accepted: "entry_ok e \<Longrightarrow> universe_entry_post_init e = None"
  by (auto simp: entry_ok_def universe_entry_post_init_def validate_symbol_ok
      instrument_resolution_post_init_def)

lemma resolution_code_roundtrip: "resolution_code_of (resolution_code_value c) = Some c"
  by (cases c) (simp_all add: resolution_code_of_def)

lemma decode_entry_identifier:
  assumes "\<forall>i. x = Some i \<longrightarrow> identifier128_ok i"
  shows "decode_identifier db (case x of None \<Rightarrow> JNull | Some i \<Rightarrow> JStr (identifier_hex i)) = Inr x"
  using assms by (cases x) (simp_all add: decode_identifier_hex, simp add: decode_identifier_def)

lemma decode_entry_payload:
  assumes "entry_ok e"
  shows "decode_entry db (entry_payload e) = Inr e"
proof (cases e)
  case (fields ordinal symbol code i)
  have "\<forall>j. i = Some j \<longrightarrow> identifier128_ok j" using assms fields by (simp add: entry_ok_def)
  then show ?thesis
    using entry_ok_accepted [OF assms]
    by (simp add: decode_entry_def entry_payload_def require_mapping_def field_of_def insert_commute
        resolution_code_roundtrip require_int_def require_text_def decode_entry_identifier fields)
qed

definition snapshot_ok :: "universe_snapshot \<Rightarrow> bool" where
  "snapshot_ok s \<longleftrightarrow>
     us_source_path s = TICKER_UNIVERSE_PATH \<and> us_schema_version s = UNIVERSE_SCHEMA_VERSION \<and>
     length (us_source_file_sha256 s) = digest_size \<and> (\<forall>b \<in> set (us_source_file_sha256 s). b < 256) \<and>
     us_ordered_entries s \<noteq> [] \<and> length (us_ordered_entries s) \<le> MAX_UNIVERSE_SYMBOLS \<and>
     (\<forall>e \<in> set (us_ordered_entries s). entry_ok e) \<and>
     map source_ordinal (us_ordered_entries s) = map int [0..<length (us_ordered_entries s)] \<and>
     distinct (map entry_symbol (us_ordered_entries s)) \<and>
     us_canonical_symbols s = sort (map entry_symbol (us_ordered_entries s)) \<and>
     us_snapshot_sha256 s = sha256 (emit (JObj (snapshot_payload s)))"

lemma length_nat_dec: "n < 10 ^ Suc k \<Longrightarrow> length (nat_dec n) \<le> Suc k"
proof (induction k arbitrary: n)
  case 0
  then show ?case by (subst nat_dec.simps) simp
next
  case (Suc k)
  have "n div 10 < 10 ^ Suc k" using Suc.prems by (simp add: less_mult_imp_div_less mult.commute)
  then have "length (nat_dec (n div 10)) \<le> Suc k" by (rule Suc.IH)
  then show ?case by (subst nat_dec.simps) simp
qed

lemma small_int_ok: "0 \<le> n \<Longrightarrow> n < 10000 \<Longrightarrow> length (nat_dec (nat \<bar>n\<bar>)) \<le> 4"
  using length_nat_dec [of "nat n" 3] by simp

lemma resolution_value_range: "0 \<le> resolution_code_value c \<and> resolution_code_value c < 10000"
  by (cases c) simp_all

lemma entry_payload_wf:
  assumes "entry_ok e" and "source_ordinal e < 10000"
  shows "json_wf (entry_payload e)" and "json_ints_ok (entry_payload e)"
proof -
  have id: "text_ok (identifier_hex i)" if "entry_instrument_id e = Some i" for i
    using that assms(1) by (auto simp: entry_ok_def intro: plain_hex_text [OF identifier_hex_plain])
  have "text_ok (entry_symbol e)" using assms(1) by (simp add: entry_ok_def symbol_ok_text)
  with id show "json_wf (entry_payload e)"
    by (simp add: entry_payload_def lit_def text_ok_def is_surrogate_def split: option.split)
  have "length (nat_dec (nat \<bar>source_ordinal e\<bar>)) \<le> 4"
    "length (nat_dec (nat \<bar>resolution_code_value (resolution_code e)\<bar>)) \<le> 4"
    using small_int_ok assms resolution_value_range by (simp_all add: entry_ok_def)
  then show "json_ints_ok (entry_payload e)"
    by (simp add: entry_payload_def MAX_INT_DIGITS_def split: option.split)
qed

lemma snapshot_ok_ordinal:
  assumes "snapshot_ok s" and "e \<in> set (us_ordered_entries s)"
  shows "source_ordinal e < 10000"
proof -
  have "source_ordinal e \<in> set (map int [0..<length (us_ordered_entries s)])"
    using assms by (metis image_eqI list.set_map snapshot_ok_def)
  then show ?thesis using assms(1) by (auto simp: snapshot_ok_def MAX_UNIVERSE_SYMBOLS_def)
qed

lemma snapshot_payload_wf:
  assumes "snapshot_ok s"
  shows "json_wf (JObj (snapshot_payload s))" and "json_ints_ok (JObj (snapshot_payload s))"
    and "\<forall>b \<in> set d. b < 256 \<Longrightarrow> json_wf (JObj (snapshot_payload s @ [(lit ''universe_snapshot_sha256'', JStr (bytes_hex d))]))"
    and "json_ints_ok (JObj (snapshot_payload s @ [(lit ''universe_snapshot_sha256'', JStr (bytes_hex d))]))"
proof -
  have entries: "json_wf (entry_payload e) \<and> json_ints_ok (entry_payload e)"
    if "e \<in> set (us_ordered_entries s)" for e
    using that assms entry_payload_wf snapshot_ok_ordinal [OF assms that] by (simp add: snapshot_ok_def)
  have hex: "text_ok (bytes_hex d)" if "\<forall>b \<in> set d. b < 256" for d
    by (rule plain_hex_text [OF bytes_hex_plain [OF that]])
  have own: "text_ok (bytes_hex (us_source_file_sha256 s))"
    using assms by (intro hex) (simp add: snapshot_ok_def)
  have texts: "text_ok TICKER_UNIVERSE_PATH" "text_ok UNIVERSE_SCHEMA_VERSION"
    by (simp_all add: TICKER_UNIVERSE_PATH_def UNIVERSE_SCHEMA_VERSION_def lit_def text_ok_def is_surrogate_def)
  have keys: "text_ok (lit k)" if "k \<in> {''canonical_entries'', ''schema_version'', ''source_file_sha256'',
      ''source_path'', ''universe_snapshot_sha256''}" for k
    using that by (auto simp: lit_def text_ok_def is_surrogate_def)
  have order: "sorted_wrt (<) (map lit [''canonical_entries'', ''schema_version'', ''source_file_sha256'',
      ''source_path'', ''universe_snapshot_sha256''])"
    by (simp add: lit_def)
  show "json_wf (JObj (snapshot_payload s))" "json_ints_ok (JObj (snapshot_payload s))"
    using entries own texts keys order assms
    by (simp_all add: snapshot_payload_def list_all_iff snapshot_ok_def)
  show "json_ints_ok (JObj (snapshot_payload s @ [(lit ''universe_snapshot_sha256'', JStr (bytes_hex d))]))"
    using entries by (simp add: snapshot_payload_def list_all_iff)
  assume "\<forall>b \<in> set d. b < 256"
  then show "json_wf (JObj (snapshot_payload s @ [(lit ''universe_snapshot_sha256'', JStr (bytes_hex d))]))"
    using entries own texts keys order assms hex [of d]
    by (simp add: snapshot_payload_def list_all_iff snapshot_ok_def)
qed

definition full_payload :: "universe_snapshot \<Rightarrow> (ustr \<times> json) list" where
  "full_payload s = snapshot_payload s @
     [(lit ''universe_snapshot_sha256'', JStr (bytes_hex (us_snapshot_sha256 s)))]"

lemma snapshot_payload_update:
  "AList.update (lit ''universe_snapshot_sha256'') v (snapshot_payload s) =
     snapshot_payload s @ [(lit ''universe_snapshot_sha256'', v)]"
  by (simp add: snapshot_payload_def)

lemma encode_snapshot_ok:
  assumes "snapshot_ok s"
  shows "encode_universe_snapshot s =
     (if MAX_UNIVERSE_SNAPSHOT_BYTES < length (emit (JObj (full_payload s)))
      then Inl (universe_error SOURCE_TOO_LARGE ''encoded universe snapshot exceeds its bound'')
      else Inr (emit (JObj (full_payload s))))"
  using snapshot_payload_wf [OF assms] assms
  by (simp add: encode_universe_snapshot_def canonical_json_def json_dumps_def snapshot_payload_update
      Let_def full_payload_def snapshot_ok_def del: emit.simps json_wf.simps json_ints_ok.simps)

lemma sort_back:
  assumes "map source_ordinal es = map int [0..<length es]"
  shows "sort_key source_ordinal (sort_key entry_symbol es) = es"
proof (rule sort_key_inj_key_eq)
  show "mset (sort_key entry_symbol es) = mset es" by simp
  have "distinct (map source_ordinal es)" unfolding assms by (simp add: distinct_map)
  then show "inj_on source_ordinal (set (sort_key entry_symbol es))" by (simp add: distinct_map)
  show "sorted (map source_ordinal es)" unfolding assms by (simp add: sorted_map)
qed

lemma snapshot_from_ok:
  assumes "snapshot_ok s"
  shows "snapshot_from_entries (us_source_file_sha256 s) (us_ordered_entries s) = Inr s"
proof -
  have same_payload: "snapshot_payload \<lparr>us_source_path = TICKER_UNIVERSE_PATH,
      us_source_file_sha256 = us_source_file_sha256 s, us_ordered_entries = us_ordered_entries s,
      us_canonical_symbols = x, us_snapshot_sha256 = y, us_schema_version = UNIVERSE_SCHEMA_VERSION\<rparr> =
      snapshot_payload s" for x y
    using assms by (simp add: snapshot_payload_def snapshot_ok_def)
  have ok: "universe_snapshot_post_init \<lparr>us_source_path = TICKER_UNIVERSE_PATH,
      us_source_file_sha256 = us_source_file_sha256 s, us_ordered_entries = us_ordered_entries s,
      us_canonical_symbols = sort (map entry_symbol (us_ordered_entries s)), us_snapshot_sha256 = y,
      us_schema_version = UNIVERSE_SCHEMA_VERSION\<rparr> = (None :: 'a universe_error option)"
    if "length y = digest_size" for y
    using assms that distinct_card [of "map entry_symbol (us_ordered_entries s)"]
    by (simp add: universe_snapshot_post_init_def Let_def snapshot_ok_def)
  show ?thesis
    using ok snapshot_payload_wf(2) [OF assms] assms sha256_length
    by (simp add: snapshot_from_entries_def same_payload canonical_json_def json_dumps_def digest_size_def
        del: emit.simps json_ints_ok.simps) (simp add: snapshot_ok_def)
qed

subsection \<open>The size of an encoding\<close>

lemma escape_plain: "32 \<le> c \<Longrightarrow> c \<le> 126 \<Longrightarrow> c \<noteq> 34 \<Longrightarrow> c \<noteq> 92 \<Longrightarrow> escape_char c = [c]"
  by (simp add: escape_char_def)

lemma emit_plain_string:
  assumes "\<forall>c \<in> set t. 32 \<le> c \<and> c \<le> 126 \<and> c \<noteq> 34 \<and> c \<noteq> 92"
  shows "length (emit_string t) = length t + 2"
proof -
  have "concat (map escape_char t) = t"
    using assms by (induction t) (simp_all add: escape_plain)
  then show ?thesis by (simp add: emit_string_def)
qed

lemma length_join_commas: "\<forall>x \<in> set xs. length x \<le> m \<Longrightarrow> length (join_commas xs) \<le> length xs * (m + 1)"
  by (induction xs rule: join_commas.induct) auto

lemma emit_int_small: "0 \<le> n \<Longrightarrow> n < 10000 \<Longrightarrow> length (emit_int n) \<le> 4"
  using small_int_ok [of n] by (simp add: emit_int_def)

lemma emit_entry_bound:
  assumes "entry_ok e" and "source_ordinal e < 10000"
  shows "length (emit (entry_payload e)) \<le> 200"
proof -
  have keys: "length (emit_string (lit k)) \<le> 20"
    if "k \<in> {''instrument_id'', ''resolution_code'', ''source_ordinal'', ''symbol''}" for k
    using that by (auto simp: emit_string_def lit_def escape_char_def)
  have symbol: "length (emit_string (entry_symbol e)) \<le> 18"
    using assms(1) symbol_pattern_chars [of "entry_symbol e"]
    by (subst emit_plain_string)
      (fastforce simp: entry_ok_def symbol_ok_def is_upper_or_digit_def is_upper_def is_digit_def
        MAX_SYMBOL_BYTES_def)+
  have hex: "length (emit_string (identifier_hex i)) = 34" if "entry_instrument_id e = Some i" for i
  proof -
    have "identifier128_ok i" using that assms(1) by (simp add: entry_ok_def)
    then show ?thesis
      using identifier_hex_plain [of i] length_identifier_hex [of i]
      by (subst emit_plain_string) (auto simp: plain_hex_def)
  qed
  then have idv: "length (emit (case entry_instrument_id e of None \<Rightarrow> JNull | Some i \<Rightarrow> JStr (identifier_hex i))) \<le> 34"
    by (cases "entry_instrument_id e") simp_all
  have code: "length (emit_int (resolution_code_value (resolution_code e))) \<le> 4"
    using resolution_value_range by (intro emit_int_small) auto
  have ordinal: "length (emit_int (source_ordinal e)) \<le> 4"
    using assms by (intro emit_int_small) (simp_all add: entry_ok_def)
  have payload: "emit (entry_payload e) = [123] @ join_commas (map emit_member
      [(lit ''instrument_id'', case entry_instrument_id e of None \<Rightarrow> JNull | Some i \<Rightarrow> JStr (identifier_hex i)),
       (lit ''resolution_code'', JInt (resolution_code_value (resolution_code e))),
       (lit ''source_ordinal'', JInt (source_ordinal e)), (lit ''symbol'', JStr (entry_symbol e))]) @ [125]"
    unfolding entry_payload_def by (rule emit_obj) (simp add: lit_def)
  show ?thesis
    using keys [of "''instrument_id''"] keys [of "''resolution_code''"] keys [of "''source_ordinal''"]
      keys [of "''symbol''"] symbol idv code ordinal
    unfolding payload by (simp add: emit_member_def)
qed

lemma emit_member_string: "emit_member (k, JStr t) = emit_string k @ [58] @ emit_string t"
  by (simp add: emit_member_def)

lemma encoded_size:
  assumes "snapshot_ok s"
  shows "length (emit (JObj (full_payload s))) \<le> MAX_UNIVERSE_SNAPSHOT_BYTES"
proof -
  define es where "es = sort_key entry_symbol (us_ordered_entries s)"
  have "\<forall>x \<in> set (map emit (map entry_payload es)). length x \<le> 200"
    using assms emit_entry_bound snapshot_ok_ordinal [OF assms] by (auto simp: es_def snapshot_ok_def)
  then have "length (join_commas (map emit (map entry_payload es))) \<le> length es * 201"
    using length_join_commas by fastforce
  moreover have "length es \<le> 10000"
    using assms by (simp add: es_def snapshot_ok_def MAX_UNIVERSE_SYMBOLS_def)
  ultimately have arr: "length (emit (JArr (map entry_payload es))) \<le> 2010002" by simp
  have hex: "length (emit_string (bytes_hex d)) = 2 * length d + 2" if "\<forall>b \<in> set d. b < 256" for d
    using bytes_hex_plain [OF that] by (subst emit_plain_string) (auto simp: length_bytes_hex plain_hex_def)
  have len: "length (us_source_file_sha256 s) = 32" "length (us_snapshot_sha256 s) = 32"
    "us_source_path s = TICKER_UNIVERSE_PATH" "us_schema_version s = UNIVERSE_SCHEMA_VERSION"
    using assms sha256_length by (simp_all add: snapshot_ok_def digest_size_def)
  have digests: "length (emit_string (bytes_hex (us_source_file_sha256 s))) = 66"
    "length (emit_string (bytes_hex (us_snapshot_sha256 s))) = 66"
    using hex [of "us_source_file_sha256 s"] hex [of "us_snapshot_sha256 s"] len sha256_bytes assms
    by (auto simp: snapshot_ok_def)
  have texts: "length (emit_string TICKER_UNIVERSE_PATH) \<le> 64" "length (emit_string UNIVERSE_SCHEMA_VERSION) \<le> 64"
    by (simp_all add: TICKER_UNIVERSE_PATH_def UNIVERSE_SCHEMA_VERSION_def emit_string_def lit_def escape_char_def)
  have keys: "length (emit_string (lit k)) \<le> 64" if "k \<in> {''canonical_entries'', ''schema_version'',
      ''source_file_sha256'', ''source_path'', ''universe_snapshot_sha256''}" for k
    using that by (auto simp: emit_string_def lit_def escape_char_def)
  have full: "emit (JObj (full_payload s)) = [123] @ join_commas (map emit_member (full_payload s)) @ [125]"
    by (rule emit_obj) (simp add: full_payload_def snapshot_payload_def lit_def)
  have "length (emit (JObj (full_payload s))) \<le> 2020000"
    using arr digests texts len keys [of "''canonical_entries''"] keys [of "''schema_version''"]
      keys [of "''source_file_sha256''"] keys [of "''source_path''"] keys [of "''universe_snapshot_sha256''"]
    unfolding full
    by (simp add: full_payload_def snapshot_payload_def emit_member_string es_def [symmetric] del: emit.simps)
      (simp add: emit_member_def del: emit.simps)
  then show ?thesis by (simp add: MAX_UNIVERSE_SNAPSHOT_BYTES_def)
qed

subsection \<open>Decoding what was encoded\<close>

lemma map_sort_key: "map f (sort_key f xs) = sort (map f xs)"
  by (rule properties_for_sort [symmetric]) simp_all

lemma decode_entry_list:
  "\<forall>e \<in> set es. entry_ok e \<Longrightarrow> map_list_result (decode_entry db) (map entry_payload es) = Inr es"
  using map_list_result_map [of es "decode_entry db" entry_payload "\<lambda>e. e"]
  by (simp add: decode_entry_payload)

lemma decode_entries_array:
  assumes "vs \<noteq> []" and "length vs \<le> MAX_UNIVERSE_SYMBOLS" and "map_list_result (decode_entry db) vs = (Inr es :: 'e universe_error + universe_entry list)"
    and "sort (map entry_symbol es) = map entry_symbol es"
  shows "decode_entries db (JArr vs) = (Inr (sort_key source_ordinal es) :: 'e universe_error + universe_entry list)"
  using assms by (cases vs) (simp_all add: decode_entries_def del: map_list_result.simps)

lemma decode_entries_ok:
  assumes "snapshot_ok s"
  shows "decode_entries db (JArr (map entry_payload (sort_key entry_symbol (us_ordered_entries s)))) =
     Inr (us_ordered_entries s)"
proof -
  define es where "es = sort_key entry_symbol (us_ordered_entries s)"
  have again: "sort_key source_ordinal es = us_ordered_entries s"
    unfolding es_def using assms by (intro sort_back) (simp add: snapshot_ok_def)
  have len: "length es = length (us_ordered_entries s)" by (simp add: es_def)
  have "map entry_payload es \<noteq> []" "length (map entry_payload es) \<le> MAX_UNIVERSE_SYMBOLS"
    "\<forall>e \<in> set es. entry_ok e"
    using assms len by (auto simp: snapshot_ok_def) (simp add: es_def)
  moreover have "sort (map entry_symbol es) = map entry_symbol es"
    by (simp add: es_def map_sort_key sorted_sort_id)
  ultimately have "decode_entries db (JArr (map entry_payload es)) = Inr (sort_key source_ordinal es)"
    by (intro decode_entries_array decode_entry_list)
  then show ?thesis by (simp add: again flip: es_def)
qed

lemma decode_encoded:
  assumes "snapshot_ok s"
  shows "decode_universe_snapshot db (emit (JObj (full_payload s))) = Inr s"
proof -
  let ?enc = "emit (JObj (full_payload s))"
  have wf: "json_wf (JObj (full_payload s))" "json_ints_ok (JObj (full_payload s))"
    using snapshot_payload_wf(3,4) [OF assms, of "us_snapshot_sha256 s"] sha256_bytes assms
    by (auto simp: full_payload_def snapshot_ok_def)
  have loads: "json_loads ?enc = Inr (JObj (full_payload s))" using json_loads_emit [OF wf] .
  have ascii: "\<not> (\<exists>b \<in> set ?enc. 128 \<le> b)" using emit_printable [OF wf(1)] by fastforce
  have payload: "decode_snapshot_payload ?enc = Inr (full_payload s)"
    using encoded_size [OF assms] ascii
    unfolding decode_snapshot_payload_def loads
    by (simp add: require_mapping_def)
  have fields: "fst ` set (full_payload s) = lit ` {''canonical_entries'', ''schema_version'',
      ''source_file_sha256'', ''source_path'', ''universe_snapshot_sha256''}"
    by (simp add: full_payload_def snapshot_payload_def)
  have values':
    "field_of (full_payload s) ''schema_version'' = JStr UNIVERSE_SCHEMA_VERSION"
    "field_of (full_payload s) ''source_path'' = JStr TICKER_UNIVERSE_PATH"
    "field_of (full_payload s) ''source_file_sha256'' = JStr (bytes_hex (us_source_file_sha256 s))"
    "field_of (full_payload s) ''universe_snapshot_sha256'' = JStr (bytes_hex (us_snapshot_sha256 s))"
    "field_of (full_payload s) ''canonical_entries'' =
       JArr (map entry_payload (sort_key entry_symbol (us_ordered_entries s)))"
    using assms by (simp_all add: field_of_def full_payload_def snapshot_payload_def snapshot_ok_def)
  have digests: "\<forall>b \<in> set (us_source_file_sha256 s). b < 256" "length (us_source_file_sha256 s) = digest_size"
    "\<forall>b \<in> set (us_snapshot_sha256 s). b < 256" "length (us_snapshot_sha256 s) = digest_size"
    using assms sha256_bytes sha256_length by (auto simp: snapshot_ok_def digest_size_def)
  show ?thesis
    using encoded_size [OF assms] fields
    by (simp add: decode_universe_snapshot_def payload values' require_text_def decode_digest_hex digests
        decode_entries_ok [OF assms] snapshot_from_ok [OF assms] encode_snapshot_ok [OF assms] not_less
        del: emit.simps)
qed

section \<open>From the ticker file to a snapshot\<close>

definition sealed_snapshot :: "bytes \<Rightarrow> universe_entry list \<Rightarrow> universe_snapshot" where
  "sealed_snapshot digest entries =
     (let s = \<lparr>us_source_path = TICKER_UNIVERSE_PATH, us_source_file_sha256 = digest,
         us_ordered_entries = entries, us_canonical_symbols = sort (map entry_symbol entries),
         us_snapshot_sha256 = [], us_schema_version = UNIVERSE_SCHEMA_VERSION\<rparr>
      in s\<lparr>us_snapshot_sha256 := sha256 (emit (JObj (snapshot_payload s)))\<rparr>)"

lemma sealed_snapshot_ok:
  assumes "length digest = digest_size" and "\<forall>b \<in> set digest. b < 256"
    and "entries \<noteq> []" and "length entries \<le> MAX_UNIVERSE_SYMBOLS" and "\<forall>e \<in> set entries. entry_ok e"
    and "map source_ordinal entries = map int [0..<length entries]"
    and "distinct (map entry_symbol entries)"
  shows "snapshot_ok (sealed_snapshot digest entries)"
    and "snapshot_from_entries digest entries = Inr (sealed_snapshot digest entries)"
proof -
  have same: "snapshot_payload (s\<lparr>us_snapshot_sha256 := x\<rparr>) = snapshot_payload s" for s x
    by (simp add: snapshot_payload_def)
  show ok: "snapshot_ok (sealed_snapshot digest entries)"
    using assms unfolding sealed_snapshot_def Let_def snapshot_ok_def same by simp
  show "snapshot_from_entries digest entries = Inr (sealed_snapshot digest entries)"
    using snapshot_from_ok [OF ok] by (simp add: sealed_snapshot_def Let_def)
qed

lemma sha256_digest: "length (sha256 m) = digest_size" "\<forall>b \<in> set (sha256 m). b < 256"
  using sha256_length sha256_bytes by (simp_all add: digest_size_def)

context universe_resolver
begin

lemma entry_of_ok:
  assumes "entry_of n s e" and "0 \<le> n" and "symbol_ok s"
  shows "entry_ok e"
  using assms constructed [of s] identified [of s] by (auto simp: entry_of_def entry_ok_def)

lemma resolved_entries:
  assumes "resolve_symbols symbols resolve = Inr entries" and "\<forall>s \<in> set symbols. symbol_ok s"
  shows "map entry_symbol entries = symbols"
    and "map source_ordinal entries = map int [0..<length symbols]"
    and "\<forall>e \<in> set entries. entry_ok e \<and>
      resolve (entry_symbol e) = Inr \<lparr>ir_code = resolution_code e, ir_instrument_id = entry_instrument_id e\<rparr>"
    and "distinct (List.map_filter entry_instrument_id entries)"
proof -
  have o: "map entry_symbol entries = symbols"
    "map source_ordinal entries = map int [0..<length symbols]"
    "\<forall>e \<in> set entries. entry_of (source_ordinal e) (entry_symbol e) e"
    "distinct (List.map_filter entry_instrument_id entries)"
    using resolve_from_outcome [of 0 symbols "[]"] assms by (simp_all add: resolve_symbols_def)
  show "map entry_symbol entries = symbols" "map source_ordinal entries = map int [0..<length symbols]"
    "distinct (List.map_filter entry_instrument_id entries)" by (fact o)+
  have "0 \<le> source_ordinal e \<and> symbol_ok (entry_symbol e)" if "e \<in> set entries" for e
  proof -
    have "source_ordinal e \<in> set (map source_ordinal entries)" using that by simp
    then have "0 \<le> source_ordinal e" unfolding o(2) by auto
    moreover have "entry_symbol e \<in> set symbols" using that o(1) by auto
    ultimately show ?thesis using assms(2) by blast
  qed
  then show "\<forall>e \<in> set entries. entry_ok e \<and>
      resolve (entry_symbol e) = Inr \<lparr>ir_code = resolution_code e, ir_instrument_id = entry_instrument_id e\<rparr>"
    using o(3) entry_of_ok by (auto simp: entry_of_def)
qed

lemma resolved_snapshot:
  assumes "parse_symbols source = (Inr symbols :: 'e universe_error + ustr list)"
    and "resolve_symbols symbols resolve = Inr entries"
  shows "snapshot_ok (sealed_snapshot (sha256 source) entries)"
    and "snapshot_from_entries (sha256 source) entries =
      (Inr (sealed_snapshot (sha256 source) entries) :: 'e universe_error + universe_snapshot)"
proof -
  note p = assms(1) [unfolded parse_symbols_Inr]
  have good: "\<forall>x \<in> set symbols. symbol_ok x" using p by blast
  note e = resolved_entries [OF assms(2) good]
  have len: "length entries = length symbols" using e(1) by (metis length_map)
  then have "entries \<noteq> []" using p by auto
  then show "snapshot_ok (sealed_snapshot (sha256 source) entries)"
    "snapshot_from_entries (sha256 source) entries =
      (Inr (sealed_snapshot (sha256 source) entries) :: 'e universe_error + universe_snapshot)"
    using sealed_snapshot_ok [OF sha256_digest, of entries source] p e len by auto
qed

lemma parse_Inr:
  assumes "parse_ticker_universe source resolve = Inr s"
  shows "snapshot_ok s" and "us_source_file_sha256 s = sha256 source"
    and "map entry_symbol (us_ordered_entries s) = ticker_lines source"
    and "\<forall>e \<in> set (us_ordered_entries s).
      resolve (entry_symbol e) = Inr \<lparr>ir_code = resolution_code e, ir_instrument_id = entry_instrument_id e\<rparr>"
    and "distinct (List.map_filter entry_instrument_id (us_ordered_entries s))"
proof -
  obtain symbols entries where p: "parse_symbols source = (Inr symbols :: 'e universe_error + ustr list)"
    and r: "resolve_symbols symbols resolve = Inr entries"
    and s: "snapshot_from_entries (sha256 source) entries = (Inr s :: 'e universe_error + universe_snapshot)"
    using assms by (auto simp: parse_ticker_universe_def)
  note p' = p [unfolded parse_symbols_Inr]
  have good: "\<forall>x \<in> set symbols. symbol_ok x" using p' by blast
  note e = resolved_entries [OF r good]
  note ok = resolved_snapshot [OF p r]
  have s': "s = sealed_snapshot (sha256 source) entries" using s ok(2) by simp
  show "snapshot_ok s" using ok s' by simp
  show "us_source_file_sha256 s = sha256 source" "map entry_symbol (us_ordered_entries s) = ticker_lines source"
    "\<forall>e \<in> set (us_ordered_entries s).
      resolve (entry_symbol e) = Inr \<lparr>ir_code = resolution_code e, ir_instrument_id = entry_instrument_id e\<rparr>"
    "distinct (List.map_filter entry_instrument_id (us_ordered_entries s))"
    using e p' by (simp_all add: s' sealed_snapshot_def Let_def)
qed

text \<open>Only the resolver or two symbols of one instrument can stop a well-formed ticker file.\<close>

lemma parse_total:
  assumes "parse_symbols source = (Inr symbols :: 'e universe_error + ustr list)"
    and "resolve_symbols symbols resolve = Inr entries"
  shows "\<exists>s. parse_ticker_universe source resolve = Inr s"
  using assms resolved_snapshot(2) [OF assms] by (simp add: parse_ticker_universe_def)

end

interpretation unresolved: universe_resolver unresolved_resolve
  by unfold_locales (auto simp: unresolved_resolve_def)

lemma static_universe_resolver:
  assumes "static_resolver_init resolved codes = (Inr r :: 'e universe_error + static_resolver)"
    and "\<forall>i \<in> ran resolved. identifier128_ok i"
  shows "universe_resolver (static_resolve r :: ustr \<Rightarrow> 'f universe_error + instrument_resolution)"
proof
  have r: "sr_resolved r = resolved" "RESOLVED \<notin> ran (sr_unresolved r)"
    using assms(1) by (auto simp: static_resolver_init_def Let_def split: if_splits)
  fix s and x :: instrument_resolution and i
  assume x: "static_resolve r s = (Inr x :: 'f universe_error + instrument_resolution)"
  then show "(ir_code x = RESOLVED) = (ir_instrument_id x \<noteq> None)"
    using r(2) by (auto simp: static_resolve_def instrument_resolution_post_init_def ran_def split: option.splits)
  show "identifier128_ok i" if "ir_instrument_id x = Some i"
    using that x assms(2) r(1) by (auto simp: static_resolve_def ran_def split: option.splits)
qed

lemma unresolved_resolve_Inr:
  "unresolved_resolve s = Inr \<lparr>ir_code = MISSING_REFERENCE_DATA, ir_instrument_id = None\<rparr>"
  by (simp add: unresolved_resolve_def instrument_resolution_post_init_def)

lemma unresolved_resolve_fun:
  "unresolved_resolve = (\<lambda>s. Inr \<lparr>ir_code = MISSING_REFERENCE_DATA, ir_instrument_id = None\<rparr>)"
  by (simp add: fun_eq_iff unresolved_resolve_Inr)

lemma unresolved_resolve_from:
  assumes "0 \<le> n" and "\<forall>s \<in> set symbols. symbol_ok s"
  shows "\<exists>entries. resolve_from (unresolved_resolve :: ustr \<Rightarrow> 'f universe_error + instrument_resolution)
       n symbols known = Inr entries"
  using assms unfolding unresolved_resolve_fun
proof (induction symbols arbitrary: n)
  case (Cons s ss)
  then have "0 \<le> n + 1" "\<forall>s \<in> set ss. symbol_ok s" by auto
  from Cons.IH [OF this] Cons.prems show ?case
    by (auto simp: instrument_resolution_post_init_def universe_entry_post_init_def
        validate_symbol_ok raise_if_def first_error.simps(2))
qed simp

section \<open>A worked universe\<close>

definition ex_resolver :: static_resolver where
  "ex_resolver = \<lparr>sr_resolved = [lit ''AAPL'' \<mapsto> Identifier128 0 1], sr_unresolved = Map.empty\<rparr>"

definition ex_ticker :: bytes where
  "ex_ticker = lit ''AAPL'' @ [13, 10, 10] @ lit ''BRK.B'' @ [10]"

lemma ex_resolver_init:
  "static_resolver_init [lit ''AAPL'' \<mapsto> Identifier128 0 1] None = Inr ex_resolver"
  by (simp add: static_resolver_init_def ex_resolver_def)

lemma ex_resolver_ids: "\<forall>i \<in> ran [lit ''AAPL'' \<mapsto> Identifier128 0 1]. identifier128_ok i"
  by (simp add: identifier128_post_init_def)

lemma ex_ticker_lines: "ticker_lines ex_ticker = [lit ''AAPL'', lit ''BRK.B'']"
  by (simp add: ticker_lines_def ex_ticker_def lit_def remove_return_def)

lemma ex_parse_symbols: "parse_symbols ex_ticker = Inr [lit ''AAPL'', lit ''BRK.B'']"
  unfolding parse_symbols_Inr ex_ticker_lines
  by (simp add: ex_ticker_def lit_def MAX_UNIVERSE_BYTES_def MAX_UNIVERSE_SYMBOLS_def symbol_ok_def
      MAX_SYMBOL_BYTES_def is_upper_def is_upper_or_digit_def is_digit_def)

lemma ex_parse: "\<exists>s. parse_ticker_universe ex_ticker (static_resolve ex_resolver) = Inr s"
proof -
  have ok: "symbol_ok (lit ''AAPL'')" "symbol_ok (lit ''BRK.B'')"
    using ex_parse_symbols [unfolded parse_symbols_Inr] by auto
  have "resolve_symbols [lit ''AAPL'', lit ''BRK.B''] (static_resolve ex_resolver) = Inr
      [\<lparr>source_ordinal = 0, entry_symbol = lit ''AAPL'', resolution_code = RESOLVED,
        entry_instrument_id = Some (Identifier128 0 1)\<rparr>,
       \<lparr>source_ordinal = 1, entry_symbol = lit ''BRK.B'', resolution_code = MISSING_REFERENCE_DATA,
        entry_instrument_id = None\<rparr>]"
    by (simp add: resolve_symbols_def static_resolve_def ex_resolver_def construct_def
        instrument_resolution_post_init_def universe_entry_post_init_def validate_symbol_ok ok
        raise_if_def first_error.simps(2))
  then show ?thesis
    using universe_resolver.parse_total [OF static_universe_resolver [OF ex_resolver_init ex_resolver_ids]
        ex_parse_symbols] by blast
qed

section \<open>Properties of the universe\<close>

text \<open>
  \<open>_parse_symbols\<close> accepts a ticker file exactly when it has at most one mebibyte of ASCII, its
  nonempty lines (a trailing carriage return dropped) all match the symbol pattern within sixteen bytes, no
  symbol is repeated and there are between one and ten thousand of them; and it returns those lines in order.
\<close>

theorem parse_symbols_exact:
  "parse_symbols source = Inr symbols \<longleftrightarrow>
     length source \<le> 2 ^ 20 \<and> (\<forall>b \<in> set source. b < 128) \<and>
     symbols = ticker_lines source \<and>
     (\<forall>s \<in> set symbols. length s \<le> 16 \<and> symbol_pattern s) \<and> distinct symbols \<and>
     0 < length symbols \<and> length symbols \<le> 10000"
  unfolding parse_symbols_Inr
  by (auto simp: symbol_ok_def MAX_UNIVERSE_BYTES_def MAX_SYMBOL_BYTES_def MAX_UNIVERSE_SYMBOLS_def)

theorem parse_symbols_exact_witness:
  "parse_symbols ex_ticker = Inr [lit ''AAPL'', lit ''BRK.B'']"
  unfolding parse_symbols_exact ex_ticker_lines
  by (simp add: ex_ticker_def lit_def is_upper_def is_upper_or_digit_def is_digit_def)



text \<open>
  Claim C10. Snapshots survive the encoding: the canonical encoding of a parsed universe always succeeds, within
  its eight-mebibyte bound, and decoding it gives back the very snapshot.
\<close>

theorem universe_snapshot_roundtrip:
  assumes "static_resolver_init resolved codes = (Inr r :: 'a universe_error + static_resolver)"
    and "\<forall>i \<in> ran resolved. identifier128_ok i"
    and "parse_ticker_universe source (static_resolve r :: ustr \<Rightarrow> 'f universe_error + _) = Inr s"
  shows "\<exists>encoded. encode_universe_snapshot s = Inr encoded \<and> length encoded \<le> 8 * 2 ^ 20 \<and>
     decode_universe_snapshot db encoded = Inr s"
proof -
  have ok: "snapshot_ok s"
    using universe_resolver.parse_Inr(1) [OF static_universe_resolver [OF assms(1,2)] assms(3)] .
  show ?thesis
    using encoded_size [OF ok] decode_encoded [OF ok]
    by (simp add: encode_snapshot_ok [OF ok] MAX_UNIVERSE_SNAPSHOT_BYTES_def not_less del: emit.simps)
qed

theorem universe_snapshot_roundtrip_witness:
  "\<exists>s encoded. parse_ticker_universe ex_ticker (static_resolve ex_resolver) = Inr s \<and>
     encode_universe_snapshot s = Inr encoded \<and>
     decode_universe_snapshot \<lparr>ud_to_ascii = (\<lambda>c. 63), ud_lower_changes = (\<lambda>c. False)\<rparr> encoded = Inr s"
  using ex_parse universe_snapshot_roundtrip [OF ex_resolver_init ex_resolver_ids] by metis

text \<open>
  The decoder accepts only canonical bytes: whatever it accepts is exactly the encoding of the
  snapshot it returns, with the digest of the canonical payload, so no two byte strings decode to one snapshot.
\<close>

theorem decode_accepts_only_canonical:
  assumes "decode_universe_snapshot db encoded = (Inr s :: 'a universe_error + universe_snapshot)"
  shows "encode_universe_snapshot s = (Inr encoded :: 'a universe_error + bytes) \<and>
     us_snapshot_sha256 s = sha256 (emit (JObj (snapshot_payload s))) \<and>
     (\<forall>other. decode_universe_snapshot db other = (Inr s :: 'a universe_error + universe_snapshot) \<longrightarrow>
        other = encoded)"
proof -
  have only: "encode_universe_snapshot s = (Inr e :: 'a universe_error + bytes)"
    if "decode_universe_snapshot db e = (Inr s :: 'a universe_error + universe_snapshot)" for e
    using that by (clarsimp simp: decode_universe_snapshot_def split: if_splits)
  have "us_snapshot_sha256 s = sha256 (emit (JObj (snapshot_payload s)))"
    using only [OF assms]
    by (auto simp: encode_universe_snapshot_def canonical_json_def json_dumps_def Let_def
        split: if_splits sum.splits simp del: emit.simps)
  then show ?thesis using only [OF assms] only by fastforce
qed

theorem decode_accepts_only_canonical_witness:
  "\<exists>s encoded. decode_universe_snapshot \<lparr>ud_to_ascii = (\<lambda>c. 63), ud_lower_changes = (\<lambda>c. False)\<rparr> encoded =
       Inr s \<and> encode_universe_snapshot s = Inr encoded"
proof -
  obtain s where "parse_ticker_universe ex_ticker (static_resolve ex_resolver) = Inr s" using ex_parse by blast
  then have "snapshot_ok s"
    by (rule universe_resolver.parse_Inr(1) [OF static_universe_resolver [OF ex_resolver_init ex_resolver_ids]])
  then show ?thesis using decode_accepts_only_canonical [OF decode_encoded] decode_encoded by blast
qed

text \<open>
  Before reference data exists nothing is lost: with the unresolved resolver, a ticker file parses
  to a snapshot exactly when its symbols are accepted, and every symbol is kept as missing reference data.
\<close>

theorem unresolved_universe_keeps_every_symbol:
  "(\<exists>s. parse_ticker_universe source (unresolved_resolve :: ustr \<Rightarrow> 'f universe_error + _) = Inr s \<and>
      map entry_symbol (us_ordered_entries s) = symbols \<and>
      (\<forall>e \<in> set (us_ordered_entries s). resolution_code e = MISSING_REFERENCE_DATA)) \<longleftrightarrow>
   parse_symbols source = (Inr symbols :: 'f universe_error universe_error + ustr list)"
  (is "?parsed \<longleftrightarrow> ?accepted")
proof
  assume ?parsed
  then obtain s where s: "parse_ticker_universe source (unresolved_resolve :: ustr \<Rightarrow> 'f universe_error + _) = Inr s"
    "map entry_symbol (us_ordered_entries s) = symbols" by blast
  then show ?accepted
    using unresolved.parse_Inr(3) [OF s(1)]
    by (auto simp: parse_ticker_universe_def parse_symbols_Inr)
next
  assume a: ?accepted
  then have "\<forall>x \<in> set symbols. symbol_ok x" "symbols = ticker_lines source" by (simp_all add: parse_symbols_Inr)
  then obtain entries where "resolve_symbols symbols
      (unresolved_resolve :: ustr \<Rightarrow> 'f universe_error + instrument_resolution) = Inr entries"
    using unresolved_resolve_from [of 0 symbols "[]"] by (auto simp: resolve_symbols_def)
  then obtain s where s: "parse_ticker_universe source (unresolved_resolve :: ustr \<Rightarrow> 'f universe_error + _) = Inr s"
    using unresolved.parse_total [OF a] by blast
  then show ?parsed
    using unresolved.parse_Inr(3,4) [OF s] \<open>symbols = ticker_lines source\<close>
    by (auto simp: unresolved_resolve_Inr)
qed

text \<open>
  Not every rejection of an untrusted snapshot carries a universe code: a document holding an
  integer of more than 4300 digits makes the JSON scanner raise a plain \<open>ValueError\<close>, which the decoder does
  not translate.
\<close>

theorem decode_leaks_plain_value_error:
  "decode_universe_snapshot db (replicate 4301 49) = (Inl PlainValueError :: 'a universe_error + universe_snapshot)"
proof -
  define ds :: ustr where "ds = replicate 4300 49"
  have ds: "replicate 4301 49 = 49 # ds" unfolding ds_def by (simp flip: replicate_Suc)
  have digits: "\<forall>c \<in> set (49 # ds). is_digit c" by (auto simp: ds_def is_digit_def)
  then have "takeWhile is_digit (49 # ds) = 49 # ds" "dropWhile is_digit (49 # ds) = []"
    by (simp_all only: takeWhile_eq_all_conv dropWhile_eq_Nil_conv)
  then have "scan_integer_part (49 # ds) = Some (49 # ds, [])"
    by (simp add: scan_integer_part_def is_digit_def)
  then have number: "scan_number (49 # ds) = Inl IntDigitsError"
    by (simp add: scan_number_def scan_fraction_def scan_exponent_def MAX_INT_DIGITS_def ds_def)
  have "scan_constant (49 # ds) = None" by (simp add: scan_constant_def lit_def)
  with number have "json_loads (49 # ds) = Inl IntDigitsError"
    by (simp add: json_loads_def skip_blanks_def is_blank_def)
  moreover have "\<not> (\<exists>b \<in> set (49 # ds). 128 \<le> b)" by (auto simp: ds_def)
  moreover have "length (49 # ds) \<le> MAX_UNIVERSE_SNAPSHOT_BYTES"
    by (simp add: ds_def MAX_UNIVERSE_SNAPSHOT_BYTES_def)
  ultimately have "decode_snapshot_payload (49 # ds) = (Inl PlainValueError :: 'a universe_error + _)"
    by (simp add: decode_snapshot_payload_def)
  then show ?thesis unfolding ds by (simp add: decode_universe_snapshot_def)
qed

end
