(* ===== verification/Json_Bytes.thy ===== *)
theory Json_Bytes
  imports Universe_Proofs
begin

text \<open>
  \<open>json.loads\<close> on bytes: the encoding is detected from a byte-order mark or from the position of zero bytes
  (\<open>json.detect_encoding\<close>), the bytes are decoded with \<open>surrogatepass\<close>, and the text is scanned by
  \<open>json_loads\<close>. Decoding fails as a whole (\<open>None\<close> is \<open>UnicodeDecodeError\<close>). A text that starts with U+FEFF is
  refused by the scanner whether it came from text or from bytes.
\<close>

section \<open>Decoders with surrogatepass\<close>

datatype text_encoding = UTF8 | UTF8_SIG | UTF16_BE | UTF16_LE | UTF32_BE | UTF32_LE

definition is_continuation :: "nat \<Rightarrow> bool" where
  "is_continuation b \<longleftrightarrow> 128 \<le> b \<and> b \<le> 191"

text \<open>
  The shortest-form UTF-8 sequences up to U+10FFFF; the three-byte forms of surrogates, refused by the strict
  decoder, are let through.
\<close>

fun decode_utf8 :: "bytes \<Rightarrow> ustr option" where
  "decode_utf8 [] = Some []"
| "decode_utf8 (a # s) =
     (if a < 128 then map_option (Cons a) (decode_utf8 s)
      else case s of
        [] \<Rightarrow> None
      | b # s' \<Rightarrow>
          if \<not> is_continuation b then None
          else if 194 \<le> a \<and> a \<le> 223 then map_option (Cons ((a - 192) * 64 + (b - 128))) (decode_utf8 s')
          else case s' of
            [] \<Rightarrow> None
          | c # s'' \<Rightarrow>
              if \<not> is_continuation c then None
              else if 224 \<le> a \<and> a \<le> 239 then
                (if a = 224 \<and> b < 160 then None
                 else map_option (Cons ((a - 224) * 4096 + (b - 128) * 64 + (c - 128))) (decode_utf8 s''))
              else case s'' of
                [] \<Rightarrow> None
              | d # s''' \<Rightarrow>
                  if \<not> is_continuation d then None
                  else if 240 \<le> a \<and> a \<le> 244 \<and> \<not> (a = 240 \<and> b < 144) \<and> \<not> (a = 244 \<and> 143 < b)
                  then map_option (Cons ((a - 240) * 262144 + (b - 128) * 4096 + (c - 128) * 64 + (d - 128)))
                    (decode_utf8 s''')
                  else None)"

fun units16 :: "bool \<Rightarrow> bytes \<Rightarrow> nat list option" where
  "units16 big [] = Some []"
| "units16 big [a] = None"
| "units16 big (a # b # s) = map_option (Cons (if big then 256 * a + b else 256 * b + a)) (units16 big s)"

fun join_surrogates :: "nat list \<Rightarrow> ustr" where
  "join_surrogates (u # v # s) =
     (if 55296 \<le> u \<and> u \<le> 56319 \<and> 56320 \<le> v \<and> v \<le> 57343
      then (65536 + (u - 55296) * 1024 + (v - 56320)) # join_surrogates s
      else u # join_surrogates (v # s))"
| "join_surrogates s = s"

fun decode_utf32 :: "bool \<Rightarrow> bytes \<Rightarrow> ustr option" where
  "decode_utf32 big [] = Some []"
| "decode_utf32 big (a # b # c # d # s) =
     (let u = (if big then ((a * 256 + b) * 256 + c) * 256 + d else ((d * 256 + c) * 256 + b) * 256 + a)
      in if 1114111 < u then None else map_option (Cons u) (decode_utf32 big s))"
| "decode_utf32 big _ = None"

section \<open>Detection\<close>

text \<open>
  The encoding and the bytes left after a byte-order mark, which the \<open>utf-16\<close>, \<open>utf-32\<close> and \<open>utf-8-sig\<close>
  codecs drop.
\<close>

definition detect_encoding :: "bytes \<Rightarrow> text_encoding \<times> bytes" where
  "detect_encoding b =
     (if take 4 b = [0, 0, 254, 255] then (UTF32_BE, drop 4 b)
      else if take 4 b = [255, 254, 0, 0] then (UTF32_LE, drop 4 b)
      else if take 2 b = [254, 255] then (UTF16_BE, drop 2 b)
      else if take 2 b = [255, 254] then (UTF16_LE, drop 2 b)
      else if take 3 b = [239, 187, 191] then (UTF8_SIG, drop 3 b)
      else if 4 \<le> length b \<and> b ! 0 = 0 then ((if b ! 1 \<noteq> 0 then UTF16_BE else UTF32_BE), b)
      else if 4 \<le> length b \<and> b ! 1 = 0 then ((if b ! 2 \<noteq> 0 \<or> b ! 3 \<noteq> 0 then UTF16_LE else UTF32_LE), b)
      else if length b = 2 \<and> b ! 0 = 0 then (UTF16_BE, b)
      else if length b = 2 \<and> b ! 1 = 0 then (UTF16_LE, b)
      else (UTF8, b))"

fun decode_text :: "text_encoding \<Rightarrow> bytes \<Rightarrow> ustr option" where
  "decode_text UTF8 b = decode_utf8 b"
| "decode_text UTF8_SIG b = decode_utf8 b"
| "decode_text UTF16_BE b = map_option join_surrogates (units16 True b)"
| "decode_text UTF16_LE b = map_option join_surrogates (units16 False b)"
| "decode_text UTF32_BE b = decode_utf32 True b"
| "decode_text UTF32_LE b = decode_utf32 False b"

datatype loads_error = UnicodeDecodeError | Json_Error json_error

definition json_loads_bytes :: "bytes \<Rightarrow> loads_error + json" where
  "json_loads_bytes b =
     (case detect_encoding b of (encoding, rest) \<Rightarrow>
        case decode_text encoding rest of
          None \<Rightarrow> Inl UnicodeDecodeError
        | Some t \<Rightarrow> (case json_loads t of Inl e \<Rightarrow> Inl (Json_Error e) | Inr v \<Rightarrow> Inr v))"

section \<open>ASCII text\<close>

lemma decode_utf8_ascii: "\<forall>b \<in> set bs. b < 128 \<Longrightarrow> decode_utf8 bs = Some bs"
  by (induction bs) auto

lemma detect_encoding_ascii:
  assumes "\<forall>b \<in> set bs. 0 < b \<and> b < 128"
  shows "detect_encoding bs = (UTF8, bs)"
proof -
  have nz: "bs ! i \<noteq> 0" if "i < length bs" for i using assms that by (metis nth_mem not_less_zero)
  have no_mark: "take n bs = a # x \<longleftrightarrow> False" if "a = 0 \<or> 128 \<le> a" for n a x
  proof
    assume "take n bs = a # x"
    then have "a \<in> set bs" using set_take_subset [of n bs] by auto
    then show False using assms that by fastforce
  qed simp
  have "bs ! 0 \<noteq> 0 \<and> bs ! 1 \<noteq> 0" if len: "2 \<le> length bs"
  proof -
    have "0 < length bs" "1 < length bs" using len by auto
    then show ?thesis using nz by blast
  qed
  then show ?thesis by (auto simp: detect_encoding_def no_mark)
qed

lemma json_loads_bytes_ascii:
  assumes "\<forall>b \<in> set bs. 0 < b \<and> b < 128"
  shows "json_loads_bytes bs = (case json_loads bs of Inl e \<Rightarrow> Inl (Json_Error e) | Inr v \<Rightarrow> Inr v)"
  using assms by (simp add: json_loads_bytes_def detect_encoding_ascii decode_utf8_ascii)

lemma json_loads_bytes_emit:
  assumes "json_wf v" and "json_ints_ok v"
  shows "json_loads_bytes (emit v) = Inr v"
proof -
  have "\<forall>b \<in> set (emit v). 0 < b \<and> b < 128" using emit_printable [OF assms(1)] by fastforce
  then show ?thesis using json_loads_emit [OF assms] by (simp add: json_loads_bytes_ascii)
qed

end
