(* ===== verification/Pit_Codec.thy ===== *)
theory Pit_Codec
  imports Json_Bytes Pit_Store
begin

text \<open>
  The record codec of \<open>python/research/aegis_mx_research/store.py\<close>: \<open>_payload_document\<close>, \<open>_canonical_bytes\<close> and
  \<open>_record_from_bytes\<close>. Decoding reads the fields in source order; \<open>KeyError\<close>, \<open>TypeError\<close> and every
  \<open>ValueError\<close> (of the JSON reader, of an enumeration, of \<open>bytes.fromhex\<close> and of the constructors) become one
  \<open>PersistentStoreError\<close>, while the \<open>PersistentStoreError\<close>s raised on the way keep their message.
\<close>

section \<open>Encoding\<close>

definition optional_json :: "('a \<Rightarrow> json) \<Rightarrow> 'a option \<Rightarrow> json" where
  "optional_json f x = (case x of None \<Rightarrow> JNull | Some y \<Rightarrow> f y)"

fun payload_json :: "record_payload \<Rightarrow> json" where
  "payload_json (CorporateAction action_id instrument_id action_type num den) = JObj
     [(lit ''action_id'', JStr action_id),
      (lit ''action_type'', JInt (corporate_action_type_value action_type)),
      (lit ''instrument_id'', JStr instrument_id),
      (lit ''ratio_denominator'', JInt den),
      (lit ''ratio_numerator'', JInt num)]"
| "payload_json (SymbolMapping symbol instrument_id venue) = JObj
     [(lit ''instrument_id'', JStr instrument_id),
      (lit ''symbol'', JStr symbol),
      (lit ''venue'', JStr venue)]"
| "payload_json (Delisting instrument_id reason) = JObj
     [(lit ''instrument_id'', JStr instrument_id), (lit ''reason'', JStr reason)]"
| "payload_json (IndexMembership index_id instrument_id included) = JObj
     [(lit ''included'', JBool included),
      (lit ''index_id'', JStr index_id),
      (lit ''instrument_id'', JStr instrument_id)]"
| "payload_json (AnalystEstimateVintage instrument_id metric_id fiscal_period val unit) = JObj
     [(lit ''fiscal_period'', JStr fiscal_period),
      (lit ''instrument_id'', JStr instrument_id),
      (lit ''metric_id'', JStr metric_id),
      (lit ''unit'', JStr unit),
      (lit ''value'', JInt val)]"
| "payload_json (MacroVintage series_id reference_period val unit) = JObj
     [(lit ''reference_period'', JStr reference_period),
      (lit ''series_id'', JStr series_id),
      (lit ''unit'', JStr unit),
      (lit ''value'', JInt val)]"
| "payload_json (NewsRevision document_id correction_of) = JObj
     [(lit ''correction_of_record_id'', optional_json JStr correction_of),
      (lit ''document_id'', JStr document_id)]"
| "payload_json (FilingRevision accession_id form_type amendment_of) = JObj
     [(lit ''accession_id'', JStr accession_id),
      (lit ''amendment_of_record_id'', optional_json JStr amendment_of),
      (lit ''form_type'', JStr form_type)]"

definition source_json :: "data_source \<Rightarrow> json" where
  "source_json s = JObj
     [(lit ''authenticated'', JBool (authenticated s)),
      (lit ''content_sha256'', JStr (bytes_hex (content_sha256 s))),
      (lit ''document_id'', JStr (source_document_id s)),
      (lit ''kind'', JInt (source_kind_value (source_kind_of s))),
      (lit ''provider'', JStr (provider s)),
      (lit ''source_id'', JStr (source_id s))]"

definition validity_json :: "validity_interval \<Rightarrow> json" where
  "validity_json v = JObj
     [(lit ''valid_from_ns'', JInt (valid_from_ns v)),
      (lit ''valid_to_ns'', optional_json JInt (valid_to_ns v))]"

definition payload_document :: "pit_record \<Rightarrow> json" where
  "payload_document r = JObj
     [(lit ''event_time_ns'', JInt (event_time_ns r)),
      (lit ''kind'', JInt (record_kind_value (rec_kind r))),
      (lit ''logical_key'', JStr (logical_key r)),
      (lit ''payload'', payload_json (rec_payload r)),
      (lit ''processing_time_ns'', JInt (processing_time_ns r)),
      (lit ''publication_time_ns'', JInt (publication_time_ns r)),
      (lit ''receive_time_ns'', JInt (receive_time_ns r)),
      (lit ''record_id'', JStr (record_id r)),
      (lit ''revision_time_ns'', JInt (revision_time_ns r)),
      (lit ''schema_version'', JStr (rec_schema_version r)),
      (lit ''source'', source_json (rec_source r)),
      (lit ''validity'', validity_json (rec_validity r)),
      (lit ''version'', JInt (rec_version r))]"

definition canonical_bytes :: "json \<Rightarrow> py_error + bytes" where
  "canonical_bytes v = json_dumps v"

section \<open>Decoding\<close>

definition pit_require_mapping :: "json \<Rightarrow> string \<Rightarrow> py_error + (ustr \<times> json) list" where
  "pit_require_mapping v field = (case v of JObj kvs \<Rightarrow> Inr kvs
     | _ \<Rightarrow> Inl (PersistentStoreError (field @ '' is not an object'')))"

definition pit_require_str :: "json \<Rightarrow> string \<Rightarrow> py_error + ustr" where
  "pit_require_str v field = (case v of JStr t \<Rightarrow> Inr t
     | _ \<Rightarrow> Inl (PersistentStoreError (field @ '' is not a string'')))"

definition pit_require_int :: "json \<Rightarrow> string \<Rightarrow> py_error + int" where
  "pit_require_int v field = (case v of JInt n \<Rightarrow> Inr n
     | _ \<Rightarrow> Inl (PersistentStoreError (field @ '' is not an integer'')))"

text \<open>\<open>document[key]\<close>, and a subscript whose value must be text or an integer.\<close>

definition get_item :: "(ustr \<times> json) list \<Rightarrow> string \<Rightarrow> py_error + json" where
  "get_item d k = (case map_of d (lit k) of None \<Rightarrow> Inl KeyError | Some v \<Rightarrow> Inr v)"

definition get_str :: "(ustr \<times> json) list \<Rightarrow> string \<Rightarrow> string \<Rightarrow> py_error + ustr" where
  "get_str d k field = bind_result (get_item d k) (\<lambda>v. pit_require_str v field)"

definition get_int :: "(ustr \<times> json) list \<Rightarrow> string \<Rightarrow> string \<Rightarrow> py_error + int" where
  "get_int d k field = bind_result (get_item d k) (\<lambda>v. pit_require_int v field)"

definition get_mapping :: "(ustr \<times> json) list \<Rightarrow> string \<Rightarrow> string \<Rightarrow> py_error + (ustr \<times> json) list" where
  "get_mapping d k field = bind_result (get_item d k) (\<lambda>v. pit_require_mapping v field)"

text \<open>An enumeration called on a value: the member, or a \<open>ValueError\<close>.\<close>

definition enum_of :: "('a \<Rightarrow> int) \<Rightarrow> 'a list \<Rightarrow> int \<Rightarrow> py_error + 'a" where
  "enum_of val members n = (case find (\<lambda>m. val m = n) members of
     None \<Rightarrow> Inl (ValueError ''not a valid member'') | Some m \<Rightarrow> Inr m)"

definition record_kind_of :: "int \<Rightarrow> py_error + record_kind" where
  "record_kind_of = enum_of record_kind_value
     [CORPORATE_ACTION, SYMBOL_MAPPING, DELISTING, INDEX_MEMBERSHIP, ANALYST_ESTIMATE, MACRO_VINTAGE,
      NEWS_REVISION, FILING_REVISION]"

definition source_kind_from :: "int \<Rightarrow> py_error + source_kind" where
  "source_kind_from = enum_of source_kind_value
     [OFFICIAL_PRIMARY, LICENSED_PROVIDER, PUBLIC_SECONDARY, SYNTHETIC_REPLAY]"

definition corporate_action_type_of :: "int \<Rightarrow> py_error + corporate_action_type" where
  "corporate_action_type_of = enum_of corporate_action_type_value [SPLIT, CASH_DIVIDEND, MERGER, SPINOFF]"

definition get_parent :: "(ustr \<times> json) list \<Rightarrow> string \<Rightarrow> string \<Rightarrow> py_error + ustr option" where
  "get_parent d k message = bind_result (get_item d k) (\<lambda>v. case v of
     JNull \<Rightarrow> Inr None | JStr t \<Rightarrow> Inr (Some t) | _ \<Rightarrow> Inl (PersistentStoreError message))"

definition get_bool :: "(ustr \<times> json) list \<Rightarrow> string \<Rightarrow> string \<Rightarrow> py_error + bool" where
  "get_bool d k message = bind_result (get_item d k) (\<lambda>v. case v of
     JBool b \<Rightarrow> Inr b | _ \<Rightarrow> Inl (PersistentStoreError message))"

fun decode_payload :: "record_kind \<Rightarrow> (ustr \<times> json) list \<Rightarrow> py_error + record_payload" where
  "decode_payload CORPORATE_ACTION d =
     bind_result (get_str d ''action_id'' ''action_id'') (\<lambda>action_id.
     bind_result (get_str d ''instrument_id'' ''instrument_id'') (\<lambda>instrument_id.
     bind_result (get_int d ''action_type'' ''action_type'') (\<lambda>t.
     bind_result (corporate_action_type_of t) (\<lambda>action_type.
     bind_result (get_int d ''ratio_numerator'' ''ratio_numerator'') (\<lambda>num.
     bind_result (get_int d ''ratio_denominator'' ''ratio_denominator'') (\<lambda>den.
       construct payload_post_init (CorporateAction action_id instrument_id action_type num den)))))))"
| "decode_payload SYMBOL_MAPPING d =
     bind_result (get_str d ''symbol'' ''symbol'') (\<lambda>symbol.
     bind_result (get_str d ''instrument_id'' ''instrument_id'') (\<lambda>instrument_id.
     bind_result (get_str d ''venue'' ''venue'') (\<lambda>venue.
       construct payload_post_init (SymbolMapping symbol instrument_id venue))))"
| "decode_payload DELISTING d =
     bind_result (get_str d ''instrument_id'' ''instrument_id'') (\<lambda>instrument_id.
     bind_result (get_str d ''reason'' ''reason'') (\<lambda>reason.
       construct payload_post_init (Delisting instrument_id reason)))"
| "decode_payload INDEX_MEMBERSHIP d =
     bind_result (get_bool d ''included'' ''included is not a boolean'') (\<lambda>included.
     bind_result (get_str d ''index_id'' ''index_id'') (\<lambda>index_id.
     bind_result (get_str d ''instrument_id'' ''instrument_id'') (\<lambda>instrument_id.
       construct payload_post_init (IndexMembership index_id instrument_id included))))"
| "decode_payload ANALYST_ESTIMATE d =
     bind_result (get_str d ''instrument_id'' ''instrument_id'') (\<lambda>instrument_id.
     bind_result (get_str d ''metric_id'' ''metric_id'') (\<lambda>metric_id.
     bind_result (get_str d ''fiscal_period'' ''fiscal_period'') (\<lambda>fiscal_period.
     bind_result (get_int d ''value'' ''value'') (\<lambda>val.
     bind_result (get_str d ''unit'' ''unit'') (\<lambda>unit.
       construct payload_post_init (AnalystEstimateVintage instrument_id metric_id fiscal_period val unit))))))"
| "decode_payload MACRO_VINTAGE d =
     bind_result (get_str d ''series_id'' ''series_id'') (\<lambda>series_id.
     bind_result (get_str d ''reference_period'' ''reference_period'') (\<lambda>reference_period.
     bind_result (get_int d ''value'' ''value'') (\<lambda>val.
     bind_result (get_str d ''unit'' ''unit'') (\<lambda>unit.
       construct payload_post_init (MacroVintage series_id reference_period val unit)))))"
| "decode_payload NEWS_REVISION d =
     bind_result (get_parent d ''correction_of_record_id'' ''correction parent is malformed'') (\<lambda>correction.
     bind_result (get_str d ''document_id'' ''document_id'') (\<lambda>document_id.
       construct payload_post_init (NewsRevision document_id correction)))"
| "decode_payload FILING_REVISION d =
     bind_result (get_parent d ''amendment_of_record_id'' ''amendment parent is malformed'') (\<lambda>amendment.
     bind_result (get_str d ''accession_id'' ''accession_id'') (\<lambda>accession_id.
     bind_result (get_str d ''form_type'' ''form_type'') (\<lambda>form_type.
       construct payload_post_init (FilingRevision accession_id form_type amendment))))"

definition decode_valid_to :: "(ustr \<times> json) list \<Rightarrow> py_error + int option" where
  "decode_valid_to d = bind_result (get_item d ''valid_to_ns'') (\<lambda>v.
     if v = JNull then Inr None else map_result Some (pit_require_int v ''valid_to_ns''))"

definition decode_source ::
    "(ustr \<times> json) list \<Rightarrow> source_kind \<Rightarrow> bytes \<Rightarrow> bool \<Rightarrow> py_error + data_source" where
  "decode_source d kind digest auth =
     bind_result (get_str d ''source_id'' ''source_id'') (\<lambda>sid.
     bind_result (get_str d ''provider'' ''provider'') (\<lambda>prov.
     bind_result (get_str d ''document_id'' ''source.document_id'') (\<lambda>doc.
       construct data_source_post_init
         \<lparr>source_id = sid, source_kind_of = kind, provider = prov, source_document_id = doc,
          content_sha256 = digest, authenticated = auth\<rparr>)))"

text \<open>
  The body after \<open>json.loads\<close>, and \<open>json.loads\<close> itself on a stored value: bytes, text, or anything else, which
  it refuses with a \<open>TypeError\<close>.
\<close>

definition decode_value :: "json \<Rightarrow> py_error + pit_record" where
  "decode_value v =
     bind_result (pit_require_mapping v ''record'') (\<lambda>document.
     bind_result (get_mapping document ''payload'' ''payload'') (\<lambda>payload_value.
     bind_result (get_mapping document ''source'' ''source'') (\<lambda>source_value.
     bind_result (get_mapping document ''validity'' ''validity'') (\<lambda>validity_value.
     bind_result (get_int document ''kind'' ''kind'') (\<lambda>kind_value.
     bind_result (record_kind_of kind_value) (\<lambda>kind.
     bind_result (get_int source_value ''kind'' ''source.kind'') (\<lambda>source_kind_value.
     bind_result (source_kind_from source_kind_value) (\<lambda>source_kind.
     bind_result (get_str source_value ''content_sha256'' ''source.content_sha256'') (\<lambda>digest_text.
     bind_result (case bytes_fromhex digest_text of None \<Rightarrow> Inl (ValueError ''fromhex'') | Some b \<Rightarrow> Inr b) (\<lambda>digest.
     bind_result (decode_payload kind payload_value) (\<lambda>payload.
     bind_result (decode_valid_to validity_value) (\<lambda>valid_to.
     bind_result (get_bool source_value ''authenticated'' ''source.authenticated is not a boolean'') (\<lambda>auth.
     bind_result (get_str document ''record_id'' ''record_id'') (\<lambda>rid.
     bind_result (get_str document ''logical_key'' ''logical_key'') (\<lambda>lkey.
     bind_result (get_int document ''event_time_ns'' ''event_time_ns'') (\<lambda>event.
     bind_result (get_int document ''publication_time_ns'' ''publication_time_ns'') (\<lambda>publication.
     bind_result (get_int document ''receive_time_ns'' ''receive_time_ns'') (\<lambda>receive.
     bind_result (get_int document ''processing_time_ns'' ''processing_time_ns'') (\<lambda>processing.
     bind_result (get_int document ''revision_time_ns'' ''revision_time_ns'') (\<lambda>revision.
     bind_result (get_int validity_value ''valid_from_ns'' ''valid_from_ns'') (\<lambda>valid_from.
     bind_result (construct validity_interval_post_init
       \<lparr>valid_from_ns = valid_from, valid_to_ns = valid_to\<rparr>) (\<lambda>validity.
     bind_result (decode_source source_value source_kind digest auth) (\<lambda>source.
     bind_result (get_int document ''version'' ''version'') (\<lambda>version.
     bind_result (get_str document ''schema_version'' ''schema_version'') (\<lambda>schema.
       construct pit_record_post_init
         \<lparr>record_id = rid, logical_key = lkey, rec_kind = kind, event_time_ns = event,
          publication_time_ns = publication, receive_time_ns = receive, processing_time_ns = processing,
          revision_time_ns = revision, rec_validity = validity, rec_source = source, rec_version = version,
          rec_payload = payload, rec_schema_version = schema\<rparr>)))))))))))))))))))))))))"

definition loads_result :: "loads_error + json \<Rightarrow> py_error + json" where
  "loads_result result = (case result of Inl _ \<Rightarrow> Inl (ValueError ''json'') | Inr v \<Rightarrow> Inr v)"

definition decode_document :: "bytes \<Rightarrow> py_error + pit_record" where
  "decode_document encoded = bind_result (loads_result (json_loads_bytes encoded)) decode_value"

definition corrupt_record :: "py_error + pit_record \<Rightarrow> py_error + pit_record" where
  "corrupt_record result =
     (case result of
        Inr r \<Rightarrow> Inr r
      | Inl (PersistentStoreError m) \<Rightarrow> Inl (PersistentStoreError m)
      | Inl _ \<Rightarrow> Inl (PersistentStoreError ''stored point-in-time record is corrupt''))"

definition record_from_bytes :: "bytes \<Rightarrow> py_error + pit_record" where
  "record_from_bytes encoded = corrupt_record (decode_document encoded)"

section \<open>The round trip of a record\<close>

text \<open>The texts and bytes of a Python record: code points below U+110000 and bytes below 256.\<close>

fun payload_texts :: "record_payload \<Rightarrow> ustr list" where
  "payload_texts (CorporateAction a i t n d) = [a, i]"
| "payload_texts (SymbolMapping s i v) = [s, i, v]"
| "payload_texts (Delisting i r) = [i, r]"
| "payload_texts (IndexMembership x i b) = [x, i]"
| "payload_texts (AnalystEstimateVintage i m f v u) = [i, m, f, u]"
| "payload_texts (MacroVintage s p v u) = [s, p, u]"
| "payload_texts (NewsRevision d c) = d # (case c of None \<Rightarrow> [] | Some t \<Rightarrow> [t])"
| "payload_texts (FilingRevision a f m) = a # f # (case m of None \<Rightarrow> [] | Some t \<Rightarrow> [t])"

definition record_texts :: "pit_record \<Rightarrow> ustr list" where
  "record_texts r =
     [record_id r, logical_key r, rec_schema_version r, source_id (rec_source r), provider (rec_source r),
      source_document_id (rec_source r)] @ payload_texts (rec_payload r)"

definition python_record :: "pit_record \<Rightarrow> bool" where
  "python_record r \<longleftrightarrow> (\<forall>t \<in> set (record_texts r). \<forall>c \<in> set t. c < 1114112) \<and>
     (\<forall>b \<in> set (content_sha256 (rec_source r)). b < 256)"

text \<open>Literal keys: their order is decided character by character, and they are plain text.\<close>

lemma lit_less:
  "lit (x # xs) < lit (y # ys) \<longleftrightarrow> (of_char x :: nat) < of_char y \<or> x = y \<and> lit xs < lit ys"
  "lit [] < lit (y # ys)" "\<not> lit xs < lit []"
  using inj_of_char [where 'a = nat] by (auto simp: lit_def inj_eq)

lemma text_ok_lit [simp]: "text_ok (lit s)"
proof -
  have "(of_char c :: nat) < 1114112 \<and> \<not> is_surrogate (of_char c)" for c
    using nat_of_char_less_256 [of c] by (auto simp: is_surrogate_def simp del: nat_of_char_less_256)
  then show ?thesis by (simp add: text_ok_def lit_def)
qed

lemma bounded_text_ok:
  "bounded_text t n m = None \<Longrightarrow> \<forall>c \<in> set t. c < 1114112 \<Longrightarrow> text_ok t"
  by (auto simp: bounded_text_None utf8_length_def text_ok_def list_ex_iff split: if_splits)

lemma payload_json_wf:
  assumes "payload_post_init p = None" "\<forall>t \<in> set (payload_texts p). \<forall>c \<in> set t. c < 1114112"
  shows "json_wf (payload_json p)"
  using assms
  by (cases p) (auto simp: optional_json_def optional_text_def lit_less
      dest!: bounded_text_ok split: option.splits)

lemma source_json_wf:
  assumes "data_source_post_init s = None" "\<forall>b \<in> set (content_sha256 s). b < 256"
    and "\<forall>t \<in> {source_id s, provider s, source_document_id s}. \<forall>c \<in> set t. c < 1114112"
  shows "json_wf (source_json s)"
  using assms plain_hex_text [OF bytes_hex_plain]
  by (auto simp: source_json_def lit_less data_source_post_init_def dest!: bounded_text_ok)

lemma validity_json_wf: "json_wf (validity_json v)"
  by (simp add: validity_json_def optional_json_def lit_less split: option.splits)

lemma payload_document_wf:
  assumes "pit_record_ok r" "python_record r"
  shows "json_wf (payload_document r)"
proof -
  have texts: "\<forall>t \<in> set (record_texts r). \<forall>c \<in> set t. c < 1114112"
    and digest: "\<forall>b \<in> set (content_sha256 (rec_source r)). b < 256"
    using assms(2) by (simp_all add: python_record_def)
  have parts: "data_source_post_init (rec_source r) = None" "payload_post_init (rec_payload r) = None"
    "bounded_text (record_id r) ''record_id'' MAX_TEXT_BYTES = None"
    "bounded_text (logical_key r) ''logical_key'' MAX_TEXT_BYTES = None"
    using assms(1) unfolding pit_record_ok_def pit_record_post_init_def first_error_None list.set by blast+
  have "json_wf (payload_json (rec_payload r))" "json_wf (source_json (rec_source r))"
    "text_ok (record_id r)" "text_ok (logical_key r)"
    using payload_json_wf [OF parts(2)] source_json_wf [OF parts(1) digest] texts
      bounded_text_ok [OF parts(3)] bounded_text_ok [OF parts(4)]
    by (simp_all add: record_texts_def)
  then show ?thesis
    by (simp add: payload_document_def lit_less validity_json_wf pit_record_ok_identity(5) [OF assms(1)]
        POINT_IN_TIME_SCHEMA_VERSION_def)
qed

lemma record_kind_roundtrip [simp]: "record_kind_of (record_kind_value k) = Inr k"
  by (cases k) (simp_all add: record_kind_of_def enum_of_def)

lemma source_kind_roundtrip [simp]: "source_kind_from (source_kind_value k) = Inr k"
  by (cases k) (simp_all add: source_kind_from_def enum_of_def)

lemma action_type_roundtrip [simp]: "corporate_action_type_of (corporate_action_type_value t) = Inr t"
  by (cases t) (simp_all add: corporate_action_type_of_def enum_of_def)

lemmas reader_defs = get_str_def get_int_def get_mapping_def get_bool_def get_parent_def get_item_def
  pit_require_str_def pit_require_int_def pit_require_mapping_def

text \<open>The fields of a document and what every read of it gives.\<close>

definition document_fields :: "pit_record \<Rightarrow> (ustr \<times> json) list" where
  "document_fields r = (case payload_document r of JObj kvs \<Rightarrow> kvs | _ \<Rightarrow> [])"

definition source_fields :: "data_source \<Rightarrow> (ustr \<times> json) list" where
  "source_fields s = (case source_json s of JObj kvs \<Rightarrow> kvs | _ \<Rightarrow> [])"

definition payload_fields :: "record_payload \<Rightarrow> (ustr \<times> json) list" where
  "payload_fields p = (case payload_json p of JObj kvs \<Rightarrow> kvs | _ \<Rightarrow> [])"

definition validity_fields :: "validity_interval \<Rightarrow> (ustr \<times> json) list" where
  "validity_fields v = (case validity_json v of JObj kvs \<Rightarrow> kvs | _ \<Rightarrow> [])"

lemma payload_json_fields: "payload_json p = JObj (payload_fields p)"
  by (cases p) (simp_all add: payload_fields_def)

lemma document_reads:
  "pit_require_mapping (payload_document r) ''record'' = Inr (document_fields r)"
  "get_mapping (document_fields r) ''payload'' ''payload'' = Inr (payload_fields (rec_payload r))"
  "get_mapping (document_fields r) ''source'' ''source'' = Inr (source_fields (rec_source r))"
  "get_mapping (document_fields r) ''validity'' ''validity'' = Inr (validity_fields (rec_validity r))"
  "get_int (document_fields r) ''kind'' ''kind'' = Inr (record_kind_value (rec_kind r))"
  "get_str (document_fields r) ''record_id'' ''record_id'' = Inr (record_id r)"
  "get_str (document_fields r) ''logical_key'' ''logical_key'' = Inr (logical_key r)"
  "get_int (document_fields r) ''event_time_ns'' ''event_time_ns'' = Inr (event_time_ns r)"
  "get_int (document_fields r) ''publication_time_ns'' ''publication_time_ns'' = Inr (publication_time_ns r)"
  "get_int (document_fields r) ''receive_time_ns'' ''receive_time_ns'' = Inr (receive_time_ns r)"
  "get_int (document_fields r) ''processing_time_ns'' ''processing_time_ns'' = Inr (processing_time_ns r)"
  "get_int (document_fields r) ''revision_time_ns'' ''revision_time_ns'' = Inr (revision_time_ns r)"
  "get_int (document_fields r) ''version'' ''version'' = Inr (rec_version r)"
  "get_str (document_fields r) ''schema_version'' ''schema_version'' = Inr (rec_schema_version r)"
  by (simp_all add: document_fields_def payload_document_def payload_json_fields source_fields_def
      source_json_def validity_fields_def validity_json_def reader_defs)

lemma source_reads:
  "get_int (source_fields s) ''kind'' ''source.kind'' = Inr (source_kind_value (source_kind_of s))"
  "get_str (source_fields s) ''content_sha256'' ''source.content_sha256'' = Inr (bytes_hex (content_sha256 s))"
  "get_bool (source_fields s) ''authenticated'' ''source.authenticated is not a boolean'' = Inr (authenticated s)"
  by (simp_all add: source_fields_def source_json_def reader_defs)

lemma validity_reads:
  "get_int (validity_fields v) ''valid_from_ns'' ''valid_from_ns'' = Inr (valid_from_ns v)"
  "decode_valid_to (validity_fields v) = Inr (valid_to_ns v)"
  by (auto simp: validity_fields_def validity_json_def reader_defs decode_valid_to_def optional_json_def
      split: option.splits)

lemma decode_source_fields:
  "data_source_post_init s = None \<Longrightarrow>
     decode_source (source_fields s) (source_kind_of s) (content_sha256 s) (authenticated s) = Inr s"
  by (cases s) (auto simp: decode_source_def source_fields_def source_json_def reader_defs)

lemma decode_payload_fields:
  "payload_post_init p = None \<Longrightarrow> decode_payload (payload_kind p) (payload_fields p) = Inr p"
  by (cases p) (auto simp: payload_fields_def reader_defs optional_json_def split: option.splits)

lemma decode_document_ok:
  assumes "pit_record_ok r" "python_record r" "json_ints_ok (payload_document r)"
  shows "decode_document (emit (payload_document r)) = Inr r"
proof -
  have parts: "data_source_post_init (rec_source r) = None" "validity_interval_post_init (rec_validity r) = None"
    "payload_post_init (rec_payload r) = None" "pit_record_post_init r = None"
    using assms(1) by (simp_all add: pit_record_ok_def)
  have payload: "decode_payload (rec_kind r) (payload_fields (rec_payload r)) = Inr (rec_payload r)"
    using decode_payload_fields [OF parts(3)] pit_record_ok_identity(1) [OF assms(1)] by simp
  have hex: "bytes_fromhex (bytes_hex (content_sha256 (rec_source r))) = Some (content_sha256 (rec_source r))"
    using assms(2) by (intro bytes_fromhex_hex) (simp add: python_record_def)
  have loaded: "json_loads_bytes (emit (payload_document r)) = Inr (payload_document r)"
    by (rule json_loads_bytes_emit [OF payload_document_wf [OF assms(1,2)] assms(3)])
  have validity: "construct validity_interval_post_init
      \<lparr>valid_from_ns = valid_from_ns (rec_validity r), valid_to_ns = valid_to_ns (rec_validity r)\<rparr> =
      Inr (rec_validity r)"
    using parts(2) by (cases "rec_validity r") (simp add: construct_def)
  show ?thesis
    unfolding decode_document_def loads_result_def decode_value_def loaded sum.case bind_result_simps document_reads source_reads validity_reads
      record_kind_roundtrip source_kind_roundtrip hex option.case payload validity
      decode_source_fields [OF parts(1)]
    using parts(4) by (cases r) (simp add: construct_def)
qed

lemma canonical_bytes_Inr: "canonical_bytes v = Inr b \<longleftrightarrow> json_ints_ok v \<and> b = emit v"
  by (auto simp: canonical_bytes_def json_dumps_def)

lemma corrupt_record_Inr [simp]: "corrupt_record x = Inr r \<longleftrightarrow> x = Inr r"
  by (auto simp: corrupt_record_def split: sum.splits py_error.splits)

lemma corrupt_record_Inl: "corrupt_record x = Inl e \<Longrightarrow> \<exists>message. e = PersistentStoreError message"
  by (auto simp: corrupt_record_def split: sum.splits py_error.splits)

lemma record_from_bytes_Inr: "record_from_bytes b = Inr r \<longleftrightarrow> decode_document b = Inr r"
  by (simp add: record_from_bytes_def)

lemma record_roundtrip:
  assumes "pit_record_ok r" "python_record r" "canonical_bytes (payload_document r) = Inr b"
  shows "record_from_bytes b = Inr r"
  using assms decode_document_ok by (simp add: canonical_bytes_Inr record_from_bytes_Inr)

lemma decode_payload_valid: "decode_payload k d = Inr p \<Longrightarrow> payload_post_init p = None"
  by (cases k) (simp_all, auto)

lemma decode_value_valid: "decode_value v = Inr r \<Longrightarrow> pit_record_ok r"
  unfolding decode_value_def pit_record_ok_def
  by (simp add: decode_source_def) (auto dest: decode_payload_valid)

lemma decode_document_valid: "decode_document b = Inr r \<Longrightarrow> pit_record_ok r"
  unfolding decode_document_def bind_result_Inr by (auto dest: decode_value_valid)

text \<open>
  Claim C18. The round trip of the record codec: whatever \<open>_canonical_bytes(_payload_document(record))\<close> writes,
  \<open>_record_from_bytes\<close> reads back as the same record, every field included, for every record the constructors
  accept (its texts are Python texts and its digest is a byte string).
\<close>

theorem record_codec_roundtrip:
  assumes "pit_record_ok r" "python_record r" "canonical_bytes (payload_document r) = Inr b"
  shows "record_from_bytes b = Inr r"
  by (rule record_roundtrip [OF assms])

definition codec_record :: pit_record where
  "codec_record =
     \<lparr>record_id = [114, 8364, 128512], logical_key = lit ''doc:1'', rec_kind = NEWS_REVISION, event_time_ns = 5,
      publication_time_ns = 6, receive_time_ns = 7, processing_time_ns = 8, revision_time_ns = 9,
      rec_validity = \<lparr>valid_from_ns = 1, valid_to_ns = Some 20\<rparr>,
      rec_source = \<lparr>source_id = lit ''s'', source_kind_of = PUBLIC_SECONDARY, provider = lit ''p'',
        source_document_id = lit ''d'', content_sha256 = replicate 32 255, authenticated = True\<rparr>,
      rec_version = 1, rec_payload = NewsRevision (lit ''doc:1'') None,
      rec_schema_version = POINT_IN_TIME_SCHEMA_VERSION\<rparr>"

theorem record_codec_roundtrip_witness:
  "record_from_bytes (emit (payload_document codec_record)) = Inr codec_record"
proof -
  have ok: "pit_record_ok codec_record"
    by (simp add: codec_record_def pit_record_ok_def data_source_post_init_def validity_interval_post_init_def
        pit_record_post_init_def bounded_text_None optional_text_def utf8_length_def lit_def utf8_width_def
        is_surrogate_def MAX_TEXT_BYTES_def SHA256_BYTES_def validity_contains_def list_ex_iff)
  have py: "python_record codec_record"
    by (simp add: python_record_def record_texts_def codec_record_def POINT_IN_TIME_SCHEMA_VERSION_def lit_def)
  have "json_ints_ok (payload_document codec_record)"
    by (simp add: payload_document_def codec_record_def source_json_def validity_json_def optional_json_def
        nat_dec.simps MAX_INT_DIGITS_def)
  then have "canonical_bytes (payload_document codec_record) = Inr (emit (payload_document codec_record))"
    by (simp only: canonical_bytes_Inr)
  then show ?thesis by (rule record_codec_roundtrip [OF ok py])
qed


end
