(* ===== verification/Sqlite_Store.thy ===== *)
theory Sqlite_Store
  imports Pit_Codec "HOL-Library.Sublist"
begin

text \<open>
  The durable store \<open>PersistentPointInTimeStore\<close> of \<open>python/research/aegis_mx_research/store.py\<close> with the part of
  SQLite its statements use.

  \<^item> A database file (\<open>sqlite_file\<close>) holds its header numbers, the outcome of \<open>quick_check\<close>, the \<open>metadata\<close>
    table and the \<open>records\<close> table; a table that was never created is \<open>None\<close>. A row has the columns of the
    \<open>CREATE TABLE\<close> statement, \<open>record_json\<close> and \<open>record_sha256\<close> with the storage class SQLite gave the value.
  \<^item> A connection (\<open>persistent_store\<close>) reads the file, or the uncommitted copy of an open transaction;
    \<open>BEGIN\<close>, \<open>COMMIT\<close> and \<open>ROLLBACK\<close> create, publish and discard that copy.
  \<^item> The storage is a parameter: at every point where the code calls SQLite or the file system it may raise with
    a message of its own (\<open>storage\<close>); \<open>no_faults\<close> is storage that works. The fault injector of \<open>append\<close> is a
    function from its stage to the exception it raises.
  \<^item> Text is compared by the binary collation: the byte order of UTF-8 is the order of code points. Binding a
    text with a surrogate or an integer beyond 64 bits raises.
\<close>

section \<open>Files, tables and connections\<close>

datatype sql_value = SqlBlob bytes | SqlText ustr | SqlNumber

record sql_row =
  row_sequence :: int
  row_record_id :: ustr
  row_kind :: int
  row_logical_key :: ustr
  row_version :: int
  row_event_time_ns :: int
  row_revision_time_ns :: int
  row_available_at_ns :: int
  row_json :: sql_value
  row_sha256 :: sql_value

text \<open>A table with the greatest \<open>AUTOINCREMENT\<close> value it handed out.\<close>

record records_table =
  tbl_rows :: "sql_row list"
  tbl_sequence :: int

record sqlite_file =
  file_application_id :: int
  file_user_version :: int
  file_quick_check :: string
  file_metadata :: "(string \<times> string) list option"
  file_records :: "records_table option"
  file_indexes :: "string list"

record persistent_store =
  pst_capacity :: int
  pst_closed :: bool
  pst_file :: sqlite_file
  pst_transaction :: "sqlite_file option"

datatype sql_point =
    CONNECT | CONFIGURE | READ_HEADER | CREATE nat | QUICK_CHECK | READ_METADATA
  | BEGIN | COUNT | LOOKUP | PREVIOUS | INSERT | COMMIT | SYNC | ROLLBACK

type_synonym storage = "sql_point \<Rightarrow> string option"

definition no_faults :: storage where
  "no_faults p = None"

definition database_fault :: "storage \<Rightarrow> sql_point \<Rightarrow> py_error option" where
  "database_fault st p = (case st p of None \<Rightarrow> None | Some m \<Rightarrow> Some (DatabaseError m))"

definition text_fault :: "ustr \<Rightarrow> py_error option" where
  "text_fault t = raise_if (list_ex is_surrogate t) UnicodeEncodeError"

definition integer_fault :: "int \<Rightarrow> py_error option" where
  "integer_fault n = raise_if (n < - (2 ^ 63) \<or> 2 ^ 63 \<le> n)
     (OverflowError ''Python int too large to convert to SQLite INTEGER'')"

section \<open>Opening\<close>

definition PERSISTENT_STORE_SCHEMA_VERSION :: string where
  "PERSISTENT_STORE_SCHEMA_VERSION = ''1.0.0''"

definition SQLITE_APPLICATION_ID :: int where
  "SQLITE_APPLICATION_ID = 0x414D5850"

definition MINIMUM_DATABASE_BYTES :: int where
  "MINIMUM_DATABASE_BYTES = 32768"

record path_state =
  path_is_symlink :: bool
  path_exists :: bool
  path_is_file :: bool
  parent_exists :: bool
  parent_is_symlink :: bool

definition validate_path :: "path_state \<Rightarrow> py_error option" where
  "validate_path p = first_error
     [raise_if (path_is_symlink p) (PersistentStoreError ''persistent store path cannot be a symlink''),
      raise_if (parent_exists p \<and> parent_is_symlink p)
        (PersistentStoreError ''persistent store parent cannot be a symlink''),
      raise_if (path_exists p \<and> \<not> path_is_file p)
        (PersistentStoreError ''persistent store path is not a regular file'')]"

definition configure :: "storage \<Rightarrow> int \<Rightarrow> int \<Rightarrow> py_error option" where
  "configure st page_size maximum_bytes = first_error
     [database_fault st CONFIGURE,
      raise_if (maximum_bytes div page_size < 1) (PersistentStoreError ''persistent store page budget is empty'')]"

text \<open>The statements of the creation script, in order; each takes effect as it runs.\<close>

definition create_metadata :: "sqlite_file \<Rightarrow> py_error + sqlite_file" where
  "create_metadata f = (case file_metadata f of
       None \<Rightarrow> Inr (f\<lparr>file_metadata := Some []\<rparr>)
     | Some _ \<Rightarrow> Inl (DatabaseError ''table metadata already exists''))"

definition insert_metadata :: "sqlite_file \<Rightarrow> py_error + sqlite_file" where
  "insert_metadata f = (case file_metadata f of
       None \<Rightarrow> Inl (DatabaseError ''no such table: metadata'')
     | Some kvs \<Rightarrow> if map_of kvs ''schema_version'' = None
         then Inr (f\<lparr>file_metadata := Some ((''schema_version'', PERSISTENT_STORE_SCHEMA_VERSION) # kvs)\<rparr>)
         else Inl (DatabaseError ''UNIQUE constraint failed: metadata.key''))"

definition create_records :: "sqlite_file \<Rightarrow> py_error + sqlite_file" where
  "create_records f = (case file_records f of
       None \<Rightarrow> Inr (f\<lparr>file_records := Some \<lparr>tbl_rows = [], tbl_sequence = 0\<rparr>\<rparr>)
     | Some _ \<Rightarrow> Inl (DatabaseError ''table records already exists''))"

definition create_index :: "string \<Rightarrow> sqlite_file \<Rightarrow> py_error + sqlite_file" where
  "create_index name f =
     (if file_records f = None then Inl (DatabaseError ''no such table: main.records'')
      else if name \<in> set (file_indexes f) then Inl (DatabaseError (''index '' @ name @ '' already exists''))
      else Inr (f\<lparr>file_indexes := file_indexes f @ [name]\<rparr>))"

definition creation_script :: "(sqlite_file \<Rightarrow> py_error + sqlite_file) list" where
  "creation_script =
     [\<lambda>f. Inr (f\<lparr>file_application_id := SQLITE_APPLICATION_ID\<rparr>),
      \<lambda>f. Inr (f\<lparr>file_user_version := 1\<rparr>),
      create_metadata, insert_metadata, create_records,
      create_index ''records_series_idx'', create_index ''records_available_idx'',
      create_index ''records_revision_idx'']"

fun run_script ::
    "storage \<Rightarrow> nat \<Rightarrow> (sqlite_file \<Rightarrow> py_error + sqlite_file) list \<Rightarrow> sqlite_file \<Rightarrow> sqlite_file \<times> py_error option" where
  "run_script st n [] f = (f, None)"
| "run_script st n (statement # rest) f =
     (case database_fault st (CREATE n) of
        Some e \<Rightarrow> (f, Some e)
      | None \<Rightarrow> (case statement f of Inl e \<Rightarrow> (f, Some e) | Inr f' \<Rightarrow> run_script st (Suc n) rest f'))"

definition validate_header :: "storage \<Rightarrow> sqlite_file \<Rightarrow> py_error option" where
  "validate_header st f = first_error
     [database_fault st READ_HEADER,
      raise_if (file_application_id f \<noteq> 0 \<and> file_application_id f \<noteq> SQLITE_APPLICATION_ID)
        (PersistentStoreError ''incompatible SQLite application identifier''),
      raise_if (file_user_version f \<noteq> 0 \<and> file_user_version f \<noteq> 1)
        (PersistentStoreError ''unsupported persistent-store schema version'')]"

definition validate_contents :: "storage \<Rightarrow> sqlite_file \<Rightarrow> py_error option" where
  "validate_contents st f = first_error
     [database_fault st QUICK_CHECK,
      raise_if (file_quick_check f \<noteq> ''ok'') (PersistentStoreError ''persistent store integrity check failed''),
      database_fault st READ_METADATA,
      (case file_metadata f of
         None \<Rightarrow> Some (DatabaseError ''no such table: metadata'')
       | Some kvs \<Rightarrow> raise_if (map_of kvs ''schema_version'' \<noteq> Some PERSISTENT_STORE_SCHEMA_VERSION)
           (PersistentStoreError ''persistent store metadata is incompatible''))]"

definition initialize_or_validate :: "storage \<Rightarrow> sqlite_file \<Rightarrow> sqlite_file \<times> py_error option" where
  "initialize_or_validate st f =
     (case validate_header st f of
        Some e \<Rightarrow> (f, Some e)
      | None \<Rightarrow>
          (case (if file_application_id f = 0 then run_script st 0 creation_script f else (f, None)) of
             (f', Some e) \<Rightarrow> (f', Some e)
           | (f', None) \<Rightarrow> (f', validate_contents st f')))"

text \<open>The handler of \<open>__init__\<close>: an error of its own class passes, an error of SQLite or the system is wrapped.\<close>

definition open_failure :: "py_error \<Rightarrow> py_error" where
  "open_failure e = (case e of
       DatabaseError _ \<Rightarrow> PersistentStoreError ''persistent point-in-time store cannot be opened safely''
     | OSError _ \<Rightarrow> PersistentStoreError ''persistent point-in-time store cannot be opened safely''
     | _ \<Rightarrow> e)"

text \<open>
  \<open>__init__\<close> on the file the path names: the path before and after \<open>mkdir\<close>, the error \<open>mkdir\<close> raised if any,
  the page size of the file. The file after the call is returned with the store or the exception.
\<close>

definition store_open ::
    "storage \<Rightarrow> path_state \<Rightarrow> string option \<Rightarrow> path_state \<Rightarrow> int \<Rightarrow> int \<Rightarrow> int \<Rightarrow> sqlite_file \<Rightarrow>
     sqlite_file \<times> (py_error + persistent_store)" where
  "store_open st path mkdir_error path' page_size capacity maximum_bytes f =
     (case first_error
        [raise_if (capacity \<le> 0) (ValueError ''point-in-time store capacity must be positive''),
         raise_if (maximum_bytes < MINIMUM_DATABASE_BYTES) (ValueError ''persistent store maximum_bytes is too small''),
         validate_path path,
         map_option OSError mkdir_error,
         validate_path path'] of
        Some e \<Rightarrow> (f, Inl e)
      | None \<Rightarrow>
          (case first_error [database_fault st CONNECT, configure st page_size maximum_bytes] of
             Some e \<Rightarrow> (f, Inl (open_failure e))
           | None \<Rightarrow>
               (case initialize_or_validate st f of
                  (f', Some e) \<Rightarrow> (f', Inl (open_failure e))
                | (f', None) \<Rightarrow> (f', Inr \<lparr>pst_capacity = capacity, pst_closed = False, pst_file = f',
                                       pst_transaction = None\<rparr>))))"

section \<open>The connection\<close>

definition ensure_open :: "persistent_store \<Rightarrow> py_error option" where
  "ensure_open s = raise_if (pst_closed s) (PersistentStoreError ''persistent point-in-time store is closed'')"

definition visible_file :: "persistent_store \<Rightarrow> sqlite_file" where
  "visible_file s = (case pst_transaction s of None \<Rightarrow> pst_file s | Some f \<Rightarrow> f)"

text \<open>What a statement on \<open>records\<close> reads, or the error preparing it raises.\<close>

definition records_of :: "persistent_store \<Rightarrow> py_error + records_table" where
  "records_of s =
     (if pst_closed s then Inl (DatabaseError ''Cannot operate on a closed database.'')
      else case file_records (visible_file s) of
          None \<Rightarrow> Inl (DatabaseError ''no such table: records'')
        | Some t \<Rightarrow> Inr t)"

definition sql_begin :: "storage \<Rightarrow> persistent_store \<Rightarrow> py_error + persistent_store" where
  "sql_begin st s =
     (if pst_transaction s \<noteq> None then Inl (DatabaseError ''cannot start a transaction within a transaction'')
      else case database_fault st BEGIN of
          Some e \<Rightarrow> Inl e
        | None \<Rightarrow> Inr (s\<lparr>pst_transaction := Some (pst_file s)\<rparr>))"

definition sql_commit :: "storage \<Rightarrow> persistent_store \<Rightarrow> py_error + persistent_store" where
  "sql_commit st s =
     (case database_fault st COMMIT of
        Some e \<Rightarrow> Inl e
      | None \<Rightarrow> Inr (s\<lparr>pst_file := visible_file s, pst_transaction := None\<rparr>))"

definition rollback :: "storage \<Rightarrow> persistent_store \<Rightarrow> persistent_store \<times> py_error option" where
  "rollback st s =
     (if pst_transaction s = None then (s, None)
      else case database_fault st ROLLBACK of
          Some e \<Rightarrow> (s, Some e)
        | None \<Rightarrow> (s\<lparr>pst_transaction := None\<rparr>, None))"

definition store_close :: "persistent_store \<Rightarrow> persistent_store" where
  "store_close s = (if pst_closed s then s else s\<lparr>pst_transaction := None, pst_closed := True\<rparr>)"

section \<open>Decoding a row\<close>

definition record_from_value :: "sql_value \<Rightarrow> py_error + pit_record" where
  "record_from_value v =
     (case v of
        SqlBlob b \<Rightarrow> record_from_bytes b
      | SqlText t \<Rightarrow> corrupt_record (bind_result
          (case json_loads t of Inl _ \<Rightarrow> Inl (ValueError ''json'') | Inr d \<Rightarrow> Inr d) decode_value)
      | SqlNumber \<Rightarrow> corrupt_record (Inl TypeError))"

definition decode_row :: "sql_row \<Rightarrow> py_error + pit_record" where
  "decode_row w =
     (case (row_json w, row_sha256 w) of
        (SqlBlob encoded, SqlBlob expected) \<Rightarrow>
          if sha256 encoded \<noteq> expected then Inl (PersistentStoreError ''stored record hash does not match'')
          else record_from_bytes encoded
      | _ \<Rightarrow> Inl (PersistentStoreError ''stored record encoding is not binary''))"

section \<open>Appending\<close>

definition row_series :: "sql_row \<Rightarrow> int \<times> ustr" where
  "row_series w = (row_kind w, row_logical_key w)"

definition previous_row :: "sql_row list \<Rightarrow> int \<Rightarrow> ustr \<Rightarrow> sql_row option" where
  "previous_row rows k l =
     (case rev (sort_key row_version (filter (\<lambda>w. row_kind w = k \<and> row_logical_key w = l) rows)) of
        [] \<Rightarrow> None | w # _ \<Rightarrow> Some w)"

definition check_first :: "pit_record \<Rightarrow> py_error option" where
  "check_first r = first_error
     [raise_if (rec_version r \<noteq> 1) (ValueError ''first point-in-time record version must be one''),
      validate_initial_link r]"

definition check_successor :: "pit_record \<Rightarrow> pit_record \<Rightarrow> py_error option" where
  "check_successor r previous = first_error
     [raise_if (rec_version r \<noteq> rec_version previous + 1)
        (ValueError ''point-in-time record versions must be contiguous''),
      raise_if (revision_time_ns r \<le> revision_time_ns previous)
        (ValueError ''point-in-time revision time must increase''),
      validate_revision_link r previous]"

text \<open>The reads of \<open>append\<close> inside its transaction, up to the first fault point.\<close>

definition append_checks :: "storage \<Rightarrow> persistent_store \<Rightarrow> pit_record \<Rightarrow> py_error option" where
  "append_checks st s r =
     (case records_of s of
        Inl e \<Rightarrow> Some e
      | Inr t \<Rightarrow> first_error
          [database_fault st COUNT,
           raise_if (pst_capacity s \<le> int (length (tbl_rows t)))
             (OverflowError ''point-in-time store capacity exhausted''),
           text_fault (record_id r),
           database_fault st LOOKUP,
           raise_if (list_ex (\<lambda>w. row_record_id w = record_id r) (tbl_rows t))
             (ValueError ''duplicate point-in-time record_id''),
           text_fault (logical_key r),
           database_fault st PREVIOUS,
           (case previous_row (tbl_rows t) (record_kind_value (rec_kind r)) (logical_key r) of
              None \<Rightarrow> check_first r
            | Some w \<Rightarrow> (case record_from_value (row_json w) of
                  Inl e \<Rightarrow> Some e
                | Inr previous \<Rightarrow> check_successor r previous))])"

definition new_row :: "int \<Rightarrow> pit_record \<Rightarrow> bytes \<Rightarrow> sql_row" where
  "new_row n r encoded =
     \<lparr>row_sequence = n, row_record_id = record_id r, row_kind = record_kind_value (rec_kind r),
      row_logical_key = logical_key r, row_version = rec_version r, row_event_time_ns = event_time_ns r,
      row_revision_time_ns = revision_time_ns r, row_available_at_ns = available_at_ns r,
      row_json = SqlBlob encoded, row_sha256 = SqlBlob (sha256 encoded)\<rparr>"

definition insert_row :: "storage \<Rightarrow> persistent_store \<Rightarrow> pit_record \<Rightarrow> bytes \<Rightarrow> py_error + persistent_store" where
  "insert_row st s r encoded =
     bind_result (records_of s) (\<lambda>t.
       case first_error
         [text_fault (record_id r), text_fault (logical_key r), integer_fault (rec_version r),
          integer_fault (event_time_ns r), integer_fault (revision_time_ns r), integer_fault (available_at_ns r),
          database_fault st INSERT,
          raise_if (tbl_sequence t = 2 ^ 63 - 1) (DatabaseError ''database or disk is full''),
          raise_if (list_ex (\<lambda>w. row_record_id w = record_id r) (tbl_rows t))
            (DatabaseError ''UNIQUE constraint failed: records.record_id''),
          raise_if (list_ex (\<lambda>w. row_kind w = record_kind_value (rec_kind r) \<and>
              row_logical_key w = logical_key r \<and> row_version w = rec_version r) (tbl_rows t))
            (DatabaseError ''UNIQUE constraint failed: records.kind, records.logical_key, records.version'')] of
         Some e \<Rightarrow> Inl e
       | None \<Rightarrow>
           let n = tbl_sequence t + 1;
               t' = \<lparr>tbl_rows = tbl_rows t @ [new_row n r encoded], tbl_sequence = n\<rparr>
           in Inr (s\<lparr>pst_transaction := Some ((visible_file s)\<lparr>file_records := Some t'\<rparr>)\<rparr>))"

text \<open>The body of the \<open>try\<close> of \<open>append\<close>: the connection as it is when the exception leaves it.\<close>

definition append_body ::
    "storage \<Rightarrow> (string \<Rightarrow> py_error option) \<Rightarrow> persistent_store \<Rightarrow> pit_record \<Rightarrow> bytes \<Rightarrow>
     persistent_store \<times> py_error option" where
  "append_body st inject s r encoded =
     (case sql_begin st s of
        Inl e \<Rightarrow> (s, Some e)
      | Inr s1 \<Rightarrow>
          (case first_error [append_checks st s1 r, inject ''BEFORE_INSERT''] of
             Some e \<Rightarrow> (s1, Some e)
           | None \<Rightarrow>
               (case insert_row st s1 r encoded of
                  Inl e \<Rightarrow> (s1, Some e)
                | Inr s2 \<Rightarrow>
                    (case inject ''AFTER_INSERT_BEFORE_COMMIT'' of
                       Some e \<Rightarrow> (s2, Some e)
                     | None \<Rightarrow>
                         (case sql_commit st s2 of
                            Inl e \<Rightarrow> (s2, Some e)
                          | Inr s3 \<Rightarrow> (s3, map_option OSError (st SYNC)))))))"

definition lower_ascii :: "string \<Rightarrow> string" where
  "lower_ascii t = map (\<lambda>c. if 65 \<le> (of_char c :: nat) \<and> (of_char c :: nat) \<le> 90
     then char_of ((of_char c :: nat) + 32) else c) t"

definition append_failure :: "py_error \<Rightarrow> py_error" where
  "append_failure e = (case e of
       DatabaseError m \<Rightarrow>
         if sublist ''full'' (lower_ascii m) then OverflowError ''persistent point-in-time byte limit reached''
         else PersistentStoreError ''persistent append failed''
     | _ \<Rightarrow> e)"

definition persistent_append ::
    "storage \<Rightarrow> (string \<Rightarrow> py_error option) \<Rightarrow> persistent_store \<Rightarrow> pit_record \<Rightarrow>
     persistent_store \<times> py_error option" where
  "persistent_append st inject s r =
     (case ensure_open s of
        Some e \<Rightarrow> (s, Some e)
      | None \<Rightarrow>
          (case canonical_bytes (payload_document r) of
             Inl e \<Rightarrow> (s, Some e)
           | Inr encoded \<Rightarrow>
               (case append_body st inject s r encoded of
                  (s', None) \<Rightarrow> (s', None)
                | (s', Some e) \<Rightarrow>
                    (case rollback st s' of
                       (s'', Some e') \<Rightarrow> (s'', Some e')
                     | (s'', None) \<Rightarrow> (s'', Some (append_failure e))))))"

definition no_injector :: "string \<Rightarrow> py_error option" where
  "no_injector stage = None"

text \<open>\<open>extend\<close>; every append meets storage of its own.\<close>

fun persistent_extend ::
    "persistent_store \<Rightarrow> (storage \<times> pit_record) list \<Rightarrow> persistent_store \<times> py_error option" where
  "persistent_extend s [] = (s, None)"
| "persistent_extend s ((st, r) # rs) =
     (case persistent_append st no_injector s r of
        (s', Some e) \<Rightarrow> (s', Some e)
      | (s', None) \<Rightarrow> persistent_extend s' rs)"

section \<open>Queries\<close>

text \<open>A statement on \<open>records\<close> with the parameters it binds.\<close>

definition select_rows :: "persistent_store \<Rightarrow> py_error option list \<Rightarrow> py_error + sql_row list" where
  "select_rows s bindings =
     bind_result (records_of s) (\<lambda>t.
       case first_error bindings of Some e \<Rightarrow> Inl e | None \<Rightarrow> Inr (tbl_rows t))"

definition guarded :: "py_error option \<Rightarrow> py_error + 'a \<Rightarrow> py_error + 'a" where
  "guarded check result = (case check of Some e \<Rightarrow> Inl e | None \<Rightarrow> result)"

definition persistent_len :: "persistent_store \<Rightarrow> py_error + int" where
  "persistent_len s = guarded (ensure_open s) (map_result (\<lambda>ws. int (length ws)) (select_rows s []))"

definition persistent_record_by_id :: "persistent_store \<Rightarrow> ustr \<Rightarrow> py_error + pit_record option" where
  "persistent_record_by_id s i =
     guarded (ensure_open s)
       (bind_result (select_rows s [text_fault i]) (\<lambda>ws.
          case find (\<lambda>w. row_record_id w = i) ws of
            None \<Rightarrow> Inr None
          | Some w \<Rightarrow> map_result Some (decode_row w)))"

definition persistent_records_for :: "persistent_store \<Rightarrow> record_kind \<Rightarrow> ustr \<Rightarrow> py_error + pit_record list" where
  "persistent_records_for s k l =
     guarded (ensure_open s)
       (bind_result (select_rows s [text_fault l]) (\<lambda>ws.
          map_list_result decode_row (sort_key row_version
            (filter (\<lambda>w. row_kind w = record_kind_value k \<and> row_logical_key w = l) ws))))"

definition persistent_revisions_after :: "persistent_store \<Rightarrow> int \<Rightarrow> py_error + pit_record list" where
  "persistent_revisions_after s t =
     guarded (validate_timestamp t)
       (bind_result (select_rows s [integer_fault t]) (\<lambda>ws.
          map_list_result decode_row
            (sort_key (\<lambda>w. (row_revision_time_ns w, row_kind w, row_logical_key w, row_version w))
              (filter (\<lambda>w. t < row_revision_time_ns w) ws))))"

text \<open>
  The rows with rank one among the eligible rows of their partition: none of the same kind and key has a greater
  pair of availability and sequence.
\<close>

definition row_available :: "int \<Rightarrow> bool \<Rightarrow> sql_row \<Rightarrow> bool" where
  "row_available t inclusive w \<longleftrightarrow>
     (if inclusive then row_available_at_ns w \<le> t else row_available_at_ns w < t)"

definition rank_one :: "sql_row list \<Rightarrow> sql_row \<Rightarrow> bool" where
  "rank_one eligible w \<longleftrightarrow> list_all (\<lambda>v. row_series v = row_series w \<longrightarrow>
     (row_available_at_ns v, row_sequence v) \<le> (row_available_at_ns w, row_sequence w)) eligible"

definition persistent_snapshot :: "persistent_store \<Rightarrow> int \<Rightarrow> bool \<Rightarrow> py_error + pit_record list" where
  "persistent_snapshot s t inclusive =
     guarded (validate_timestamp t)
       (bind_result (select_rows s [integer_fault t]) (\<lambda>ws.
          let eligible = filter (row_available t inclusive) ws
          in map_list_result decode_row (sort_key row_series (filter (rank_one eligible) eligible))))"

definition persistent_as_known_at :: "persistent_store \<Rightarrow> int \<Rightarrow> py_error + pit_record list" where
  "persistent_as_known_at s t = persistent_snapshot s t True"

definition persistent_latest_available_before :: "persistent_store \<Rightarrow> int \<Rightarrow> py_error + pit_record list" where
  "persistent_latest_available_before s t = persistent_snapshot s t False"

definition persistent_membership_at ::
    "persistent_store \<Rightarrow> int \<Rightarrow> ustr \<Rightarrow> int option \<Rightarrow> py_error + ustr list" where
  "persistent_membership_at s t index known_at_ns =
     map_result (membership_from t index) (persistent_as_known_at s (cutoff_of t known_at_ns))"

definition persistent_symbol_mapping_at ::
    "persistent_store \<Rightarrow> int \<Rightarrow> ustr \<Rightarrow> int option \<Rightarrow> py_error + record_payload option" where
  "persistent_symbol_mapping_at s t wanted known_at_ns =
     map_result (symbol_mapping_from t wanted) (persistent_as_known_at s (cutoff_of t known_at_ns))"

definition persistent_corporate_action_history ::
    "persistent_store \<Rightarrow> ustr \<Rightarrow> int \<Rightarrow> py_error + pit_record list" where
  "persistent_corporate_action_history s instrument known_at_ns =
     map_result (corporate_actions_from instrument) (persistent_as_known_at s known_at_ns)"

definition blob_of :: "sql_value \<Rightarrow> py_error + bytes" where
  "blob_of v = (case v of SqlBlob b \<Rightarrow> Inr b | _ \<Rightarrow> Inl TypeError)"

definition deterministic_hash :: "persistent_store \<Rightarrow> py_error + ustr" where
  "deterministic_hash s =
     guarded (ensure_open s)
       (bind_result (select_rows s []) (\<lambda>ws.
          map_result (\<lambda>digests. bytes_hex (sha256 (concat digests)))
            (map_list_result (\<lambda>w. blob_of (row_sha256 w)) (sort_key row_sequence ws))))"

end
