(* ===== verification/Sqlite_Proofs.thy ===== *)
theory Sqlite_Proofs
  imports Sqlite_Store
begin

text \<open>
  The durable store against the in-memory store.

  \<^item> Rows that hold records, and the refinement relation \<open>refines\<close> between a connection and an in-memory store.
  \<^item> Appending: all or nothing under any fault, exact agreement with the in-memory store without faults, progress
    on retry; \<open>durable_run\<close> is a history of one file with faults, closes and reopenings.
  \<^item> Queries: an interpretation of \<open>knowledge_store\<close>, agreement with the in-memory answers where availability is
    monotone within a series, and the case where the two stores differ.
\<close>

section \<open>Rows that hold records\<close>

named_theorems row_fields \<open>the columns of a row that holds a record\<close>

definition int64 :: "int \<Rightarrow> bool" where
  "int64 n \<longleftrightarrow> - (2 ^ 63) \<le> n \<and> n < 2 ^ 63"

text \<open>A record the durable store can hold: its document prints and its indexed columns fit in 64 bits.\<close>

definition storable :: "pit_record \<Rightarrow> bool" where
  "storable r \<longleftrightarrow> pit_record_ok r \<and> python_record r \<and> json_ints_ok (payload_document r) \<and>
     int64 (rec_version r) \<and> int64 (event_time_ns r) \<and> int64 (revision_time_ns r) \<and> int64 (available_at_ns r)"

definition row_holds :: "sql_row \<Rightarrow> pit_record \<Rightarrow> bool" where
  "row_holds w r \<longleftrightarrow> (\<exists>n. w = new_row n r (emit (payload_document r)))"

abbreviation rows_hold :: "sql_row list \<Rightarrow> pit_record list \<Rightarrow> bool" where
  "rows_hold \<equiv> list_all2 row_holds"

lemma row_holds_fields [row_fields]:
  assumes "row_holds w r"
  shows "row_record_id w = record_id r" "row_kind w = record_kind_value (rec_kind r)"
    "row_logical_key w = logical_key r" "row_version w = rec_version r"
    "row_revision_time_ns w = revision_time_ns r" "row_available_at_ns w = available_at_ns r"
    "row_series w = key_order (series_key r)"
    "row_json w = SqlBlob (emit (payload_document r))"
    "row_sha256 w = SqlBlob (sha256 (emit (payload_document r)))"
  using assms by (auto simp: row_holds_def new_row_def row_series_def key_order_def series_key_def)

lemma row_holds_decode:
  assumes "row_holds w r" "storable r"
  shows "decode_row w = Inr r" "record_from_value (row_json w) = Inr r"
proof -
  have "record_from_bytes (emit (payload_document r)) = Inr r"
    using assms(2) record_roundtrip [of r] by (simp add: storable_def canonical_bytes_Inr)
  then show "decode_row w = Inr r" "record_from_value (row_json w) = Inr r"
    using row_holds_fields(8,9) [OF assms(1)] by (simp_all add: decode_row_def record_from_value_def)
qed

lemma rows_hold_decode:
  assumes "rows_hold ws rs" "\<forall>r \<in> set rs. storable r"
  shows "map_list_result decode_row ws = Inr rs"
  using assms by (auto simp: map_list_result_Inr list_all2_conv_all_nth intro: row_holds_decode)

lemma rows_hold_filter:
  assumes "rows_hold ws rs" "\<And>w r. row_holds w r \<Longrightarrow> P w = Q r"
  shows "rows_hold (filter P ws) (filter Q rs)"
  using assms(1) by induction (auto simp: assms(2))

lemma rows_hold_insort:
  assumes "rows_hold ws rs" "row_holds w r" "\<And>w r. row_holds w r \<Longrightarrow> f w = g r"
  shows "rows_hold (insort_key f w ws) (insort_key g r rs)"
  using assms(1) by induction (auto simp: assms(2,3) assms(3) [OF assms(2)])

lemma rows_hold_sort:
  assumes "rows_hold ws rs" "\<And>w r. row_holds w r \<Longrightarrow> f w = g r"
  shows "rows_hold (sort_key f ws) (sort_key g rs)"
  using assms(1) by induction (auto intro: rows_hold_insort assms(2))

lemma rows_hold_ex:
  assumes "rows_hold ws rs" "\<And>w r. row_holds w r \<Longrightarrow> P w = Q r"
  shows "list_ex P ws \<longleftrightarrow> list_ex Q rs"
  using assms(1) by induction (auto simp: assms(2))

lemma rows_hold_find:
  assumes "rows_hold ws rs" "\<And>w r. row_holds w r \<Longrightarrow> P w = Q r"
  shows "rel_option row_holds (find P ws) (find Q rs)"
  using assms(1) by induction (auto simp: assms(2))

section \<open>A file that holds the log of a store\<close>

definition stored_rows :: "pit_record list \<Rightarrow> sql_row list" where
  "stored_rows rs =
     map (\<lambda>i. new_row (int i + 1) (rs ! i) (emit (payload_document (rs ! i)))) [0..<length rs]"

definition stored_table :: "pit_record list \<Rightarrow> records_table" where
  "stored_table rs = \<lparr>tbl_rows = stored_rows rs, tbl_sequence = int (length rs)\<rparr>"

definition file_ready :: "sqlite_file \<Rightarrow> bool" where
  "file_ready f \<longleftrightarrow> file_application_id f = SQLITE_APPLICATION_ID \<and> file_user_version f = 1 \<and>
     file_quick_check f = ''ok'' \<and>
     (\<exists>kvs. file_metadata f = Some kvs \<and> map_of kvs ''schema_version'' = Some PERSISTENT_STORE_SCHEMA_VERSION)"

definition file_holds :: "sqlite_file \<Rightarrow> pit_record list \<Rightarrow> bool" where
  "file_holds f rs \<longleftrightarrow> file_ready f \<and> file_records f = Some (stored_table rs) \<and> (\<forall>r \<in> set rs. storable r)"

text \<open>The refinement relation: an idle connection to a file that holds the log of an in-memory store.\<close>

definition refines :: "persistent_store \<Rightarrow> pit_store \<Rightarrow> bool" where
  "refines s m \<longleftrightarrow> \<not> pst_closed s \<and> pst_transaction s = None \<and> pst_capacity s = ps_capacity m \<and>
     ps_capacity m < 2 ^ 63 \<and> pit_store_inv m \<and> file_holds (pst_file s) (ps_records m)"

lemma stored_rows_snoc:
  "stored_rows (rs @ [r]) = stored_rows rs @ [new_row (int (length rs) + 1) r (emit (payload_document r))]"
  by (simp add: stored_rows_def nth_append)

lemma length_stored_rows [simp]: "length (stored_rows rs) = length rs"
  by (simp add: stored_rows_def)

lemma stored_rows_hold: "rows_hold (stored_rows rs) rs"
  by (auto simp: list_all2_conv_all_nth stored_rows_def row_holds_def)

lemma stored_rows_nth:
  "i < length rs \<Longrightarrow> stored_rows rs ! i = new_row (int i + 1) (rs ! i) (emit (payload_document (rs ! i)))"
  by (simp add: stored_rows_def)

lemma stored_table_snoc:
  "stored_table (rs @ [r]) = \<lparr>tbl_rows = tbl_rows (stored_table rs) @
       [new_row (tbl_sequence (stored_table rs) + 1) r (emit (payload_document r))],
     tbl_sequence = tbl_sequence (stored_table rs) + 1\<rparr>"
  by (simp add: stored_table_def stored_rows_snoc)

lemma stored_sequences: "map row_sequence (stored_rows rs) = map (\<lambda>i. int i + 1) [0..<length rs]"
  by (intro nth_equalityI) (simp_all add: stored_rows_nth new_row_def)

lemma stored_sorted: "sort_key row_sequence (stored_rows rs) = stored_rows rs"
  by (rule sort_key_id_if_sorted) (simp add: stored_sequences sorted_map)

lemma refines_records_of:
  assumes "refines s m"
  shows "records_of s = Inr (stored_table (ps_records m))"
  using assms by (simp add: refines_def records_of_def visible_file_def file_holds_def)

lemma refines_select:
  assumes "refines s m" "\<forall>c \<in> set bindings. c = None"
  shows "select_rows s bindings = Inr (stored_rows (ps_records m))"
  using assms(2) by (simp add: select_rows_def refines_records_of [OF assms(1)] stored_table_def split: option.splits)

lemma refines_storable: "refines s m \<Longrightarrow> r \<in> set (ps_records m) \<Longrightarrow> storable r"
  by (simp add: refines_def file_holds_def)

lemma refines_open: "refines s m \<Longrightarrow> ensure_open s = None"
  by (simp add: refines_def ensure_open_def)

lemma refines_inv: "refines s m \<Longrightarrow> pit_store_inv m"
  by (simp add: refines_def)

section \<open>Appending refines the in-memory store\<close>

lemma no_fault [simp]: "database_fault no_faults p = None" "no_faults p = None" "no_injector x = None"
  by (simp_all add: database_fault_def no_faults_def no_injector_def)

lemma integer_fault_None [simp]: "integer_fault n = None \<longleftrightarrow> int64 n"
  by (auto simp: integer_fault_def int64_def)

lemma storable_texts:
  assumes "storable r"
  shows "text_fault (record_id r) = None" "text_fault (logical_key r) = None"
  using assms by (auto simp: storable_def pit_record_ok_def pit_record_post_init_def bounded_text_None
      utf8_length_def text_fault_def split: if_splits)

lemma series_rows:
  assumes "pit_store_inv m"
  shows "rows_hold (sort_key row_version (filter (\<lambda>w. row_kind w = record_kind_value k \<and> row_logical_key w = l)
      (stored_rows (ps_records m)))) (series m (k, l))"
proof -
  have "sort_key rec_version (series m (k, l)) = series m (k, l)"
    using lineage_versions [OF pit_store_inv_lineage [OF assms, of "(k, l)"]]
    by (intro sort_key_id_if_sorted strict_sorted_imp_sorted)
  moreover have "rows_hold (filter (\<lambda>w. row_kind w = record_kind_value k \<and> row_logical_key w = l)
      (stored_rows (ps_records m))) (series m (k, l))"
    unfolding series_def by (rule rows_hold_filter [OF stored_rows_hold])
      (auto simp: row_fields series_key_def)
  ultimately show ?thesis
    using rows_hold_sort [of _ _ row_version rec_version] by (metis row_holds_fields(4))
qed

lemma previous_row_series:
  assumes "pit_store_inv m"
  shows "case previous_row (stored_rows (ps_records m)) (record_kind_value k) l of
      None \<Rightarrow> series m (k, l) = []
    | Some w \<Rightarrow> series m (k, l) \<noteq> [] \<and> row_holds w (last (series m (k, l)))"
proof -
  define ws where "ws = sort_key row_version (filter (\<lambda>w. row_kind w = record_kind_value k \<and>
      row_logical_key w = l) (stored_rows (ps_records m)))"
  have holds: "rows_hold ws (series m (k, l))" unfolding ws_def by (rule series_rows [OF assms])
  have prev: "previous_row (stored_rows (ps_records m)) (record_kind_value k) l =
      (if ws = [] then None else Some (last ws))"
    by (cases ws rule: rev_cases) (simp_all add: previous_row_def flip: ws_def)
  show ?thesis
  proof (cases ws rule: rev_cases)
    case Nil
    with holds prev show ?thesis by simp
  next
    case (snoc vs w)
    with holds obtain hs h where "series m (k, l) = hs @ [h]" "row_holds w h"
      by (auto simp: list_all2_append1 list_all2_Cons1)
    with prev snoc show ?thesis by simp
  qed
qed

lemma check_lineage_persistent:
  assumes "pit_store_inv m"
  shows "check_lineage r (ps_by_series m k) =
     (if series m k = [] then check_first r else check_successor r (last (series m k)))"
  by (cases "series m k") (simp_all add: pit_store_inv_by_series [OF assms] check_lineage_def check_first_def
      check_successor_def Let_def)

abbreviation in_transaction :: "persistent_store \<Rightarrow> persistent_store" where
  "in_transaction s \<equiv> s\<lparr>pst_transaction := Some (pst_file s)\<rparr>"

definition extended_file :: "sqlite_file \<Rightarrow> records_table \<Rightarrow> pit_record \<Rightarrow> bytes \<Rightarrow> sqlite_file" where
  "extended_file f t r encoded = f\<lparr>file_records := Some
     \<lparr>tbl_rows = tbl_rows t @ [new_row (tbl_sequence t + 1) r encoded], tbl_sequence = tbl_sequence t + 1\<rparr>\<rparr>"

lemma insert_row_Inr:
  "insert_row st s r encoded = Inr s' \<Longrightarrow>
     \<exists>t. records_of s = Inr t \<and> s' = s\<lparr>pst_transaction := Some (extended_file (visible_file s) t r encoded)\<rparr>"
  by (auto simp: insert_row_def extended_file_def Let_def split: option.splits)

text \<open>Whatever fails, the committed file is the old one or the old one with the one new row.\<close>

lemma append_body_atomic:
  assumes "append_body st inject s r encoded = (s', e)"
  shows "pst_capacity s' = pst_capacity s \<and> pst_closed s' = pst_closed s \<and>
    (pst_file s' = pst_file s \<and> e \<noteq> None \<or>
     (\<exists>t. \<not> pst_closed s \<and> pst_transaction s = None \<and> file_records (pst_file s) = Some t \<and>
       append_checks st (in_transaction s) r = None \<and> pst_transaction s' = None \<and>
       pst_file s' = extended_file (pst_file s) t r encoded \<and> e = map_option OSError (st SYNC)))"
proof (cases "sql_begin st s")
  case (Inl err)
  with assms show ?thesis by (auto simp: append_body_def)
next
  case (Inr s1)
  then have s1: "s1 = in_transaction s" and idle: "pst_transaction s = None"
    by (auto simp: sql_begin_def split: if_splits option.splits)
  show ?thesis
  proof (cases "first_error [append_checks st s1 r, inject ''BEFORE_INSERT'']")
    case (Some err)
    then have "s' = s1 \<and> e = Some err" using assms Inr by (simp add: append_body_def)
    then show ?thesis using s1 by simp
  next
    case None
    then have checks: "append_checks st s1 r = None" by simp
    note rest = assms [unfolded append_body_def Inr sum.case None option.case]
    show ?thesis
    proof (cases "insert_row st s1 r encoded")
      case (Inl err)
      with rest s1 show ?thesis by auto
    next
      case ins: (Inr s2)
      then obtain t where t: "records_of s1 = Inr t"
        and s2: "s2 = s1\<lparr>pst_transaction := Some (extended_file (visible_file s1) t r encoded)\<rparr>"
        using insert_row_Inr by blast
      have base: "\<not> pst_closed s" "file_records (pst_file s) = Some t" "visible_file s1 = pst_file s"
        using t s1 by (auto simp: records_of_def visible_file_def split: if_splits option.splits)
      note end' = rest [unfolded ins sum.case]
      have "s' = s2 \<and> e \<noteq> None \<or> (\<exists>s3. sql_commit st s2 = Inr s3 \<and> s' = s3 \<and> e = map_option OSError (st SYNC))"
        using end' by (simp split: option.splits sum.splits) fastforce+
      then show ?thesis
      proof (elim disjE conjE exE)
        assume "s' = s2" "e \<noteq> None"
        then show ?thesis using s1 s2 by simp
      next
        fix s3 assume c: "sql_commit st s2 = Inr s3" "s' = s3" "e = map_option OSError (st SYNC)"
        then have "s3 = s2\<lparr>pst_file := visible_file s2, pst_transaction := None\<rparr>"
          by (simp add: sql_commit_def split: option.splits)
        then show ?thesis using base checks idle s1 s2 c by (simp add: visible_file_def)
      qed
    qed
  qed
qed

lemma rollback_keeps:
  assumes "rollback st s = (s', e)"
  shows "pst_file s' = pst_file s" "pst_capacity s' = pst_capacity s" "pst_closed s' = pst_closed s"
    "pst_transaction s = None \<Longrightarrow> pst_transaction s' = None \<and> e = None"
    "st ROLLBACK = None \<Longrightarrow> pst_transaction s' = None \<and> e = None"
  using assms by (auto simp: rollback_def database_fault_def split: if_splits option.splits)

lemma append_failure_OSError [simp]: "append_failure (OSError m) = OSError m"
  by (simp add: append_failure_def)

lemma persistent_append_cases:
  assumes "persistent_append st inject s r = (s', e)"
  shows "pst_capacity s' = pst_capacity s \<and> pst_closed s' = pst_closed s \<and>
    (pst_file s' = pst_file s \<and> e \<noteq> None \<or>
     (\<exists>t encoded. \<not> pst_closed s \<and> pst_transaction s = None \<and> file_records (pst_file s) = Some t \<and>
       canonical_bytes (payload_document r) = Inr encoded \<and>
       append_checks st (in_transaction s) r = None \<and> pst_transaction s' = None \<and>
       pst_file s' = extended_file (pst_file s) t r encoded \<and> e = map_option OSError (st SYNC)))"
proof (cases "ensure_open s = None \<and> (\<exists>encoded. canonical_bytes (payload_document r) = Inr encoded)")
  case False
  then consider err where "ensure_open s = Some err"
    | err where "ensure_open s = None" "canonical_bytes (payload_document r) = Inl err"
    by (cases "canonical_bytes (payload_document r)") auto
  then have "\<exists>err. s' = s \<and> e = Some err"
  proof cases
    case 1
    then show ?thesis using assms [unfolded persistent_append_def 1 option.case] by blast
  next
    case 2
    then show ?thesis using assms [unfolded persistent_append_def 2 option.case sum.case] by blast
  qed
  then show ?thesis by auto
next
  case True
  then obtain encoded where enc: "canonical_bytes (payload_document r) = Inr encoded"
    and open': "ensure_open s = None" by blast
  obtain s1 e1 where body: "append_body st inject s r encoded = (s1, e1)" by fastforce
  note atomic = append_body_atomic [OF body]
  show ?thesis
  proof (cases e1)
    case None
    then show ?thesis using assms enc open' body atomic by (auto simp: persistent_append_def)
  next
    case (Some err)
    obtain s2 e2 where undo: "rollback st s1 = (s2, e2)" by fastforce
    note keeps = rollback_keeps [OF undo]
    have out: "s' = s2" "e = (case e2 of Some x \<Rightarrow> Some x | None \<Rightarrow> Some (append_failure err))"
      using assms enc open' body Some undo by (auto simp: persistent_append_def split: option.splits)
    from atomic show ?thesis
    proof (elim conjE disjE exE)
      assume "pst_file s1 = pst_file s" "pst_capacity s1 = pst_capacity s" "pst_closed s1 = pst_closed s"
      then show ?thesis using out keeps by (auto split: option.splits)
    next
      fix t
      assume a: "\<not> pst_closed s" "pst_transaction s = None" "file_records (pst_file s) = Some t"
        "append_checks st (in_transaction s) r = None" "pst_transaction s1 = None"
        "pst_file s1 = extended_file (pst_file s) t r encoded" "e1 = map_option OSError (st SYNC)"
        "pst_capacity s1 = pst_capacity s" "pst_closed s1 = pst_closed s"
      then show ?thesis using out keeps enc Some by (cases "st SYNC") auto
    qed
  qed
qed

section \<open>Agreement with the in-memory store\<close>

lemma begun_records_of:
  assumes "refines s m"
  shows "records_of (in_transaction s) = Inr (stored_table (ps_records m))"
  using assms by (simp add: refines_def records_of_def visible_file_def file_holds_def)

lemma stored_duplicate:
  assumes "pit_store_inv m"
  shows "list_ex (\<lambda>w. row_record_id w = i) (stored_rows (ps_records m)) \<longleftrightarrow> ps_by_id m i \<noteq> None"
proof -
  have "list_ex (\<lambda>w. row_record_id w = i) (stored_rows (ps_records m)) \<longleftrightarrow>
      list_ex (\<lambda>r. record_id r = i) (ps_records m)"
    by (rule rows_hold_ex [OF stored_rows_hold]) (simp add: row_fields)
  also have "\<dots> \<longleftrightarrow> i \<in> record_id ` set (ps_records m)" by (auto simp: list_ex_iff)
  finally show ?thesis using pit_store_inv_fresh [OF assms, of i] by simp
qed

lemma stored_version:
  "list_ex (\<lambda>w. row_kind w = record_kind_value k \<and> row_logical_key w = l \<and> row_version w = v) (stored_rows rs) \<longleftrightarrow>
     list_ex (\<lambda>r. rec_kind r = k \<and> logical_key r = l \<and> rec_version r = v) rs"
  by (rule rows_hold_ex [OF stored_rows_hold]) (simp add: row_fields)

lemma append_checks_memory:
  assumes "refines s m" "storable r"
  shows "append_checks no_faults (in_transaction s) r =
    (case store_append m r of Inl e \<Rightarrow> Some e | Inr _ \<Rightarrow> None)"
proof -
  note inv = refines_inv [OF assms(1)]
  define prior where "prior = (case previous_row (stored_rows (ps_records m)) (record_kind_value (rec_kind r))
      (logical_key r) of None \<Rightarrow> check_first r
    | Some w \<Rightarrow> (case record_from_value (row_json w) of Inl e \<Rightarrow> Some e
        | Inr previous \<Rightarrow> check_successor r previous))"
  have "prior = check_lineage r (ps_by_series m (rec_kind r, logical_key r))"
  proof (cases "previous_row (stored_rows (ps_records m)) (record_kind_value (rec_kind r)) (logical_key r)")
    case None
    then show ?thesis using previous_row_series [OF inv, of "rec_kind r" "logical_key r"]
      by (simp add: prior_def check_lineage_persistent [OF inv])
  next
    case (Some w)
    let ?h = "series m (rec_kind r, logical_key r)"
    have h: "?h \<noteq> []" "row_holds w (last ?h)"
      using previous_row_series [OF inv, of "rec_kind r" "logical_key r"] Some by auto
    then have "storable (last ?h)"
      using last_in_set [OF h(1)] refines_storable [OF assms(1)] by (auto simp: series_def)
    then show ?thesis using Some h row_holds_decode(2) [OF h(2)]
      by (simp add: prior_def check_lineage_persistent [OF inv])
  qed
  moreover have "list_ex (\<lambda>w. row_record_id w = record_id r) (stored_rows (ps_records m)) \<longleftrightarrow>
      ps_by_id m (record_id r) \<noteq> None"
    by (rule stored_duplicate [OF inv])
  moreover have "pst_capacity s = ps_capacity m" using assms(1) by (simp add: refines_def)
  ultimately show ?thesis
    using storable_texts [OF assms(2)]
    by (auto simp: append_checks_def begun_records_of [OF assms(1)] stored_table_def store_append_def Let_def
        first_error.simps raise_if_def simp flip: prior_def split: option.splits)
qed

lemma append_checks_faultless:
  assumes "append_checks st s r = None"
  shows "append_checks no_faults s r = None"
  using assms by (auto simp: append_checks_def split: sum.splits)

lemma append_fresh_version:
  assumes "pit_store_inv m" "pit_record_ok r" "store_append m r = Inr m'" "x \<in> set (ps_records m)"
    and "series_key x = series_key r"
  shows "rec_version x < rec_version r"
proof -
  have "ps_records m' = ps_records m @ [r]" using assms(3) by (simp add: store_append_Inr)
  then have "series m' (series_key r) = series m (series_key r) @ [r]" by (simp add: series_append)
  moreover have "lineage_ok (series m' (series_key r))"
    using pit_store_inv_lineage store_append_inv [OF assms(1-3)] by blast
  moreover have "x \<in> set (series m (series_key r))" using assms(4,5) by (simp add: series_def)
  ultimately show ?thesis using lineage_versions [of "series m' (series_key r)"]
    by (auto simp: sorted_wrt_append)
qed

lemma extended_refines:
  assumes "refines s m" "storable r" "store_append m r = Inr m'"
    and "\<not> pst_closed s'" "pst_transaction s' = None" "pst_capacity s' = pst_capacity s"
    and "pst_file s' = extended_file (pst_file s) (stored_table (ps_records m)) r (emit (payload_document r))"
  shows "refines s' m'"
proof -
  have m': "ps_records m' = ps_records m @ [r]" "ps_capacity m' = ps_capacity m"
    using assms(3) by (auto simp: store_append_Inr)
  have "pit_store_inv m'"
    using store_append_inv [OF refines_inv [OF assms(1)] _ assms(3)] assms(2) by (simp add: storable_def)
  moreover have "file_holds (pst_file s') (ps_records m')"
    using assms(1,2) unfolding m' assms(7) extended_file_def
    by (auto simp: refines_def file_holds_def file_ready_def stored_table_snoc)
  ultimately show ?thesis using assms m' by (simp add: refines_def)
qed

lemma append_any_faults:
  assumes "refines s m" "storable r" "persistent_append st inject s r = (s', e)"
  shows "pst_file s' = pst_file s \<and> e \<noteq> None \<or>
    (\<exists>m'. store_append m r = Inr m' \<and> refines s' m' \<and> e = map_option OSError (st SYNC))"
proof -
  have table: "file_records (pst_file s) = Some (stored_table (ps_records m))"
    using assms(1) by (simp add: refines_def file_holds_def)
  from persistent_append_cases [OF assms(3)] show ?thesis
  proof (elim conjE disjE exE)
    assume "pst_file s' = pst_file s" "e \<noteq> None"
    then show ?thesis by simp
  next
    fix t encoded
    assume a: "file_records (pst_file s) = Some t" "canonical_bytes (payload_document r) = Inr encoded"
      "append_checks st (in_transaction s) r = None" "pst_transaction s' = None"
      "pst_file s' = extended_file (pst_file s) t r encoded" "e = map_option OSError (st SYNC)"
      "pst_capacity s' = pst_capacity s" "pst_closed s' = pst_closed s" "\<not> pst_closed s"
    have "append_checks no_faults (in_transaction s) r = None" by (rule append_checks_faultless [OF a(3)])
    then obtain m' where m': "store_append m r = Inr m'"
      using append_checks_memory [OF assms(1,2)] by (auto split: sum.splits)
    have "refines s' m'"
      using a table by (intro extended_refines [OF assms(1,2) m']) (auto simp: canonical_bytes_Inr)
    then show ?thesis using m' a(6) by blast
  qed
qed

lemma insert_row_memory:
  assumes "refines s m" "storable r" "store_append m r = Inr m'"
  shows "insert_row no_faults (in_transaction s) r encoded =
    Inr (s\<lparr>pst_transaction := Some (extended_file (pst_file s) (stored_table (ps_records m)) r encoded)\<rparr>)"
proof -
  note inv = refines_inv [OF assms(1)]
  have ok: "pit_record_ok r" using assms(2) by (simp add: storable_def)
  have "\<not> list_ex (\<lambda>w. row_record_id w = record_id r) (stored_rows (ps_records m))"
    using assms(3) by (simp add: stored_duplicate [OF inv] store_append_Inr)
  moreover have "\<not> list_ex (\<lambda>w. row_kind w = record_kind_value (rec_kind r) \<and> row_logical_key w = logical_key r \<and>
      row_version w = rec_version r) (stored_rows (ps_records m))"
    unfolding stored_version unfolding list_ex_iff using append_fresh_version [OF inv ok assms(3)]
    by (metis order_less_irrefl series_key_def)
  moreover have "int (length (ps_records m)) \<noteq> 2 ^ 63 - 1"
    using assms(1,3) by (auto simp: refines_def store_append_Inr)
  moreover have "visible_file (in_transaction s) = pst_file s" by (simp add: visible_file_def)
  ultimately show ?thesis
    using storable_texts [OF assms(2)] assms(2)
    by (simp add: insert_row_def begun_records_of [OF assms(1)] stored_table_def extended_file_def Let_def
        storable_def raise_if_def first_error.simps split: option.splits)
qed

lemma store_append_error:
  assumes "pit_store_inv m" "store_append m r = Inl e"
  shows "append_failure e = e"
proof -
  have "e \<noteq> DatabaseError msg" for msg
    using assms(2) by (auto simp: store_append_def check_lineage_persistent [OF assms(1)] check_first_def
        check_successor_def validate_initial_link_def validate_revision_link_def raise_if_def Let_def
        first_error.simps split: if_splits option.splits record_payload.splits)
  then show ?thesis by (simp add: append_failure_def split: py_error.splits)
qed

lemma append_without_faults:
  assumes "refines s m" "storable r"
  shows "case store_append m r of
      Inl e \<Rightarrow> persistent_append no_faults no_injector s r = (s, Some e)
    | Inr m' \<Rightarrow> \<exists>s'. persistent_append no_faults no_injector s r = (s', None) \<and> refines s' m'"
proof -
  have idle: "pst_transaction s = None" using assms(1) by (simp add: refines_def)
  have begin': "sql_begin no_faults s = Inr (in_transaction s)" using idle by (simp add: sql_begin_def)
  have enc: "canonical_bytes (payload_document r) = Inr (emit (payload_document r))"
    using assms(2) by (simp add: canonical_bytes_Inr storable_def)
  note checks = append_checks_memory [OF assms]
  show ?thesis
  proof (cases "store_append m r")
    case (Inl e)
    have "append_body no_faults no_injector s r (emit (payload_document r)) = (in_transaction s, Some e)"
      using Inl checks begin' by (simp add: append_body_def first_error.simps)
    moreover have "rollback no_faults (in_transaction s) = (s, None)"
      using idle by (cases s) (simp add: rollback_def)
    ultimately show ?thesis
      using Inl enc refines_open [OF assms(1)] store_append_error [OF refines_inv [OF assms(1)] Inl]
      by (simp add: persistent_append_def)
  next
    case (Inr m')
    let ?f = "extended_file (pst_file s) (stored_table (ps_records m)) r (emit (payload_document r))"
    have "append_body no_faults no_injector s r (emit (payload_document r)) =
        (s\<lparr>pst_file := ?f, pst_transaction := None\<rparr>, None)"
      using Inr checks begin' insert_row_memory [OF assms Inr]
      by (simp add: append_body_def first_error.simps sql_commit_def visible_file_def)
    then have run: "persistent_append no_faults no_injector s r = (s\<lparr>pst_file := ?f, pst_transaction := None\<rparr>, None)"
      using enc refines_open [OF assms(1)] by (simp add: persistent_append_def)
    have "refines (s\<lparr>pst_file := ?f, pst_transaction := None\<rparr>) m'"
      using assms(1) by (intro extended_refines [OF assms Inr]) (simp_all add: refines_def)
    then show ?thesis using Inr run by auto
  qed
qed

section \<open>Queries over a file that holds a log\<close>

lemma guarded_simps [simp]: "guarded None x = x" "guarded (Some e) x = Inl e"
  by (simp_all add: guarded_def)

lemma guarded_Inr [simp]: "guarded c x = Inr y \<longleftrightarrow> c = None \<and> x = Inr y"
  by (simp add: guarded_def split: option.splits)

lemma persistent_len_memory:
  "refines s m \<Longrightarrow> persistent_len s = Inr (int (length (ps_records m)))"
  by (simp add: persistent_len_def refines_open refines_select)

lemma find_by_id:
  assumes "pit_store_inv m"
  shows "find (\<lambda>r. record_id r = i) (ps_records m) = ps_by_id m i"
proof (cases "find (\<lambda>r. record_id r = i) (ps_records m)")
  case None
  then show ?thesis using pit_store_inv_fresh [OF assms, of i] by (force simp: find_None_iff)
next
  case (Some r)
  then have "r \<in> set (ps_records m) \<and> record_id r = i" by (auto simp: find_Some_iff)
  then show ?thesis using Some pit_store_inv_by_id [OF assms, of i r] by simp
qed

lemma persistent_record_by_id_memory:
  assumes "refines s m" "text_fault i = None"
  shows "persistent_record_by_id s i = Inr (record_by_id m i)"
proof -
  note inv = refines_inv [OF assms(1)]
  have "rel_option row_holds (find (\<lambda>w. row_record_id w = i) (stored_rows (ps_records m)))
      (find (\<lambda>r. record_id r = i) (ps_records m))"
    by (rule rows_hold_find [OF stored_rows_hold]) (simp add: row_fields)
  then have "rel_option row_holds (find (\<lambda>w. row_record_id w = i) (stored_rows (ps_records m))) (ps_by_id m i)"
    by (simp only: find_by_id [OF inv])
  moreover have "decode_row w = Inr r" if "row_holds w r" "ps_by_id m i = Some r" for w r
    using that pit_store_inv_by_id [OF inv, of i r] refines_storable [OF assms(1)] row_holds_decode(1) by blast
  ultimately show ?thesis
    using assms(2) by (auto simp: persistent_record_by_id_def record_by_id_def refines_open [OF assms(1)]
        refines_select [OF assms(1)] option_rel_Some1 option_rel_Some2 split: option.splits)
qed

lemma persistent_records_for_memory:
  assumes "refines s m" "text_fault l = None"
  shows "persistent_records_for s k l = Inr (records_for m k l)"
proof -
  note inv = refines_inv [OF assms(1)]
  have "\<forall>r \<in> set (series m (k, l)). storable r"
    using refines_storable [OF assms(1)] by (simp add: series_def)
  note decoded = rows_hold_decode [OF series_rows [OF inv, of k l] this]
  have "records_for m k l = series m (k, l)"
    by (simp add: records_for_def pit_store_inv_by_series [OF inv])
  then show ?thesis using assms(2) decoded
    by (simp add: persistent_records_for_def refines_open [OF assms(1)] refines_select [OF assms(1)])
qed

lemma persistent_revisions_after_memory:
  assumes "refines s m" "t < 2 ^ 63"
  shows "persistent_revisions_after s t = revisions_after m t"
proof (cases "0 < t")
  case True
  have "rows_hold (sort_key (\<lambda>w. (row_revision_time_ns w, row_kind w, row_logical_key w, row_version w))
      (filter (\<lambda>w. t < row_revision_time_ns w) (stored_rows (ps_records m))))
      (sort_key revision_order (filter (\<lambda>r. t < revision_time_ns r) (ps_records m)))"
    by (intro rows_hold_sort rows_hold_filter stored_rows_hold) (simp_all add: row_fields revision_order_def)
  moreover have "\<forall>r \<in> set (sort_key revision_order (filter (\<lambda>r. t < revision_time_ns r) (ps_records m))). storable r"
    using refines_storable [OF assms(1)] by simp
  ultimately show ?thesis
    using True assms(2) rows_hold_decode
    by (simp add: persistent_revisions_after_def revisions_after_def validate_timestamp_def raise_if_def
        refines_select [OF assms(1)] int64_def)
next
  case False
  then show ?thesis
    by (simp add: persistent_revisions_after_def revisions_after_def validate_timestamp_def raise_if_def)
qed

section \<open>The snapshot of the durable store\<close>

definition snapshot_rows :: "pit_record list \<Rightarrow> int \<Rightarrow> bool \<Rightarrow> sql_row list" where
  "snapshot_rows rs t b =
     (let eligible = filter (row_available t b) (stored_rows rs)
      in sort_key row_series (filter (rank_one eligible) eligible))"

lemma row_available_holds: "row_holds w r \<Longrightarrow> row_available t b w = available_by t b r"
  by (auto simp: row_available_def available_by_def row_fields)

lemma in_stored_rows:
  "w \<in> set (stored_rows rs) \<longleftrightarrow>
     (\<exists>i < length rs. w = new_row (int i + 1) (rs ! i) (emit (payload_document (rs ! i))))"
  by (auto simp: stored_rows_def)

lemma stored_rows_inj:
  assumes "v \<in> set (stored_rows rs)" "w \<in> set (stored_rows rs)" "row_sequence v = row_sequence w"
  shows "v = w"
  using assms by (auto simp: in_stored_rows new_row_def)

lemma in_snapshot_rows:
  "w \<in> set (snapshot_rows rs t b) \<longleftrightarrow> w \<in> set (stored_rows rs) \<and> row_available t b w \<and>
     (\<forall>v \<in> set (stored_rows rs). row_available t b v \<longrightarrow> row_series v = row_series w \<longrightarrow>
        (row_available_at_ns v, row_sequence v) \<le> (row_available_at_ns w, row_sequence w))"
  by (auto simp: snapshot_rows_def Let_def rank_one_def list_all_iff)

text \<open>The records of the selected rows, read back by position.\<close>

definition snapshot_records :: "pit_record list \<Rightarrow> int \<Rightarrow> bool \<Rightarrow> pit_record list" where
  "snapshot_records rs t b = map (\<lambda>w. rs ! nat (row_sequence w - 1)) (snapshot_rows rs t b)"

lemma stored_row_position:
  assumes "w \<in> set (stored_rows rs)"
  shows "row_holds w (rs ! nat (row_sequence w - 1))" "nat (row_sequence w - 1) < length rs"
  using assms by (auto simp: in_stored_rows row_holds_def new_row_def)

lemma snapshot_rows_hold: "rows_hold (snapshot_rows rs t b) (snapshot_records rs t b)"
  by (auto simp: snapshot_records_def list_all2_conv_all_nth in_snapshot_rows
      intro!: stored_row_position(1) dest!: nth_mem)

lemma snapshot_records_storable:
  "\<forall>r \<in> set rs. storable r \<Longrightarrow> \<forall>r \<in> set (snapshot_records rs t b). storable r"
  using stored_row_position(2) by (auto simp: snapshot_records_def in_snapshot_rows)

lemma persistent_snapshot_records:
  assumes "refines s m" "0 < t" "t < 2 ^ 63"
  shows "persistent_snapshot s t b = Inr (snapshot_records (ps_records m) t b)"
proof -
  have "map_list_result decode_row (snapshot_rows (ps_records m) t b) = Inr (snapshot_records (ps_records m) t b)"
    using refines_storable [OF assms(1)]
    by (intro rows_hold_decode snapshot_rows_hold snapshot_records_storable) simp
  then show ?thesis using assms(2,3)
    by (simp add: persistent_snapshot_def validate_timestamp_def raise_if_def refines_select [OF assms(1)]
        int64_def snapshot_rows_def Let_def)
qed

lemma persistent_snapshot_Inr:
  assumes "refines s m"
  shows "persistent_snapshot s t b = Inr rs \<longleftrightarrow> 0 < t \<and> t < 2 ^ 63 \<and> rs = snapshot_records (ps_records m) t b"
proof (cases "0 < t \<and> t < 2 ^ 63")
  case True
  then show ?thesis using persistent_snapshot_records [OF assms] by auto
next
  case False
  have "persistent_snapshot s t b \<noteq> Inr rs"
  proof (cases "0 < t")
    case True
    with False have "integer_fault t \<noteq> None" by (auto simp: int64_def)
    then show ?thesis
      by (auto simp: persistent_snapshot_def select_rows_def split: option.splits)
  qed (simp add: persistent_snapshot_def validate_timestamp_def raise_if_def)
  then show ?thesis using False by auto
qed

text \<open>A record is in the snapshot exactly when no available one of its series has a greater pair of
  availability and position.\<close>

lemma in_snapshot_records:
  "r \<in> set (snapshot_records rs t b) \<longleftrightarrow>
     (\<exists>i < length rs. r = rs ! i \<and> available_by t b r \<and>
        (\<forall>j < length rs. available_by t b (rs ! j) \<longrightarrow> series_key (rs ! j) = series_key r \<longrightarrow>
           (available_at_ns (rs ! j), j) \<le> (available_at_ns r, i)))"
  (is "?lhs \<longleftrightarrow> (\<exists>i < length rs. ?rhs i)")
proof -
  let ?w = "\<lambda>i. new_row (int i + 1) (rs ! i) (emit (payload_document (rs ! i)))"
  have hold: "row_holds (?w i) (rs ! i)" for i by (auto simp: row_holds_def)
  have seq: "row_sequence (?w i) = int i + 1" for i by (simp add: new_row_def)
  have key: "row_series (?w i) = row_series (?w j) \<longleftrightarrow> series_key (rs ! i) = series_key (rs ! j)" for i j
    using row_holds_fields(7) [OF hold]
    by (auto simp: key_order_def series_key_def)
  have all: "(\<forall>v \<in> set (stored_rows rs). Q v) \<longleftrightarrow> (\<forall>j < length rs. Q (?w j))" for Q
    by (auto simp: stored_rows_def)
  have pair: "(row_available_at_ns (?w j), row_sequence (?w j)) \<le> (row_available_at_ns (?w i), row_sequence (?w i)) \<longleftrightarrow>
      (available_at_ns (rs ! j), j) \<le> (available_at_ns (rs ! i), i)" for i j
    by (simp add: row_holds_fields(6) [OF hold] seq)
  have "?w i \<in> set (snapshot_rows rs t b) \<longleftrightarrow> available_by t b (rs ! i) \<and>
      (\<forall>j < length rs. available_by t b (rs ! j) \<longrightarrow> series_key (rs ! j) = series_key (rs ! i) \<longrightarrow>
           (available_at_ns (rs ! j), j) \<le> (available_at_ns (rs ! i), i))" if "i < length rs" for i
    using that unfolding in_snapshot_rows all pair key row_available_holds [OF hold]
    by (auto simp only: in_stored_rows)
  moreover have "?lhs \<longleftrightarrow> (\<exists>i < length rs. r = rs ! i \<and> ?w i \<in> set (snapshot_rows rs t b))"
  proof
    assume ?lhs
    then obtain w where w: "w \<in> set (snapshot_rows rs t b)" "r = rs ! nat (row_sequence w - 1)"
      by (auto simp: snapshot_records_def)
    moreover from w(1) obtain i where "i < length rs" "w = ?w i" using in_snapshot_rows in_stored_rows by blast
    ultimately show "\<exists>i < length rs. r = rs ! i \<and> ?w i \<in> set (snapshot_rows rs t b)"
      by (intro exI [of _ i]) (simp add: seq)
  next
    assume "\<exists>i < length rs. r = rs ! i \<and> ?w i \<in> set (snapshot_rows rs t b)"
    then obtain i where i: "r = rs ! i" "?w i \<in> set (snapshot_rows rs t b)" by blast
    then have "r = rs ! nat (row_sequence (?w i) - 1)" by (simp add: seq)
    with i(2) show ?lhs unfolding snapshot_records_def set_map by (rule image_eqI [rotated])
  qed
  ultimately show ?thesis by auto
qed

lemma rows_hold_map:
  assumes "rows_hold ws rs" "\<And>w r. row_holds w r \<Longrightarrow> f w = g r"
  shows "map f ws = map g rs"
  using assms(1) by induction (auto simp: assms(2))

lemma snapshot_keys:
  "map (\<lambda>r. key_order (series_key r)) (snapshot_records rs t b) = map row_series (snapshot_rows rs t b)"
  by (rule rows_hold_map [OF snapshot_rows_hold, symmetric]) (simp add: row_fields)

lemma snapshot_sorted: "sorted (map (\<lambda>r. key_order (series_key r)) (snapshot_records rs t b))"
  by (simp add: snapshot_keys snapshot_rows_def Let_def)

lemma distinct_stored_rows: "distinct (stored_rows rs)"
proof -
  have "distinct (map row_sequence (stored_rows rs))" by (simp add: stored_sequences distinct_map inj_on_def)
  then show ?thesis by (simp add: distinct_map)
qed

lemma snapshot_distinct: "distinct (map series_key (snapshot_records rs t b))"
proof -
  have "inj_on row_series (set (snapshot_rows rs t b))"
  proof (rule inj_onI)
    fix v w assume a: "v \<in> set (snapshot_rows rs t b)" "w \<in> set (snapshot_rows rs t b)" "row_series v = row_series w"
    then have "(row_available_at_ns v, row_sequence v) \<le> (row_available_at_ns w, row_sequence w)"
      "(row_available_at_ns w, row_sequence w) \<le> (row_available_at_ns v, row_sequence v)"
      unfolding in_snapshot_rows by simp_all
    then have "row_sequence v = row_sequence w" by auto
    then show "v = w" using a unfolding in_snapshot_rows by (blast intro: stored_rows_inj)
  qed
  then have "distinct (map row_series (snapshot_rows rs t b))"
    by (simp add: distinct_map) (simp add: snapshot_rows_def Let_def distinct_stored_rows)
  then have "distinct (map key_order (map series_key (snapshot_records rs t b)))"
    by (simp add: comp_def flip: snapshot_keys)
  then show ?thesis by (simp only: distinct_map)
qed

lemma snapshot_complete:
  assumes "r \<in> set rs" "available_by t b r"
  shows "series_key r \<in> series_key ` set (snapshot_records rs t b)"
proof -
  define P where "P = (\<lambda>j. (available_at_ns (rs ! j), j)) `
    {j. j < length rs \<and> available_by t b (rs ! j) \<and> series_key (rs ! j) = series_key r}"
  have "finite P" by (simp add: P_def)
  moreover have "P \<noteq> {}" using assms by (auto simp: P_def in_set_conv_nth)
  ultimately have max: "Max P \<in> P" "\<forall>p \<in> P. p \<le> Max P" by simp_all
  from max(1) obtain i where i: "i < length rs" "available_by t b (rs ! i)" "series_key (rs ! i) = series_key r"
    and "Max P = (available_at_ns (rs ! i), i)" unfolding P_def by blast
  with max(2) have "\<forall>p \<in> P. p \<le> (available_at_ns (rs ! i), i)" by simp
  with i have "rs ! i \<in> set (snapshot_records rs t b)"
    unfolding in_snapshot_records by (intro exI [of _ i]) (auto simp: P_def)
  then show ?thesis using i(3) by (metis image_eqI)
qed

section \<open>The durable store keeps the contract of a snapshot\<close>

definition refined :: "persistent_store \<Rightarrow> bool" where
  "refined s \<longleftrightarrow> (\<exists>m. refines s m)"

definition persistent_log :: "persistent_store \<Rightarrow> pit_record list" where
  "persistent_log s =
     (case bind_result (select_rows s []) (map_list_result decode_row) of Inl _ \<Rightarrow> [] | Inr rs \<Rightarrow> rs)"

lemma persistent_log_memory:
  assumes "refines s m"
  shows "persistent_log s = ps_records m"
  using rows_hold_decode [OF stored_rows_hold, of "ps_records m"] refines_storable [OF assms]
  by (simp add: persistent_log_def refines_select [OF assms])

interpretation durable: knowledge_store persistent_log persistent_snapshot refined "\<lambda>t. 0 < t \<and> t < 2 ^ 63"
proof
  fix s b and t :: int
  assume "refined s" "0 < t \<and> t < 2 ^ 63"
  then show "\<exists>rs. persistent_snapshot s t b = Inr rs"
    using persistent_snapshot_records by (auto simp: refined_def)
next
  fix s t b rs r
  assume "refined s" and snap: "persistent_snapshot s t b = Inr rs"
  then obtain m where m: "refines s m" and rs: "rs = snapshot_records (ps_records m) t b"
    by (auto simp: refined_def persistent_snapshot_Inr)
  note log = persistent_log_memory [OF m]
  show "r \<in> set rs \<Longrightarrow> r \<in> set (persistent_log s) \<and> available_by t b r"
    by (auto simp: rs in_snapshot_records log)
  show "r \<in> set (persistent_log s) \<Longrightarrow> available_by t b r \<Longrightarrow> series_key r \<in> series_key ` set rs"
    unfolding rs log by (rule snapshot_complete)
  show "distinct (map series_key rs)" "sorted (map (\<lambda>r. key_order (series_key r)) rs)"
    unfolding rs by (rule snapshot_distinct snapshot_sorted)+
next
  fix s r
  assume "refined s" "r \<in> set (persistent_log s)"
  then obtain m where "refines s m" "r \<in> set (ps_records m)" by (auto simp: refined_def persistent_log_memory)
  then show "pit_record_ok r" using refines_storable by (auto simp: storable_def)
qed

section \<open>Agreement of the snapshots\<close>

text \<open>Availability does not decrease from a version to the next within a series.\<close>

definition availability_monotone :: "pit_record list \<Rightarrow> bool" where
  "availability_monotone rs \<longleftrightarrow>
     sorted_wrt (\<lambda>a b. series_key a = series_key b \<longrightarrow> available_at_ns a \<le> available_at_ns b) rs"

lemma last_per_key_position:
  assumes "i < length rs" "P (rs ! i)"
    and "\<And>j. i < j \<Longrightarrow> j < length rs \<Longrightarrow> P (rs ! j) \<Longrightarrow> key (rs ! j) \<noteq> key (rs ! i)"
  shows "last_per_key key (filter P rs) (key (rs ! i)) = Some (rs ! i)"
proof -
  have "filter (\<lambda>x. key x = key (rs ! i)) (filter P (drop (Suc i) rs)) = []"
    using assms(3) by (auto simp: filter_empty_conv in_set_conv_nth)
  then have "filter (\<lambda>x. key x = key (rs ! i)) (filter P rs) =
      filter (\<lambda>x. key x = key (rs ! i)) (filter P (take i rs)) @ [rs ! i]"
    using assms(1,2) by (subst id_take_nth_drop [OF assms(1)]) simp
  then show ?thesis by (simp add: last_per_key_def del: filter_filter)
qed

lemma key_order_inj: "inj key_order"
  by (rule injI) (auto simp: key_order_def prod_eq_iff)

lemma snapshot_records_memory:
  assumes "refines s m" "availability_monotone (ps_records m)" "0 < t"
  shows "snapshot m t b = Inr (snapshot_records (ps_records m) t b)"
proof -
  let ?rs = "ps_records m"
  obtain mem where mem: "snapshot m t b = Inr mem" using assms(3) by (simp add: snapshot_collect)
  note inv = refines_inv [OF assms(1)]
  have sub: "r \<in> set mem" if r: "r \<in> set (snapshot_records ?rs t b)" for r
  proof -
    from r obtain i where i: "i < length ?rs" "r = ?rs ! i" "available_by t b r"
      "\<And>j. j < length ?rs \<Longrightarrow> available_by t b (?rs ! j) \<Longrightarrow> series_key (?rs ! j) = series_key r \<Longrightarrow>
         (available_at_ns (?rs ! j), j) \<le> (available_at_ns r, i)"
      unfolding in_snapshot_records by blast
    have "series_key (?rs ! j) \<noteq> series_key (?rs ! i)"
      if "i < j" "j < length ?rs" "available_by t b (?rs ! j)" for j
    proof
      assume same: "series_key (?rs ! j) = series_key (?rs ! i)"
      with assms(2) that i(1) have "available_at_ns (?rs ! i) \<le> available_at_ns (?rs ! j)"
        unfolding availability_monotone_def sorted_wrt_iff_nth_less by metis
      with i(4) [OF that(2,3)] same i(2) that(1) show False by auto
    qed
    then have "last_per_key series_key (filter (available_by t b) ?rs) (series_key (?rs ! i)) = Some (?rs ! i)"
      using i by (intro last_per_key_position) auto
    then show ?thesis using in_snapshot [OF mem] i(2) by simp
  qed
  have "mem = snapshot_records ?rs t b"
  proof (rule sorted_distinct_keys_unique [of key_order series_key])
    show "set mem = set (snapshot_records ?rs t b)"
    proof (intro equalityI subsetI)
      fix r assume r: "r \<in> set mem"
      from mem.snap_sound [OF inv mem r] snapshot_complete [of r ?rs t b]
      obtain r' where r': "r' \<in> set (snapshot_records ?rs t b)" "series_key r' = series_key r" by force
      have "inj_on series_key (set mem)" using mem.snap_distinct [OF inv mem] by (simp add: distinct_map)
      with r' r sub [OF r'(1)] have "r' = r" by (auto dest: inj_onD)
      then show "r \<in> set (snapshot_records ?rs t b)" using r' by simp
    qed (rule sub)
  qed (use mem.snap_sorted [OF inv mem] mem.snap_distinct [OF inv mem] key_order_inj snapshot_sorted snapshot_distinct
      in simp_all)
  then show ?thesis using mem by simp
qed

lemma persistent_snapshot_memory:
  assumes "refines s m" "availability_monotone (ps_records m)" "t < 2 ^ 63"
  shows "persistent_snapshot s t b = snapshot m t b"
proof (cases "0 < t")
  case True
  then show ?thesis using persistent_snapshot_records [OF assms(1)] snapshot_records_memory [OF assms(1,2)] assms(3)
    by simp
next
  case False
  then show ?thesis by (simp add: persistent_snapshot_def snapshot_def validate_timestamp_def raise_if_def)
qed

section \<open>Runs of a durable store\<close>

text \<open>What SQLite reports of a file that does not exist yet.\<close>

definition new_file :: sqlite_file where
  "new_file = \<lparr>file_application_id = 0, file_user_version = 0, file_quick_check = ''ok'', file_metadata = None,
     file_records = None, file_indexes = []\<rparr>"

lemma run_script_faultless:
  "run_script st n stmts f = (f', None) \<Longrightarrow> run_script no_faults n stmts f = (f', None)"
  by (induction stmts arbitrary: n f) (auto split: option.splits sum.splits)

lemma store_open_Inr:
  assumes "store_open st p mk p' page_size capacity maximum_bytes f = (f', Inr s)"
  shows "s = \<lparr>pst_capacity = capacity, pst_closed = False, pst_file = f', pst_transaction = None\<rparr>"
    and "initialize_or_validate st f = (f', None)" and "0 < capacity"
proof -
  have "\<not> capacity \<le> 0"
  proof
    assume "capacity \<le> 0"
    then show False using assms by (simp add: store_open_def first_error.simps raise_if_def)
  qed
  then show "0 < capacity" by simp
  show "s = \<lparr>pst_capacity = capacity, pst_closed = False, pst_file = f', pst_transaction = None\<rparr>"
    and "initialize_or_validate st f = (f', None)"
    using assms by (auto simp: store_open_def split: option.splits prod.splits)
qed

lemma initialize_new:
  assumes "initialize_or_validate st new_file = (f, None)"
  shows "file_holds f []"
proof -
  obtain e where run: "run_script st 0 creation_script new_file = (f, e)" "e = None"
    using assms by (auto simp: initialize_or_validate_def new_file_def split: option.splits prod.splits)
  then have "run_script no_faults 0 creation_script new_file = (f, None)" by (simp add: run_script_faultless)
  then show ?thesis
    by (auto simp: creation_script_def new_file_def create_metadata_def insert_metadata_def create_records_def
        create_index_def file_holds_def file_ready_def stored_table_def stored_rows_def)
qed

lemma initialize_ready:
  assumes "initialize_or_validate st f = (f', None)" "file_ready f"
  shows "f' = f"
  using assms by (auto simp: initialize_or_validate_def file_ready_def SQLITE_APPLICATION_ID_def
      split: option.splits prod.splits)

text \<open>
  A history of one file: it is created, records are appended under any storage faults and injected exceptions,
  the store is closed, and the file is opened again, with the same capacity, by a connection that sees what was
  committed, after a clean close as after a crash.
\<close>

inductive durable_run :: "persistent_store \<Rightarrow> bool" where
  create: "store_open st p mk p' page_size capacity maximum_bytes new_file = (f, Inr s) \<Longrightarrow> capacity < 2 ^ 63 \<Longrightarrow>
    durable_run s"
| append: "durable_run s \<Longrightarrow> storable r \<Longrightarrow> persistent_append st inject s r = (s', e) \<Longrightarrow> durable_run s'"
| close: "durable_run s \<Longrightarrow> durable_run (store_close s)"
| reopen: "durable_run s \<Longrightarrow>
    store_open st p mk p' page_size (pst_capacity s) maximum_bytes (pst_file s) = (f, Inr s') \<Longrightarrow> durable_run s'"

definition holds_history :: "persistent_store \<Rightarrow> pit_store \<Rightarrow> bool" where
  "holds_history s m \<longleftrightarrow> pit_reachable m \<and> ps_capacity m = pst_capacity s \<and> pst_capacity s < 2 ^ 63 \<and>
     file_holds (pst_file s) (ps_records m)"

lemma holds_history_refines:
  "holds_history s m \<Longrightarrow> \<not> pst_closed s \<Longrightarrow> pst_transaction s = None \<Longrightarrow> refines s m"
  by (simp add: holds_history_def refines_def pit_reachable_inv)

lemma append_history:
  assumes "holds_history s m" "storable r" "persistent_append st inject s r = (s', e)"
  shows "\<exists>m'. holds_history s' m'"
proof -
  have keep: "pst_capacity s' = pst_capacity s" using persistent_append_cases [OF assms(3)] by simp
  show ?thesis
  proof (cases "pst_file s' = pst_file s")
    case True
    then show ?thesis using assms(1) keep by (auto simp: holds_history_def)
  next
    case False
    then have "\<not> pst_closed s" "pst_transaction s = None" using persistent_append_cases [OF assms(3)] by auto
    then have "refines s m" by (rule holds_history_refines [OF assms(1)])
    then obtain m' where m': "store_append m r = Inr m'" "refines s' m'"
      using append_any_faults [OF _ assms(2,3)] False by blast
    have "pit_reachable m'"
      using assms(1,2) m'(1) by (auto simp: holds_history_def storable_def intro: pit_reachable.append)
    then show ?thesis using m'(2) by (auto simp: holds_history_def refines_def)
  qed
qed

lemma durable_run_history: "durable_run s \<Longrightarrow> \<exists>m. holds_history s m"
proof (induction rule: durable_run.induct)
  case (create st p mk p' page_size capacity maximum_bytes f s)
  note opened = store_open_Inr [OF create(1)]
  obtain m where m: "pit_store_init capacity = Inr m" using opened(3) by (simp add: pit_store_init_def)
  then have "pit_reachable m" "ps_records m = []" "ps_capacity m = capacity"
    by (auto simp: pit_store_init_def intro: pit_reachable.init split: if_splits)
  then show ?case using initialize_new [OF opened(2)] opened(1) create(2) by (auto simp: holds_history_def)
next
  case (append s r st inject s' e)
  then show ?case using append_history by blast
next
  case (close s)
  then show ?case by (auto simp: holds_history_def store_close_def)
next
  case (reopen s st p mk p' page_size maximum_bytes f s')
  note opened = store_open_Inr [OF reopen(2)]
  from reopen(3) obtain m where m: "holds_history s m" by blast
  then have "f = pst_file s"
    by (intro initialize_ready [OF opened(2)]) (simp add: holds_history_def file_holds_def)
  then show ?case using m opened(1) by (auto simp: holds_history_def)
qed

section \<open>Retrying after a failure\<close>

lemma persistent_append_idle:
  assumes "persistent_append st inject s r = (s', e)" "pst_transaction s = None" "st ROLLBACK = None"
  shows "pst_transaction s' = None"
proof (cases "pst_file s' = pst_file s \<and> e \<noteq> None")
  case False
  then show ?thesis using persistent_append_cases [OF assms(1)] by auto
next
  case True
  then obtain err where e: "e = Some err" by blast
  show ?thesis
  proof (cases "ensure_open s = None \<and> (\<exists>encoded. canonical_bytes (payload_document r) = Inr encoded)")
    case False
    then have "s' = s" using assms(1)
      by (cases "canonical_bytes (payload_document r)") (auto simp: persistent_append_def split: option.splits)
    then show ?thesis using assms(2) by simp
  next
    case True
    then obtain encoded where enc: "canonical_bytes (payload_document r) = Inr encoded" "ensure_open s = None"
      by blast
    obtain s1 e1 where body: "append_body st inject s r encoded = (s1, e1)" by fastforce
    obtain s2 e2 where undo: "rollback st s1 = (s2, e2)" by fastforce
    have "s' = s2" using assms(1) enc body undo e by (auto simp: persistent_append_def split: option.splits)
    then show ?thesis using rollback_keeps(5) [OF undo assms(3)] by simp
  qed
qed

lemma append_again:
  assumes "store_append m r = Inr m'"
  shows "\<exists>e. store_append m' r = Inl e"
  using assms by (auto simp: store_append_def Let_def split: if_splits option.splits)

lemma append_retry:
  assumes "refines s m" "storable r" "store_append m r = Inr m'" "st ROLLBACK = None"
    and "persistent_append st inject s r = (s1, Some e1)"
  shows "\<exists>s2 e2. persistent_append no_faults no_injector s1 r = (s2, e2) \<and> refines s2 m' \<and>
    (e2 = None \<or> (\<exists>message. e1 = OSError message))"
proof -
  have idle: "pst_transaction s1 = None"
    using persistent_append_idle [OF assms(5) _ assms(4)] assms(1) by (simp add: refines_def)
  have keep: "pst_capacity s1 = pst_capacity s" "pst_closed s1 = pst_closed s"
    using persistent_append_cases [OF assms(5)] by auto
  from append_any_faults [OF assms(1,2,5)] show ?thesis
  proof (elim disjE conjE exE)
    assume "pst_file s1 = pst_file s"
    then have "refines s1 m" using assms(1) idle keep by (simp add: refines_def)
    then show ?thesis using append_without_faults [OF _ assms(2), of s1 m] assms(3) by auto
  next
    fix m'' assume m'': "store_append m r = Inr m''" "refines s1 m''" "Some e1 = map_option OSError (st SYNC)"
    then have "m'' = m'" using assms(3) by simp
    moreover obtain err where "store_append m' r = Inl err" using append_again [OF assms(3)] by blast
    ultimately have "persistent_append no_faults no_injector s1 r = (s1, Some err)"
      using append_without_faults [OF m''(2) assms(2)] by simp
    then show ?thesis using m'' \<open>m'' = m'\<close> by (cases "st SYNC") auto
  qed
qed

section \<open>What a read verifies\<close>

text \<open>A row whose digest matches its bytes and whose bytes decode to the record.\<close>

definition verified_in :: "persistent_store \<Rightarrow> (sql_row \<Rightarrow> bool) \<Rightarrow> pit_record \<Rightarrow> bool" where
  "verified_in s P r \<longleftrightarrow> pit_record_ok r \<and> (\<exists>t w encoded. records_of s = Inr t \<and> w \<in> set (tbl_rows t) \<and> P w \<and>
     row_json w = SqlBlob encoded \<and> row_sha256 w = SqlBlob (sha256 encoded) \<and> record_from_bytes encoded = Inr r)"

lemma decode_row_Inr:
  "decode_row w = Inr r \<longleftrightarrow> (\<exists>encoded. row_json w = SqlBlob encoded \<and> row_sha256 w = SqlBlob (sha256 encoded) \<and>
     record_from_bytes encoded = Inr r)"
  by (auto simp: decode_row_def split: sql_value.splits)

lemma select_rows_Inr: "select_rows s cs = Inr ws \<longleftrightarrow>
    (\<exists>t. records_of s = Inr t \<and> ws = tbl_rows t \<and> first_error cs = None)"
  by (cases "first_error cs") (auto simp: select_rows_def simp del: first_error_None)

lemma decoded_verified:
  assumes "select_rows s cs = Inr ws" "set vs \<subseteq> {w \<in> set ws. P w}" "map_list_result decode_row vs = Inr rs"
    "r \<in> set rs"
  shows "verified_in s P r"
proof -
  from assms(4) obtain j where "j < length rs" "r = rs ! j" by (auto simp: in_set_conv_nth)
  then have w: "vs ! j \<in> set vs" "decode_row (vs ! j) = Inr r"
    using assms(3) by (auto simp: map_list_result_Inr list_all2_conv_all_nth)
  then obtain encoded where e: "row_json (vs ! j) = SqlBlob encoded"
    "row_sha256 (vs ! j) = SqlBlob (sha256 encoded)" "record_from_bytes encoded = Inr r"
    by (auto simp: decode_row_Inr)
  moreover have "pit_record_ok r" using e(3) decode_document_valid by (simp add: record_from_bytes_Inr)
  ultimately show ?thesis using w(1) assms(1,2) unfolding verified_in_def select_rows_Inr by blast
qed

lemma snapshot_verified:
  assumes "persistent_snapshot s t b = Inr rs" "r \<in> set rs"
  shows "verified_in s (row_available t b) r"
proof -
  obtain ws where a: "select_rows s [integer_fault t] = Inr ws"
    "map_list_result decode_row (sort_key row_series (filter (rank_one (filter (row_available t b) ws))
       (filter (row_available t b) ws))) = Inr rs"
    using assms(1) unfolding persistent_snapshot_def Let_def guarded_Inr bind_result_Inr by blast
  show ?thesis using assms(2) by (intro decoded_verified [OF a(1) _ a(2)]) auto
qed

lemma deterministic_hash_memory:
  assumes "refines s m"
  shows "deterministic_hash s =
    Inr (bytes_hex (sha256 (concat (map (\<lambda>r. sha256 (emit (payload_document r))) (ps_records m)))))"
proof -
  have "map_list_result (\<lambda>w. blob_of (row_sha256 w)) (stored_rows (ps_records m)) =
      Inr (map (\<lambda>r. sha256 (emit (payload_document r))) (ps_records m))"
    using stored_rows_hold [of "ps_records m"]
    by (auto simp: map_list_result_Inr list_all2_conv_all_nth row_fields blob_of_def)
  then show ?thesis
    by (simp add: deterministic_hash_def refines_open [OF assms] refines_select [OF assms] stored_sorted)
qed

section \<open>Both stores on one example\<close>

definition ready_file :: "pit_record list \<Rightarrow> sqlite_file" where
  "ready_file rs = \<lparr>file_application_id = SQLITE_APPLICATION_ID, file_user_version = 1, file_quick_check = ''ok'',
     file_metadata = Some [(''schema_version'', PERSISTENT_STORE_SCHEMA_VERSION)],
     file_records = Some (stored_table rs), file_indexes = []\<rparr>"

definition durable_of :: "pit_store \<Rightarrow> persistent_store" where
  "durable_of m = \<lparr>pst_capacity = ps_capacity m, pst_closed = False, pst_file = ready_file (ps_records m),
     pst_transaction = None\<rparr>"

lemma refines_durable_of:
  "pit_store_inv m \<Longrightarrow> ps_capacity m < 2 ^ 63 \<Longrightarrow> \<forall>r \<in> set (ps_records m). storable r \<Longrightarrow> refines (durable_of m) m"
  by (simp add: refines_def durable_of_def file_holds_def file_ready_def ready_file_def)

text \<open>A first version processed only after the second one became available.\<close>

definition late_store :: pit_store where
  "late_store = \<lparr>ps_capacity = 4,
     ps_records = [ex_member ''m1'' 1 5 100 True, ex_member ''m2'' 2 15 50 False],
     ps_by_id = [lit ''m1'' \<mapsto> ex_member ''m1'' 1 5 100 True, lit ''m2'' \<mapsto> ex_member ''m2'' 2 15 50 False],
     ps_by_series = [(INDEX_MEMBERSHIP, lit ''SPX:AAA'') \<mapsto>
        [ex_member ''m1'' 1 5 100 True, ex_member ''m2'' 2 15 50 False]]\<rparr>"

lemma ex_member_storable:
  assumes "i \<in> {''m1'', ''m2''}" "0 < ver" "ver < 10" "2 \<le> processed" "processed < 1000" "2 \<le> revised" "revised < 1000"
  shows "storable (ex_member i ver revised processed incl)"
proof -
  have small: "length (nat_dec n) \<le> MAX_INT_DIGITS" if "n < 1000" for n
  proof -
    have "n < 10 \<or> n div 10 < 10 \<or> n div 10 div 10 < 10" using that by auto
    then show ?thesis using that
      by (subst nat_dec.simps, subst nat_dec.simps, subst nat_dec.simps) (simp add: MAX_INT_DIGITS_def)
  qed
  have "pit_record_ok (ex_member i ver revised processed incl)"
    using assms
    by (auto simp: ex_defs pit_record_ok_def data_source_post_init_def validity_interval_post_init_def
      pit_record_post_init_def bounded_text_None utf8_length_def lit_def utf8_width_def
      is_surrogate_def MAX_TEXT_BYTES_def SHA256_BYTES_def validity_contains_def list_ex_iff)
  moreover have "python_record (ex_member i ver revised processed incl)"
    using assms(1) by (auto simp: python_record_def record_texts_def ex_defs POINT_IN_TIME_SCHEMA_VERSION_def lit_def)
  moreover have "json_ints_ok (payload_document (ex_member i ver revised processed incl))"
    using assms by (simp add: payload_document_def ex_defs source_json_def validity_json_def optional_json_def small)
  ultimately show ?thesis using assms
    by (auto simp: storable_def ex_member_def int64_def available_at_ns_def)
qed

lemma ex_refines:
  "refines (durable_of ex_store1) ex_store1" "refines (durable_of ex_store2) ex_store2"
  using pit_reachable_inv ex_reachable
  by (auto intro!: refines_durable_of ex_member_storable simp: ex_store1_def ex_store2_def)

lemma late_refines: "refines (durable_of late_store) late_store"
proof -
  have r: "storable (ex_member ''m1'' 1 5 100 True)" "storable (ex_member ''m2'' 2 15 50 False)"
    by (simp_all add: ex_member_storable)
  define s1 where "s1 = \<lparr>ps_capacity = 4, ps_records = [ex_member ''m1'' 1 5 100 True],
     ps_by_id = [lit ''m1'' \<mapsto> ex_member ''m1'' 1 5 100 True],
     ps_by_series = [(INDEX_MEMBERSHIP, lit ''SPX:AAA'') \<mapsto> [ex_member ''m1'' 1 5 100 True]]\<rparr>"
  have "pit_store_inv ex_store0"
    by (rule pit_store_init_inv [of 4]) (simp add: pit_store_init_def ex_store0_def)
  moreover have "store_append ex_store0 (ex_member ''m1'' 1 5 100 True) = Inr s1"
    by (simp add: store_append_Inr ex_defs s1_def series_key_def check_lineage_def validate_initial_link_def)
  ultimately have "pit_store_inv s1" using r(1) store_append_inv by (auto simp: storable_def)
  moreover have "store_append s1 (ex_member ''m2'' 2 15 50 False) = Inr late_store"
    by (simp add: store_append_Inr ex_defs s1_def late_store_def series_key_def check_lineage_def Let_def
        validate_revision_link_def)
  ultimately have "pit_store_inv late_store" using r(2) store_append_inv by (auto simp: storable_def)
  then show ?thesis using r by (intro refines_durable_of) (simp_all add: late_store_def)
qed

section \<open>Properties\<close>

text \<open>
  Claim C2. On working storage the durable \<open>append\<close> refines the in-memory one: from a file that holds the log of an
  in-memory store, it raises exactly the exception the in-memory store raises and leaves everything as it was, or
  it succeeds exactly when the in-memory store does and the file holds the extended log.
\<close>

theorem persistent_append_refines:
  assumes "refines s m" "storable r"
  shows "case store_append m r of
      Inl e \<Rightarrow> persistent_append no_faults no_injector s r = (s, Some e)
    | Inr m' \<Rightarrow> \<exists>s'. persistent_append no_faults no_injector s r = (s', None) \<and> refines s' m'"
  by (rule append_without_faults [OF assms])

theorem persistent_append_refines_witness:
  "(\<exists>s'. persistent_append no_faults no_injector (durable_of ex_store1) (ex_member ''m2'' 2 15 20 False) = (s', None) \<and>
      refines s' ex_store2)"
  using persistent_append_refines [OF ex_refines(1), of "ex_member ''m2'' 2 15 20 False"]
  by (simp add: ex_append2 ex_member_storable)

text \<open>
  Claim C12. An append is all or nothing, whatever storage faults and injected exceptions it meets and whatever the
  file contains: the committed file is unchanged and an exception was raised, or the committed file gained exactly
  the one new row, its checks passed, no transaction is left open, and the only exception possible is the one of
  the directory sync that follows the commit.
\<close>

theorem persistent_append_atomic:
  assumes "persistent_append st inject s r = (s', e)"
  shows "pst_file s' = pst_file s \<and> e \<noteq> None \<or>
    (\<exists>t encoded. file_records (pst_file s) = Some t \<and> canonical_bytes (payload_document r) = Inr encoded \<and>
       append_checks st (s\<lparr>pst_transaction := Some (pst_file s)\<rparr>) r = None \<and> pst_transaction s' = None \<and>
       pst_file s' = (pst_file s)\<lparr>file_records := Some
         \<lparr>tbl_rows = tbl_rows t @ [new_row (tbl_sequence t + 1) r encoded], tbl_sequence = tbl_sequence t + 1\<rparr>\<rparr> \<and>
       e = map_option OSError (st SYNC))"
  using persistent_append_cases [OF assms] unfolding extended_file_def by blast

theorem persistent_append_atomic_witness:
  "\<exists>e. persistent_append no_faults no_injector (store_close (durable_of ex_store1)) (ex_member ''m2'' 2 15 20 False) =
      (store_close (durable_of ex_store1), e) \<and> e \<noteq> None"
proof -
  let ?s = "store_close (durable_of ex_store1)"
  have run: "persistent_append no_faults no_injector ?s (ex_member ''m2'' 2 15 20 False) =
      (?s, Some (PersistentStoreError ''persistent point-in-time store is closed''))"
    by (simp add: persistent_append_def ensure_open_def store_close_def durable_of_def raise_if_def)
  show ?thesis using persistent_append_atomic [OF run] run by auto
qed

text \<open>
  Claim C16. The durable history is a history of the in-memory store: after a file is created, appended to under any
  storage faults and injected exceptions, closed, and reopened, in any order, the committed file holds exactly the
  log of an in-memory store that the constructor and accepted appends can reach, with the same capacity.
\<close>

theorem durable_run_is_history:
  assumes "durable_run s"
  shows "\<exists>m. pit_reachable m \<and> ps_capacity m = pst_capacity s \<and> file_holds (pst_file s) (ps_records m)"
  using durable_run_history [OF assms] by (auto simp: holds_history_def)

theorem durable_run_is_history_witness:
  "\<exists>f s. store_open no_faults \<lparr>path_is_symlink = False, path_exists = False, path_is_file = False, parent_exists = True,
       parent_is_symlink = False\<rparr> None \<lparr>path_is_symlink = False, path_exists = False, path_is_file = False,
       parent_exists = True, parent_is_symlink = False\<rparr> 4096 10 100000 new_file = (f, Inr s) \<and>
     (\<exists>m. pit_reachable m \<and> ps_capacity m = pst_capacity s \<and> file_holds (pst_file s) (ps_records m))"
proof -
  let ?p = "\<lparr>path_is_symlink = False, path_exists = False, path_is_file = False, parent_exists = True,
       parent_is_symlink = False\<rparr>"
  have "\<not> isl (snd (store_open no_faults ?p None ?p 4096 10 100000 new_file))"
    by (simp add: store_open_def first_error.simps raise_if_def MINIMUM_DATABASE_BYTES_def validate_path_def
        configure_def initialize_or_validate_def validate_header_def new_file_def creation_script_def
        create_metadata_def insert_metadata_def create_records_def create_index_def validate_contents_def)
  then obtain f s where o: "store_open no_faults ?p None ?p 4096 10 100000 new_file = (f, Inr s)"
    by (metis isl_def prod.collapse sum.exhaust)
  then have "durable_run s" by (rule durable_run.create) simp
  with o durable_run_is_history show ?thesis by blast
qed

text \<open>
  Claim C21. The durable store answers every query as the in-memory store does, for timestamps below two to the 63,
  texts without surrogates, and logs in which availability does not decrease within a series; its hash depends on
  the log alone.
\<close>

theorem persistent_queries_agree:
  assumes "refines s m" "availability_monotone (ps_records m)"
    and "t < 2 ^ 63" "cutoff_of t known < 2 ^ 63" "text_fault i = None"
  shows "persistent_len s = Inr (int (length (ps_records m))) \<and>
    persistent_record_by_id s i = Inr (record_by_id m i) \<and>
    persistent_records_for s k i = Inr (records_for m k i) \<and>
    persistent_revisions_after s t = revisions_after m t \<and>
    persistent_as_known_at s t = as_known_at m t \<and>
    persistent_latest_available_before s t = latest_available_before m t \<and>
    persistent_membership_at s t i known = membership_at m t i known \<and>
    persistent_symbol_mapping_at s t i known = symbol_mapping_at m t i known \<and>
    persistent_corporate_action_history s i t = corporate_action_history m i t \<and>
    deterministic_hash s =
      Inr (bytes_hex (sha256 (concat (map (\<lambda>r. sha256 (emit (payload_document r))) (ps_records m)))))"
proof -
  have snap: "persistent_snapshot s u b = snapshot m u b" if "u < 2 ^ 63" for u b
    by (rule persistent_snapshot_memory [OF assms(1,2) that])
  show ?thesis
    using assms(3-5) persistent_len_memory [OF assms(1)] persistent_record_by_id_memory [OF assms(1,5)]
      persistent_records_for_memory [OF assms(1,5)] persistent_revisions_after_memory [OF assms(1,3)]
      deterministic_hash_memory [OF assms(1)]
    by (simp add: persistent_as_known_at_def as_known_at_def latest_available_before_def
        persistent_latest_available_before_def persistent_membership_at_def membership_at_def
        persistent_symbol_mapping_at_def symbol_mapping_at_def persistent_corporate_action_history_def
        corporate_action_history_def snap)
qed

theorem persistent_queries_agree_witness:
  "persistent_membership_at (durable_of ex_store2) 15 (lit ''SPX'') None = membership_at ex_store2 15 (lit ''SPX'') None"
proof -
  have "availability_monotone (ps_records ex_store2)"
    by (simp add: availability_monotone_def ex_store2_def ex_member_def available_at_ns_def)
  from persistent_queries_agree [OF ex_refines(2) this, of 15 None "lit ''SPX''"]
  show ?thesis by (simp add: cutoff_of_def text_fault_def lit_def is_surrogate_def)
qed

text \<open>
  Claim C22. Retrying makes progress: when an append of a record the in-memory store accepts was cut short by a
  storage fault or an injected exception, and the rollback worked, the same append on working storage ends with
  the record in the log exactly once. It succeeds, or the first attempt had committed before the directory sync
  raised and the second is refused.
\<close>

theorem failed_append_retry:
  assumes "refines s m" "storable r" "store_append m r = Inr m'" "st ROLLBACK = None"
    and "persistent_append st inject s r = (s1, Some e1)"
  shows "\<exists>s2 e2. persistent_append no_faults no_injector s1 r = (s2, e2) \<and> refines s2 m' \<and>
    (e2 = None \<or> (\<exists>message. e1 = OSError message))"
  by (rule append_retry [OF assms])

theorem failed_append_retry_witness:
  "\<exists>s1 e1 s2 e2. persistent_append (\<lambda>p. if p = BEGIN then Some ''database is locked'' else None) no_injector
       (durable_of ex_store1) (ex_member ''m2'' 2 15 20 False) = (s1, Some e1) \<and>
     persistent_append no_faults no_injector s1 (ex_member ''m2'' 2 15 20 False) = (s2, e2) \<and> refines s2 ex_store2"
proof -
  let ?st = "\<lambda>p. if p = BEGIN then Some ''database is locked'' else None"
  let ?r = "ex_member ''m2'' 2 15 20 False"
  have stor: "storable ?r" by (simp add: ex_member_storable)
  then have enc: "canonical_bytes (payload_document ?r) = Inr (emit (payload_document ?r))"
    by (simp add: canonical_bytes_Inr storable_def)
  have "append_body ?st no_injector (durable_of ex_store1) ?r (emit (payload_document ?r)) =
      (durable_of ex_store1, Some (DatabaseError ''database is locked''))"
    by (simp add: append_body_def sql_begin_def durable_of_def database_fault_def)
  then obtain e1 where run: "persistent_append ?st no_injector (durable_of ex_store1) ?r = (durable_of ex_store1, Some e1)"
    using enc by (simp add: persistent_append_def ensure_open_def durable_of_def rollback_def raise_if_def)
  then show ?thesis
    using failed_append_retry [OF ex_refines(1) stor ex_append2 _ run] by auto
qed

text \<open>
  Claim C30. Reads are verified, whatever the file contains: every record a snapshot, a history, a revision listing
  or a lookup returns was decoded from a row of the table whose digest is the SHA-256 of its bytes, is accepted by
  every constructor, and was selected by the columns of that row.
\<close>

theorem persistent_reads_verified:
  "(persistent_snapshot s t b = Inr rs \<longrightarrow> (\<forall>r \<in> set rs. verified_in s (row_available t b) r)) \<and>
   (persistent_records_for s k l = Inr hs \<longrightarrow>
      (\<forall>r \<in> set hs. verified_in s (\<lambda>w. row_kind w = record_kind_value k \<and> row_logical_key w = l) r)) \<and>
   (persistent_revisions_after s t = Inr vs \<longrightarrow> (\<forall>r \<in> set vs. verified_in s (\<lambda>w. t < row_revision_time_ns w) r)) \<and>
   (persistent_record_by_id s i = Inr (Some x) \<longrightarrow> verified_in s (\<lambda>w. row_record_id w = i) x)"
proof (intro conjI impI ballI)
  fix r assume "persistent_snapshot s t b = Inr rs" "r \<in> set rs"
  then show "verified_in s (row_available t b) r" by (rule snapshot_verified)
next
  fix r assume a: "persistent_records_for s k l = Inr hs" "r \<in> set hs"
  then obtain ws where "select_rows s [text_fault l] = Inr ws"
    "map_list_result decode_row (sort_key row_version
       (filter (\<lambda>w. row_kind w = record_kind_value k \<and> row_logical_key w = l) ws)) = Inr hs"
    unfolding persistent_records_for_def guarded_Inr bind_result_Inr by blast
  then show "verified_in s (\<lambda>w. row_kind w = record_kind_value k \<and> row_logical_key w = l) r"
    using a(2) by (intro decoded_verified [where rs = hs and r = r]) auto
next
  fix r assume a: "persistent_revisions_after s t = Inr vs" "r \<in> set vs"
  then obtain ws where "select_rows s [integer_fault t] = Inr ws"
    "map_list_result decode_row (sort_key (\<lambda>w. (row_revision_time_ns w, row_kind w, row_logical_key w, row_version w))
       (filter (\<lambda>w. t < row_revision_time_ns w) ws)) = Inr vs"
    unfolding persistent_revisions_after_def guarded_Inr bind_result_Inr by blast
  then show "verified_in s (\<lambda>w. t < row_revision_time_ns w) r"
    using a(2) by (intro decoded_verified [where rs = vs and r = r]) auto
next
  assume "persistent_record_by_id s i = Inr (Some x)"
  then obtain ws where ws: "select_rows s [text_fault i] = Inr ws"
    and "(case find (\<lambda>w. row_record_id w = i) ws of None \<Rightarrow> Inr None | Some w \<Rightarrow> map_result Some (decode_row w)) =
      Inr (Some x)"
    unfolding persistent_record_by_id_def guarded_Inr bind_result_Inr by blast
  then obtain w where w: "find (\<lambda>w. row_record_id w = i) ws = Some w" "decode_row w = Inr x"
    by (auto split: option.splits)
  then have "w \<in> set ws" "row_record_id w = i" by (auto simp: find_Some_iff)
  then show "verified_in s (\<lambda>w. row_record_id w = i) x"
    using w(2) by (intro decoded_verified [OF ws, of "[w]" _ "[x]"]) auto
qed

theorem persistent_reads_verified_witness:
  "\<exists>rs. persistent_snapshot (durable_of ex_store2) 15 True = Inr rs \<and>
     (\<forall>r \<in> set rs. verified_in (durable_of ex_store2) (row_available 15 True) r)"
proof -
  have "\<exists>rs. persistent_snapshot (durable_of ex_store2) 15 True = Inr rs"
    using persistent_snapshot_records [OF ex_refines(2)] by simp
  then show ?thesis using persistent_reads_verified by blast
qed

text \<open>
  Claim C37. The two stores disagree when a first version becomes available only after its successor: at any later
  time the in-memory store answers with the second version, and the durable store, which ranks by availability
  before append order, with the first, superseded one.
\<close>

theorem late_first_version_diverges:
  assumes "refines s m" "series m k = [r1, r2]" "available_at_ns r2 < available_at_ns r1"
    and "available_at_ns r1 \<le> t" "0 < t" "t < 2 ^ 63"
  shows "\<exists>ps ms. persistent_as_known_at s t = Inr ps \<and> as_known_at m t = Inr ms \<and>
    r1 \<in> set ps \<and> r2 \<notin> set ps \<and> r2 \<in> set ms \<and> r1 \<notin> set ms"
proof -
  let ?rs = "ps_records m"
  have member: "r \<in> set ?rs \<and> series_key r = k \<longleftrightarrow> r = r1 \<or> r = r2" for r
    using arg_cong [OF assms(2), of set] by (auto simp: series_def)
  have avail: "available_by t True r1" "available_by t True r2" using assms(3,4) by (auto simp: available_by_def)
  have ne: "r1 \<noteq> r2" using assms(3) by auto
  obtain ms where ms: "snapshot m t True = Inr ms" using assms(5) by (simp add: snapshot_collect)
  have "filter (\<lambda>x. series_key x = k) (filter (available_by t True) ?rs) = [r1, r2]"
    using arg_cong [OF assms(2), of "filter (available_by t True)"] avail
    by (simp add: series_def conj_commute)
  then have "last_per_key series_key (filter (available_by t True) ?rs) k = Some r2"
    by (simp add: last_per_key_def del: filter_filter)
  moreover have "series_key r1 = k" "series_key r2 = k" using member by blast+
  ultimately have mem: "r2 \<in> set ms" "r1 \<notin> set ms"
    using ne by (simp_all add: in_snapshot [OF ms])
  have durable: "persistent_snapshot s t True = Inr (snapshot_records ?rs t True)"
    by (rule persistent_snapshot_records [OF assms(1,5,6)])
  have out: "r2 \<notin> set (snapshot_records ?rs t True)"
  proof
    assume "r2 \<in> set (snapshot_records ?rs t True)"
    moreover obtain j where "j < length ?rs" "?rs ! j = r1" using member [of r1] by (auto simp: in_set_conv_nth)
    ultimately show False using avail assms(3) member [of r1] member [of r2]
      unfolding in_snapshot_records by force
  qed
  have "k \<in> series_key ` set (snapshot_records ?rs t True)"
    using snapshot_complete [of r1 ?rs t True] member [of r1] avail by simp
  then obtain r where r: "r \<in> set (snapshot_records ?rs t True)" "series_key r = k" by blast
  then have "r = r1 \<or> r = r2" using member [of r] unfolding in_snapshot_records by auto
  then have "r1 \<in> set (snapshot_records ?rs t True)" using r(1) out by auto
  then show ?thesis using ms mem durable out by (auto simp: persistent_as_known_at_def as_known_at_def)
qed

theorem late_first_version_diverges_witness:
  "\<exists>ps ms. persistent_as_known_at (durable_of late_store) 100 = Inr ps \<and> as_known_at late_store 100 = Inr ms \<and>
     ex_member ''m1'' 1 5 100 True \<in> set ps \<and> ex_member ''m2'' 2 15 50 False \<notin> set ps \<and>
     ex_member ''m2'' 2 15 50 False \<in> set ms \<and> ex_member ''m1'' 1 5 100 True \<notin> set ms"
proof (rule late_first_version_diverges [OF late_refines])
  show "series late_store (INDEX_MEMBERSHIP, lit ''SPX:AAA'') =
      [ex_member ''m1'' 1 5 100 True, ex_member ''m2'' 2 15 50 False]"
    by (simp add: series_def late_store_def series_key_def ex_member_def)
qed (simp_all add: available_at_ns_def ex_member_def)

text \<open>
  Claim C38. Creating the file is not atomic: when the creation script stops after the application identifier was
  written and before the schema version was inserted, no later attempt to open the file succeeds, on any storage
  and with any parameters.
\<close>

theorem interrupted_creation_is_permanent:
  assumes "k \<in> {1, 2, 3}" "st (CREATE k) \<noteq> None" "\<forall>j < k. st (CREATE j) = None" "validate_header st new_file = None"
    and "initialize_or_validate st new_file = (f, e)"
  shows "e \<noteq> None \<and> (\<exists>err. snd (store_open st' p mk p' page_size capacity maximum_bytes f) = Inl err)"
proof -
  obtain message where k: "st (CREATE k) = Some message" using assms(2) by blast
  have "f = fst (run_script st 0 creation_script new_file) \<and> e \<noteq> None \<and>
      file_application_id f = SQLITE_APPLICATION_ID \<and> (file_metadata f = None \<or> file_metadata f = Some [])"
    using assms(1,3,4,5) k
    by (auto simp: initialize_or_validate_def new_file_def creation_script_def database_fault_def create_metadata_def
        numeral_2_eq_2 numeral_3_eq_3 less_Suc_eq split: option.splits)
  then have "e \<noteq> None" "file_application_id f \<noteq> 0" "\<exists>err. validate_contents st' f = Some err"
    by (auto simp: SQLITE_APPLICATION_ID_def validate_contents_def not_None_eq [symmetric] simp del: not_None_eq)
  then have "\<exists>err. initialize_or_validate st' f = (f, Some err)"
    by (auto simp: initialize_or_validate_def split: option.splits)
  then show ?thesis using \<open>e \<noteq> None\<close>
    by (auto simp: store_open_def split: option.splits)
qed

theorem interrupted_creation_is_permanent_witness:
  "\<exists>f e. initialize_or_validate (\<lambda>p. if p = CREATE 2 then Some ''disk I/O error'' else None) new_file = (f, e) \<and>
     (\<forall>p. \<exists>err. snd (store_open no_faults p None p 4096 10 100000 f) = Inl err)"
proof -
  let ?st = "\<lambda>p. if p = CREATE 2 then Some ''disk I/O error'' else None"
  obtain f e where run: "initialize_or_validate ?st new_file = (f, e)" by fastforce
  have "validate_header ?st new_file = None" by (simp add: validate_header_def database_fault_def new_file_def)
  from interrupted_creation_is_permanent [of 2 ?st, OF _ _ _ this run] run show ?thesis by auto
qed

end
