(* ===== verification/Reference.thy ===== *)
theory Reference
  imports Universe_Proofs
begin

text \<open>
  Point-in-time reference data of \<open>python/research/aegis_mx_research/reference_data.py\<close>: exact ratios,
  business intervals, provenance, the five kinds of revision, the snapshot and the read-only bitemporal
  store with its queries.

  Dataclasses are records, their \<open>__post_init__\<close> a validator; the text an exception adds to its stable code
  is kept as raised (the message is cut to 512 characters only when it is printed). A revision of any kind
  is a \<open>reference_revision\<close>, on which identity, version and provenance are defined once, as the union type
  of the source does. \<open>isinstance\<close> tests against \<open>bool\<close> are typing facts of the model.
\<close>

section \<open>Grouping and maxima of Python\<close>

text \<open>\<open>d.setdefault(key(x), []).append(f(x))\<close> for every \<open>x\<close> in turn.\<close>

definition group_by :: "('a \<Rightarrow> 'k) \<Rightarrow> ('a \<Rightarrow> 'b) \<Rightarrow> 'a list \<Rightarrow> ('k \<times> 'b list) list" where
  "group_by key f xs = fold (\<lambda>x d. AList.map_default (key x) [f x] (\<lambda>l. l @ [f x]) d) xs []"

text \<open>\<open>d.get(k, ())\<close>.\<close>

definition group_of :: "('k \<times> 'b list) list \<Rightarrow> 'k \<Rightarrow> 'b list" where
  "group_of d k = (case map_of d k of None \<Rightarrow> [] | Some l \<Rightarrow> l)"

text \<open>\<open>max(xs, key=f)\<close> of a nonempty list: the first element with the largest key.\<close>

fun max_by :: "('a \<Rightarrow> 'o::linorder) \<Rightarrow> 'a list \<Rightarrow> 'a" where
  "max_by f (x # xs) = fold (\<lambda>y m. if f m < f y then y else m) xs x"
| "max_by f [] = undefined"

text \<open>\<open>pairwise(xs)\<close>.\<close>

definition pairwise_list :: "'a list \<Rightarrow> ('a \<times> 'a) list" where
  "pairwise_list xs = zip xs (tl xs)"

section \<open>Errors, enumerations and limits\<close>

datatype reference_error_code =
    INVALID_INPUT | INTEGRITY_FAILURE | CONFLICT | MISSING_CALENDAR | INEXACT_ARITHMETIC
  | INTEGER_OVERFLOW | UNSUPPORTED_SCHEMA | UNRESOLVED

datatype reference_error =
    ReferenceDataError (reference_code: reference_error_code) (reference_message: ustr)
  | Reference_PyError py_error

definition reference_error :: "reference_error_code \<Rightarrow> string \<Rightarrow> reference_error" where
  "reference_error code message = ReferenceDataError code (lit message)"

datatype listing_venue = NASDAQ | NYSE | NYSE_AMERICAN | OTC | UNKNOWN_VENUE

datatype security_type =
    COMMON_STOCK | ADR | ETF | PREFERRED_STOCK | UNIT | WARRANT | US_EQUITY_UNSPECIFIED | UNKNOWN_SECURITY

datatype mapping_status =
    RESOLVED_CURRENT_ONLY | STATUS_RECENTLY_LISTED | STATUS_DELISTED | UNSUPPORTED_VENUE | AMBIGUOUS
  | MISSING_REFERENCE

datatype corporate_action_kind = SPLIT | CASH_DIVIDEND

datatype calendar_day_kind =
    REGULAR_SESSION | EARLY_CLOSE_SESSION | WEEKEND | HOLIDAY | UNCLASSIFIED_CLOSURE

datatype rounding_policy = REJECT_INEXACT | FLOOR | HALF_EVEN

definition INT64_MAX :: int where "INT64_MAX = 2 ^ 63 - 1"
definition REFERENCE_TEXT_BYTES :: nat where "REFERENCE_TEXT_BYTES = 256"
definition REFERENCE_SCHEMA_VERSION :: ustr where "REFERENCE_SCHEMA_VERSION = lit ''1.0.0''"

section \<open>Field validators\<close>

definition reference_text :: "ustr \<Rightarrow> string \<Rightarrow> nat \<Rightarrow> reference_error option" where
  "reference_text value field maximum =
     (let failure = reference_error INVALID_INPUT
            (field @ '' is empty, contains NUL, or exceeds '' @ nat_dec maximum @ '' bytes'')
      in if value = [] \<or> 0 \<in> set value then Some failure
         else case utf8_length value of
           None \<Rightarrow> Some (Reference_PyError UnicodeEncodeError)
         | Some n \<Rightarrow> raise_if (maximum < n) failure)"

definition positive_ns :: "int \<Rightarrow> string \<Rightarrow> reference_error option" where
  "positive_ns value field = raise_if (\<not> (0 < value \<and> value \<le> INT64_MAX))
     (reference_error INVALID_INPUT (field @ '' is not a positive int64''))"

definition checked_mul :: "int \<Rightarrow> int \<Rightarrow> reference_error + int" where
  "checked_mul left right =
     (let result = left * right
      in if \<not> (- INT64_MAX \<le> result \<and> result \<le> INT64_MAX)
         then Inl (reference_error INTEGER_OVERFLOW ''signed int64 multiplication overflow'')
         else Inr result)"

text \<open>\<open>_SHA256\<close> matched in full; \<open>_SYMBOL\<close> is the same expression as \<open>symbol_pattern\<close>.\<close>

definition sha256_pattern :: "ustr \<Rightarrow> bool" where
  "sha256_pattern t \<longleftrightarrow> length t = 64 \<and> list_all is_hex_digit t"

section \<open>Exact ratios\<close>

record exact_ratio =
  ratio_numerator :: int
  ratio_denominator :: int

definition exact_ratio_post_init :: "exact_ratio \<Rightarrow> reference_error option" where
  "exact_ratio_post_init r = first_error
     [raise_if (\<not> (0 < ratio_numerator r \<and> ratio_numerator r \<le> INT64_MAX) \<or>
                \<not> (0 < ratio_denominator r \<and> ratio_denominator r \<le> INT64_MAX))
        (reference_error INVALID_INPUT ''ratio terms must be positive int64''),
      raise_if (gcd (ratio_numerator r) (ratio_denominator r) \<noteq> 1)
        (reference_error INVALID_INPUT ''ratio must be reduced'')]"

definition exact_ratio_new :: "int \<Rightarrow> int \<Rightarrow> reference_error + exact_ratio" where
  "exact_ratio_new n d = construct exact_ratio_post_init \<lparr>ratio_numerator = n, ratio_denominator = d\<rparr>"

definition ratio_reduced :: "int \<Rightarrow> int \<Rightarrow> reference_error + exact_ratio" where
  "ratio_reduced n d =
     (if n \<le> 0 \<or> d \<le> 0 then Inl (reference_error INVALID_INPUT ''ratio terms must be positive'')
      else let divisor = gcd n d in exact_ratio_new (n div divisor) (d div divisor))"

definition ratio_inverse :: "exact_ratio \<Rightarrow> reference_error + exact_ratio" where
  "ratio_inverse r = exact_ratio_new (ratio_denominator r) (ratio_numerator r)"

definition ratio_multiply :: "exact_ratio \<Rightarrow> exact_ratio \<Rightarrow> reference_error + exact_ratio" where
  "ratio_multiply r s =
     (let left_divisor = gcd (ratio_numerator r) (ratio_denominator s);
          right_divisor = gcd (ratio_numerator s) (ratio_denominator r)
      in bind_result (checked_mul (ratio_numerator r div left_divisor) (ratio_numerator s div right_divisor))
           (\<lambda>n. bind_result
             (checked_mul (ratio_denominator r div right_divisor) (ratio_denominator s div left_divisor))
             (\<lambda>d. ratio_reduced n d)))"

definition ratio_apply :: "exact_ratio \<Rightarrow> int \<Rightarrow> rounding_policy \<Rightarrow> reference_error + int" where
  "ratio_apply r value rounding =
     (if \<not> (0 \<le> value \<and> value \<le> INT64_MAX)
      then Inl (reference_error INVALID_INPUT ''value must be a nonnegative int64'')
      else bind_result (checked_mul value (ratio_numerator r)) (\<lambda>product.
        let quotient = product div ratio_denominator r; remainder = product mod ratio_denominator r
        in if remainder = 0 then Inr quotient
           else if rounding = REJECT_INEXACT
           then Inl (reference_error INEXACT_ARITHMETIC ''rational result is not an exact integer'')
           else if rounding = HALF_EVEN then
             let doubled = remainder * 2
             in if ratio_denominator r < doubled \<or> doubled = ratio_denominator r \<and> quotient mod 2 = 1
                then Inr (quotient + 1) else Inr quotient
           else Inr quotient))"

section \<open>Intervals, dates and provenance\<close>

record business_interval =
  effective_from_ns :: int
  effective_to_ns :: "int option"

definition business_interval_post_init :: "business_interval \<Rightarrow> reference_error option" where
  "business_interval_post_init b = first_error
     (positive_ns (effective_from_ns b) ''effective_from_ns'' #
      (case effective_to_ns b of
         None \<Rightarrow> []
       | Some t \<Rightarrow>
           [positive_ns t ''effective_to_ns'',
            raise_if (t \<le> effective_from_ns b)
              (reference_error INVALID_INPUT ''business interval is empty'')]))"

definition interval_contains :: "business_interval \<Rightarrow> int \<Rightarrow> bool" where
  "interval_contains b t \<longleftrightarrow> effective_from_ns b \<le> t \<and>
     (case effective_to_ns b of None \<Rightarrow> True | Some u \<Rightarrow> t < u)"

text \<open>\<open>datetime.date\<close>, ordered as year, month, day.\<close>

datatype date = Date (date_year: int) (date_month: int) (date_day: int)

instantiation date :: linorder
begin

definition less_eq_date :: "date \<Rightarrow> date \<Rightarrow> bool" where
  "a \<le> b \<longleftrightarrow> (date_year a, date_month a, date_day a) \<le> (date_year b, date_month b, date_day b)"

definition less_date :: "date \<Rightarrow> date \<Rightarrow> bool" where
  "a < b \<longleftrightarrow> (date_year a, date_month a, date_day a) < (date_year b, date_month b, date_day b)"

instance
  by standard (auto simp: less_eq_date_def less_date_def intro: date.expand)

end

definition zero_padded :: "nat \<Rightarrow> int \<Rightarrow> ustr" where
  "zero_padded width n = (let digits = lit (nat_dec (nat n)) in replicate (width - length digits) 48 @ digits)"

definition isoformat :: "date \<Rightarrow> ustr" where
  "isoformat d = zero_padded 4 (date_year d) @ [45] @ zero_padded 2 (date_month d) @ [45] @ zero_padded 2 (date_day d)"

record reference_provenance =
  rp_provider :: ustr
  rp_dataset :: ustr
  rp_document_id :: ustr
  rp_content_sha256 :: ustr
  rp_observed_at_ns :: int
  rp_processed_at_ns :: int
  rp_revision_at_ns :: int
  rp_source_publication_time_ns :: "int option"
  rp_historical_completeness :: bool
  rp_limitation :: ustr

definition reference_provenance_post_init :: "reference_provenance \<Rightarrow> reference_error option" where
  "reference_provenance_post_init p = first_error
     ([reference_text (rp_provider p) ''provider'' 256,
       reference_text (rp_dataset p) ''dataset'' 256,
       reference_text (rp_document_id p) ''document_id'' 256,
       reference_text (rp_limitation p) ''limitation'' 512,
       raise_if (\<not> sha256_pattern (rp_content_sha256 p))
         (reference_error INVALID_INPUT ''content_sha256 is malformed''),
       positive_ns (rp_observed_at_ns p) ''observed_at_ns'',
       positive_ns (rp_processed_at_ns p) ''processed_at_ns'',
       positive_ns (rp_revision_at_ns p) ''revision_at_ns'',
       raise_if (rp_processed_at_ns p < rp_observed_at_ns p)
         (reference_error INVALID_INPUT ''processing precedes observation'')] @
      (case rp_source_publication_time_ns p of
         None \<Rightarrow> []
       | Some t \<Rightarrow>
           [positive_ns t ''source_publication_time_ns'',
            raise_if (rp_observed_at_ns p < t)
              (reference_error INVALID_INPUT ''observation precedes publication''),
            raise_if (rp_revision_at_ns p < t)
              (reference_error INVALID_INPUT ''revision precedes publication'')]))"

definition provenance_available_at_ns :: "reference_provenance \<Rightarrow> int" where
  "provenance_available_at_ns p = max (max (rp_observed_at_ns p) (rp_processed_at_ns p)) (rp_revision_at_ns p)"

section \<open>Revisions\<close>

record instrument_revision =
  inst_revision_id :: ustr
  inst_instrument_id :: identifier128
  inst_primary_symbol :: ustr
  inst_listing_venue :: listing_venue
  inst_security_type :: security_type
  inst_listing_date :: "date option"
  inst_delisting_date :: "date option"
  inst_effective :: business_interval
  inst_version :: int
  inst_unresolved_fields :: "ustr list"
  inst_provenance :: reference_provenance

definition instrument_revision_post_init :: "instrument_revision \<Rightarrow> reference_error option" where
  "instrument_revision_post_init r = first_error
     [reference_text (inst_revision_id r) ''revision_id'' REFERENCE_TEXT_BYTES,
      raise_if (\<not> symbol_pattern (inst_primary_symbol r))
        (reference_error INVALID_INPUT ''primary_symbol is malformed''),
      raise_if (inst_version r \<le> 0)
        (reference_error INVALID_INPUT ''instrument version must be positive''),
      raise_if (case (inst_listing_date r, inst_delisting_date r) of
          (Some listed, Some delisted) \<Rightarrow> delisted < listed | _ \<Rightarrow> False)
        (reference_error INVALID_INPUT ''delisting precedes listing''),
      raise_if (card (set (inst_unresolved_fields r)) \<noteq> length (inst_unresolved_fields r))
        (reference_error INVALID_INPUT ''unresolved fields are duplicated'')]"

record symbol_mapping_revision =
  smr_mapping_id :: ustr
  smr_symbol :: ustr
  smr_instrument_id :: "identifier128 option"
  smr_listing_venue :: listing_venue
  smr_status :: mapping_status
  smr_effective :: business_interval
  smr_version :: int
  smr_provenance :: reference_provenance

definition symbol_mapping_revision_post_init :: "symbol_mapping_revision \<Rightarrow> reference_error option" where
  "symbol_mapping_revision_post_init r =
     (let needs_id = smr_status r \<in>
            {RESOLVED_CURRENT_ONLY, STATUS_RECENTLY_LISTED, STATUS_DELISTED, UNSUPPORTED_VENUE}
      in first_error
       [reference_text (smr_mapping_id r) ''mapping_id'' REFERENCE_TEXT_BYTES,
        raise_if (\<not> symbol_pattern (smr_symbol r))
          (reference_error INVALID_INPUT ''mapping symbol is malformed''),
        raise_if (smr_version r \<le> 0)
          (reference_error INVALID_INPUT ''mapping version must be positive''),
        raise_if (needs_id \<noteq> (smr_instrument_id r \<noteq> None))
          (reference_error INVALID_INPUT ''mapping identity and status disagree'')])"

record corporate_action_revision =
  car_action_id :: ustr
  car_instrument_id :: identifier128
  car_kind :: corporate_action_kind
  car_effective_time_ns :: int
  car_version :: int
  car_provenance :: reference_provenance
  car_split_new_shares_per_old :: "exact_ratio option"
  car_cash_dividend_currency_nanos :: "int option"
  car_currency :: "ustr option"

definition corporate_action_revision_post_init :: "corporate_action_revision \<Rightarrow> reference_error option" where
  "corporate_action_revision_post_init r = first_error
     ([reference_text (car_action_id r) ''action_id'' REFERENCE_TEXT_BYTES,
       positive_ns (car_effective_time_ns r) ''effective_time_ns'',
       raise_if (car_version r \<le> 0)
         (reference_error INVALID_INPUT ''action version must be positive'')] @
      (if car_kind r = SPLIT then
         [raise_if (car_split_new_shares_per_old r = None \<or>
             car_cash_dividend_currency_nanos r \<noteq> None \<or> car_currency r \<noteq> None)
            (reference_error INVALID_INPUT ''split payload is inconsistent'')]
       else
         [raise_if (car_split_new_shares_per_old r \<noteq> None \<or>
             (case car_cash_dividend_currency_nanos r of
                None \<Rightarrow> True | Some n \<Rightarrow> \<not> (0 \<le> n \<and> n \<le> INT64_MAX)) \<or>
             car_currency r = None)
            (reference_error INVALID_INPUT ''dividend payload is inconsistent''),
          reference_text (the (car_currency r)) ''currency'' 8]))"

record calendar_day_revision =
  cdr_calendar_id :: ustr
  cdr_session_date :: date
  cdr_kind :: calendar_day_kind
  cdr_open_exchange_time_ns :: "int option"
  cdr_close_exchange_time_ns :: "int option"
  cdr_version :: int
  cdr_provenance :: reference_provenance

definition calendar_day_revision_post_init :: "calendar_day_revision \<Rightarrow> reference_error option" where
  "calendar_day_revision_post_init r = first_error
     ([reference_text (cdr_calendar_id r) ''calendar_id'' 64,
       raise_if (cdr_version r \<le> 0)
         (reference_error INVALID_INPUT ''calendar version must be positive'')] @
      (if cdr_kind r \<in> {REGULAR_SESSION, EARLY_CLOSE_SESSION} then
         (case (cdr_open_exchange_time_ns r, cdr_close_exchange_time_ns r) of
            (Some open_ns, Some close_ns) \<Rightarrow>
              [positive_ns open_ns ''open_exchange_time_ns'',
               positive_ns close_ns ''close_exchange_time_ns'',
               raise_if (close_ns \<le> open_ns)
                 (reference_error INVALID_INPUT ''calendar session is reversed'')]
          | _ \<Rightarrow> [Some (reference_error INVALID_INPUT ''session lacks explicit timestamps'')])
       else
         [raise_if (cdr_open_exchange_time_ns r \<noteq> None \<or> cdr_close_exchange_time_ns r \<noteq> None)
            (reference_error INVALID_INPUT ''closed day carries session timestamps'')]))"

record halt_revision =
  halt_id :: ustr
  halt_instrument_id :: identifier128
  halt_start_exchange_time_ns :: int
  halt_end_exchange_time_ns :: int
  halt_version :: int
  halt_provenance :: reference_provenance

definition halt_revision_post_init :: "halt_revision \<Rightarrow> reference_error option" where
  "halt_revision_post_init r = first_error
     [reference_text (halt_id r) ''halt_id'' REFERENCE_TEXT_BYTES,
      positive_ns (halt_start_exchange_time_ns r) ''start_exchange_time_ns'',
      positive_ns (halt_end_exchange_time_ns r) ''end_exchange_time_ns'',
      raise_if (halt_end_exchange_time_ns r \<le> halt_start_exchange_time_ns r \<or> halt_version r \<le> 0)
        (reference_error INVALID_INPUT ''halt interval/version is invalid'')]"

record reference_snapshot =
  rs_universe_source_sha256 :: ustr
  rs_source_report_sha256 :: ustr
  rs_as_of_ns :: int
  rs_instruments :: "instrument_revision list"
  rs_mappings :: "symbol_mapping_revision list"
  rs_corporate_actions :: "corporate_action_revision list"
  rs_calendar_days :: "calendar_day_revision list"
  rs_halts :: "halt_revision list"
  rs_halt_coverage_complete :: bool
  rs_schema_version :: ustr

definition reference_snapshot_post_init :: "reference_snapshot \<Rightarrow> reference_error option" where
  "reference_snapshot_post_init s = first_error
     [raise_if (rs_schema_version s \<noteq> REFERENCE_SCHEMA_VERSION)
        (reference_error UNSUPPORTED_SCHEMA ''snapshot version is unsupported''),
      raise_if (\<not> sha256_pattern (rs_universe_source_sha256 s) \<or> \<not> sha256_pattern (rs_source_report_sha256 s))
        (reference_error INVALID_INPUT ''snapshot source hash is malformed''),
      positive_ns (rs_as_of_ns s) ''as_of_ns'',
      raise_if (rs_mappings s = [] \<or> rs_calendar_days s = [])
        (reference_error INVALID_INPUT ''snapshot requires mappings and calendar coverage'')]"

datatype reference_revision =
    Instrument_Revision instrument_revision
  | Mapping_Revision symbol_mapping_revision
  | Action_Revision corporate_action_revision
  | Calendar_Revision calendar_day_revision
  | Halt_Revision halt_revision

fun revision_identity :: "reference_revision \<Rightarrow> ustr" where
  "revision_identity (Instrument_Revision r) = inst_revision_id r"
| "revision_identity (Mapping_Revision r) = smr_mapping_id r"
| "revision_identity (Action_Revision r) = car_action_id r"
| "revision_identity (Calendar_Revision r) = cdr_calendar_id r @ lit '':'' @ isoformat (cdr_session_date r)"
| "revision_identity (Halt_Revision r) = halt_id r"

fun revision_version :: "reference_revision \<Rightarrow> int" where
  "revision_version (Instrument_Revision r) = inst_version r"
| "revision_version (Mapping_Revision r) = smr_version r"
| "revision_version (Action_Revision r) = car_version r"
| "revision_version (Calendar_Revision r) = cdr_version r"
| "revision_version (Halt_Revision r) = halt_version r"

fun revision_provenance :: "reference_revision \<Rightarrow> reference_provenance" where
  "revision_provenance (Instrument_Revision r) = inst_provenance r"
| "revision_provenance (Mapping_Revision r) = smr_provenance r"
| "revision_provenance (Action_Revision r) = car_provenance r"
| "revision_provenance (Calendar_Revision r) = cdr_provenance r"
| "revision_provenance (Halt_Revision r) = halt_provenance r"

abbreviation revision_available :: "reference_revision \<Rightarrow> int" where
  "revision_available r \<equiv> provenance_available_at_ns (revision_provenance r)"

section \<open>The point-in-time reference store\<close>

record reference_store =
  store_snapshot :: reference_snapshot
  mappings_by_symbol :: "(ustr \<times> symbol_mapping_revision list) list"
  instruments_by_id :: "(identifier128 \<times> instrument_revision list) list"
  actions_by_instrument :: "(identifier128 \<times> corporate_action_revision list) list"
  calendar_by_date :: "(date \<times> calendar_day_revision list) list"
  halts_by_instrument :: "(identifier128 \<times> halt_revision list) list"

definition revision_groups :: "reference_snapshot \<Rightarrow> (string \<times> reference_revision list) list" where
  "revision_groups s =
     [(''instrument'', map Instrument_Revision (rs_instruments s)),
      (''mapping'', map Mapping_Revision (rs_mappings s)),
      (''action'', map Action_Revision (rs_corporate_actions s)),
      (''calendar'', map Calendar_Revision (rs_calendar_days s)),
      (''halt'', map Halt_Revision (rs_halts s))]"

definition typed_revisions :: "reference_snapshot \<Rightarrow> (string \<times> reference_revision) list" where
  "typed_revisions s = concat (map (\<lambda>(t, rs). map (Pair t) rs) (revision_groups s))"

definition check_group :: "(string \<times> ustr) \<times> (int \<times> int) list \<Rightarrow> reference_error option" where
  "check_group g =
     (case g of ((record_type, identity), versions) \<Rightarrow>
        let ordered = sort versions
        in first_error
          [raise_if (map fst ordered \<noteq> map int [1..<length ordered + 1])
             (ReferenceDataError CONFLICT
               (lit ''noncontiguous revisions for '' @ lit record_type @ lit '':'' @ identity)),
           raise_if (\<exists>(previous, current) \<in> set (pairwise_list ordered). snd current \<le> snd previous)
             (ReferenceDataError CONFLICT
               (lit ''revision time does not increase for '' @ lit record_type @ lit '':'' @ identity))])"

definition validate_lineage :: "reference_snapshot \<Rightarrow> reference_error option" where
  "validate_lineage s = first_error (map check_group
     (group_by (\<lambda>(t, r). (t, revision_identity r))
        (\<lambda>(t, r). (revision_version r, rp_revision_at_ns (revision_provenance r))) (typed_revisions s)))"

definition reference_store_init :: "reference_snapshot \<Rightarrow> reference_error + reference_store" where
  "reference_store_init s =
     (case validate_lineage s of
        Some e \<Rightarrow> Inl e
      | None \<Rightarrow> Inr
          \<lparr>store_snapshot = s,
           mappings_by_symbol = group_by smr_symbol (\<lambda>r. r) (rs_mappings s),
           instruments_by_id = group_by inst_instrument_id (\<lambda>r. r) (rs_instruments s),
           actions_by_instrument = group_by car_instrument_id (\<lambda>r. r) (rs_corporate_actions s),
           calendar_by_date = group_by cdr_session_date (\<lambda>r. r) (rs_calendar_days s),
           halts_by_instrument = group_by halt_instrument_id (\<lambda>r. r) (rs_halts s)\<rparr>)"

text \<open>
  \<open>_known_latest\<close> is generic in the kind of revision: \<open>as_revision\<close> is the cast of its element to the union type.
\<close>

definition known_latest ::
    "('a \<Rightarrow> reference_revision) \<Rightarrow> 'a list \<Rightarrow> int \<Rightarrow> reference_error + 'a list" where
  "known_latest as_revision records known_at_ns =
     (case positive_ns known_at_ns ''known_at_ns'' of
        Some e \<Rightarrow> Inl e
      | None \<Rightarrow>
          let ordered = sort_key (\<lambda>r. (revision_available (as_revision r), revision_version (as_revision r))) records;
              latest = fold (\<lambda>r d. if revision_available (as_revision r) \<le> known_at_ns
                                   then AList.update (revision_identity (as_revision r)) r d else d) ordered []
          in Inr (listing (\<lambda>k. k) latest))"

definition reference_mapping_at ::
    "reference_store \<Rightarrow> ustr \<Rightarrow> int \<Rightarrow> int \<Rightarrow> reference_error + symbol_mapping_revision option" where
  "reference_mapping_at st symbol effective_at_ns known_at_ns =
     bind_result (known_latest Mapping_Revision (group_of (mappings_by_symbol st) symbol) known_at_ns) (\<lambda>known.
       let candidates = filter (\<lambda>r. interval_contains (smr_effective r) effective_at_ns) known;
           identities = set (map identifier_hex (List.map_filter smr_instrument_id candidates))
       in if 1 < length candidates \<and> 1 < card identities
          then Inl (reference_error CONFLICT ''overlapping symbol mappings disagree'')
          else if candidates = [] then Inr None
          else Inr (Some (max_by (\<lambda>r. (smr_version r, smr_mapping_id r)) candidates)))"

definition instrument_at ::
    "reference_store \<Rightarrow> identifier128 \<Rightarrow> int \<Rightarrow> int \<Rightarrow> reference_error + instrument_revision option" where
  "instrument_at st instrument_id effective_at_ns known_at_ns =
     bind_result (known_latest Instrument_Revision (group_of (instruments_by_id st) instrument_id) known_at_ns)
       (\<lambda>known.
         let candidates = filter (\<lambda>r. interval_contains (inst_effective r) effective_at_ns) known;
             identities = set (map (\<lambda>r. (inst_primary_symbol r, inst_listing_venue r, inst_security_type r,
               inst_listing_date r, inst_delisting_date r)) candidates)
         in if candidates = [] then Inr None
            else if card identities \<noteq> 1
            then Inl (reference_error CONFLICT ''instrument revisions conflict'')
            else Inr (Some (max_by (\<lambda>r. (inst_version r, inst_revision_id r)) candidates)))"

definition corporate_actions_at ::
    "reference_store \<Rightarrow> identifier128 \<Rightarrow> int \<Rightarrow> int \<Rightarrow> reference_error + corporate_action_revision list" where
  "corporate_actions_at st instrument_id effective_at_ns known_at_ns =
     map_result (\<lambda>known. sort_key (\<lambda>r. (car_effective_time_ns r, car_action_id r))
         (filter (\<lambda>r. car_effective_time_ns r \<le> effective_at_ns) known))
       (known_latest Action_Revision (group_of (actions_by_instrument st) instrument_id) known_at_ns)"

definition split_step ::
    "int \<Rightarrow> int \<Rightarrow> corporate_action_revision \<Rightarrow> exact_ratio \<Rightarrow> reference_error + exact_ratio" where
  "split_step after_ns through_ns action multiplier =
     (case car_split_new_shares_per_old action of
        Some ratio \<Rightarrow>
          if car_kind action = SPLIT \<and> after_ns < car_effective_time_ns action \<and>
             car_effective_time_ns action \<le> through_ns
          then bind_result (ratio_inverse ratio) (ratio_multiply multiplier)
          else Inr multiplier
      | None \<Rightarrow> Inr multiplier)"

definition adjust_price_for_splits ::
    "reference_store \<Rightarrow> int \<Rightarrow> identifier128 \<Rightarrow> int \<Rightarrow> int \<Rightarrow> int \<Rightarrow> rounding_policy \<Rightarrow> reference_error + int" where
  "adjust_price_for_splits st price_currency_nanos instrument_id after_ns through_ns known_at_ns rounding =
     (if through_ns < after_ns
      then Inl (reference_error INVALID_INPUT ''adjustment interval is reversed'')
      else bind_result (exact_ratio_new 1 1) (\<lambda>one.
        bind_result (corporate_actions_at st instrument_id through_ns known_at_ns) (\<lambda>actions.
          bind_result (fold_result (split_step after_ns through_ns) actions one) (\<lambda>multiplier.
            ratio_apply multiplier price_currency_nanos rounding))))"

definition cash_dividends_at ::
    "reference_store \<Rightarrow> identifier128 \<Rightarrow> int \<Rightarrow> int \<Rightarrow> reference_error + corporate_action_revision list" where
  "cash_dividends_at st instrument_id effective_at_ns known_at_ns =
     map_result (filter (\<lambda>r. car_kind r = CASH_DIVIDEND))
       (corporate_actions_at st instrument_id effective_at_ns known_at_ns)"

definition halts_at ::
    "reference_store \<Rightarrow> identifier128 \<Rightarrow> int \<Rightarrow> int \<Rightarrow> int \<Rightarrow> reference_error + halt_revision list" where
  "halts_at st instrument_id start_exchange_time_ns end_exchange_time_ns known_at_ns =
     (if end_exchange_time_ns \<le> start_exchange_time_ns
      then Inl (reference_error INVALID_INPUT ''halt query interval is empty'')
      else map_result (\<lambda>known. sort_key (\<lambda>r. (halt_start_exchange_time_ns r, halt_id r))
          (filter (\<lambda>r. halt_start_exchange_time_ns r < end_exchange_time_ns \<and>
             start_exchange_time_ns < halt_end_exchange_time_ns r) known))
        (known_latest Halt_Revision (group_of (halts_by_instrument st) instrument_id) known_at_ns))"

definition calendar_day_at ::
    "reference_store \<Rightarrow> date \<Rightarrow> int \<Rightarrow> reference_error + calendar_day_revision" where
  "calendar_day_at st session_date known_at_ns =
     bind_result (known_latest Calendar_Revision (group_of (calendar_by_date st) session_date) known_at_ns)
       (\<lambda>candidates.
         let states = set (map (\<lambda>r. (cdr_kind r, cdr_open_exchange_time_ns r, cdr_close_exchange_time_ns r))
               candidates)
         in if candidates = []
            then Inl (ReferenceDataError MISSING_CALENDAR
              (lit ''calendar date '' @ isoformat session_date @ lit '' is unavailable''))
            else if card states \<noteq> 1
            then Inl (reference_error CONFLICT ''calendar sources conflict'')
            else Inr (max_by cdr_version candidates))"

section \<open>The bound resolver\<close>

record bound_resolver =
  br_store :: reference_store
  br_effective_at_ns :: int
  br_known_at_ns :: int

definition as_universe_resolver :: "reference_store \<Rightarrow> int \<Rightarrow> int \<Rightarrow> bound_resolver" where
  "as_universe_resolver st effective_at_ns known_at_ns =
     \<lparr>br_store = st, br_effective_at_ns = effective_at_ns, br_known_at_ns = known_at_ns\<rparr>"

fun status_code :: "mapping_status \<Rightarrow> instrument_resolution_code" where
  "status_code RESOLVED_CURRENT_ONLY = RESOLVED"
| "status_code STATUS_RECENTLY_LISTED = RECENTLY_LISTED"
| "status_code STATUS_DELISTED = DELISTED"
| "status_code UNSUPPORTED_VENUE = UNSUPPORTED"
| "status_code AMBIGUOUS = AMBIGUOUS_REFERENCE"
| "status_code MISSING_REFERENCE = MISSING_REFERENCE_DATA"

text \<open>The resolver raises the errors of the store or of the resolution it constructs.\<close>

datatype resolver_error = Store_Error reference_error | Resolution_Error "unit universe_error"

definition resolution_new ::
    "instrument_resolution_code \<Rightarrow> identifier128 option \<Rightarrow> resolver_error + instrument_resolution" where
  "resolution_new code instrument_id =
     (case construct instrument_resolution_post_init \<lparr>ir_code = code, ir_instrument_id = instrument_id\<rparr> of
        Inl e \<Rightarrow> Inl (Resolution_Error e) | Inr r \<Rightarrow> Inr r)"

definition bound_resolve :: "bound_resolver \<Rightarrow> ustr \<Rightarrow> resolver_error + instrument_resolution" where
  "bound_resolve b symbol =
     (case reference_mapping_at (br_store b) symbol (br_effective_at_ns b) (br_known_at_ns b) of
        Inl e \<Rightarrow> Inl (Store_Error e)
      | Inr None \<Rightarrow> resolution_new MISSING_REFERENCE_DATA None
      | Inr (Some mapping) \<Rightarrow>
          let code = status_code (smr_status mapping)
          in resolution_new code (if code = RESOLVED then smr_instrument_id mapping else None))"

end
