(* ===== verification/Py_Values.thy ===== *)
theory Py_Values
  imports Reference
begin

text \<open>
  The part of Python's \<open>decimal\<close> and \<open>datetime\<close> modules the canonical minute code uses.

  \<^item> \<open>py_decimal\<close>: a sign, a coefficient and an exponent, or one of the special values. \<open>decimal_times\<close> is
    multiplication by an integer under the default context: the exact product rounded half-even to 28 digits,
    exponents between \<open>E\<^sub>t\<^sub>i\<^sub>n\<^sub>y\<close> = -1000026 and 999999, \<open>InvalidOperation\<close> and \<open>Overflow\<close> trapped.
  \<^item> \<open>date_fromisoformat\<close>: the three lengths (in UTF-8 bytes) and the two notations (calendar and ISO week) that
    \<open>date.fromisoformat\<close> accepts; like the C implementation it does not look at the characters of a
    ten-byte text that follow a complete date.
\<close>

section \<open>Decimals\<close>

datatype py_decimal =
    Finite bool nat int
  | Infinity bool
  | Quiet_NaN
  | Signalling_NaN

datatype decimal_signal = InvalidOperation | Decimal_Overflow

definition DECIMAL_PREC :: nat where "DECIMAL_PREC = 28"
definition DECIMAL_EMAX :: int where "DECIMAL_EMAX = 999999"
definition DECIMAL_ETINY :: int where "DECIMAL_ETINY = - 1000026"

text \<open>\<open>c\<close> divided by \<open>10 ^ k\<close>, rounded half-even.\<close>

definition shift_half_even :: "nat \<Rightarrow> nat \<Rightarrow> nat" where
  "shift_half_even c k =
     (let q = c div 10 ^ k; r = c mod 10 ^ k
      in if 10 ^ k < 2 * r \<or> 10 ^ k = 2 * r \<and> q mod 2 = 1 then q + 1 else q)"

definition digit_count :: "nat \<Rightarrow> nat" where
  "digit_count c = length (nat_dec c)"

text \<open>
  The result of an operation, brought into the context: at most 28 digits (a carry to 29 digits drops the last
  zero), and not below the least exponent; beyond the largest exponent the operation overflows, except for zero,
  whose exponent is clamped.
\<close>

definition fit_precision :: "nat \<Rightarrow> int \<Rightarrow> nat \<times> int" where
  "fit_precision c e =
     (let k = max (digit_count c - DECIMAL_PREC) (nat (DECIMAL_ETINY - e));
          q = shift_half_even c k
      in if DECIMAL_PREC < digit_count q then (q div 10, e + int k + 1) else (q, e + int k))"

definition finish_decimal :: "bool \<Rightarrow> nat \<Rightarrow> int \<Rightarrow> decimal_signal + py_decimal" where
  "finish_decimal negative c e =
     (if c = 0 then Inr (Finite negative 0 (min (max e DECIMAL_ETINY) DECIMAL_EMAX))
      else case fit_precision c e of (q, x) \<Rightarrow>
        if DECIMAL_EMAX < x + int (digit_count q) - 1 then Inl Decimal_Overflow
        else Inr (Finite negative q x))"

fun decimal_times :: "py_decimal \<Rightarrow> nat \<Rightarrow> decimal_signal + py_decimal" where
  "decimal_times (Finite negative c e) n = finish_decimal negative (c * n) e"
| "decimal_times (Infinity negative) n = (if n = 0 then Inl InvalidOperation else Inr (Infinity negative))"
| "decimal_times Quiet_NaN n = Inr Quiet_NaN"
| "decimal_times Signalling_NaN n = Inl InvalidOperation"

text \<open>\<open>Decimal(i)\<close> of an integer is exact.\<close>

definition decimal_of_int :: "int \<Rightarrow> py_decimal" where
  "decimal_of_int i = Finite (i < 0) (nat \<bar>i\<bar>) 0"

fun is_finite :: "py_decimal \<Rightarrow> bool" where
  "is_finite (Finite negative c e) = True"
| "is_finite d = False"

text \<open>\<open>d == d.to_integral_value()\<close> and \<open>int(d)\<close> of a finite decimal.\<close>

fun is_integral :: "py_decimal \<Rightarrow> bool" where
  "is_integral (Finite negative c e) = (0 \<le> e \<or> c mod 10 ^ nat (- e) = 0)"
| "is_integral d = False"

fun int_of_decimal :: "py_decimal \<Rightarrow> int" where
  "int_of_decimal (Finite negative c e) =
     (let m = (if 0 \<le> e then int c * 10 ^ nat e else int c div 10 ^ nat (- e))
      in if negative then - m else m)"
| "int_of_decimal d = 0"

section \<open>Dates\<close>

definition is_leap :: "int \<Rightarrow> bool" where
  "is_leap y \<longleftrightarrow> y mod 4 = 0 \<and> (y mod 100 \<noteq> 0 \<or> y mod 400 = 0)"

definition days_in_month :: "int \<Rightarrow> int \<Rightarrow> int" where
  "days_in_month y m =
     (if m = 2 then (if is_leap y then 29 else 28) else if m \<in> {4, 6, 9, 11} then 30 else 31)"

definition days_before_year :: "int \<Rightarrow> int" where
  "days_before_year y = (let p = y - 1 in p * 365 + p div 4 - p div 100 + p div 400)"

definition days_before_month :: "int \<Rightarrow> int \<Rightarrow> int" where
  "days_before_month y m = sum_list (map (days_in_month y) [1..m - 1])"

definition ymd_to_ordinal :: "int \<Rightarrow> int \<Rightarrow> int \<Rightarrow> int" where
  "ymd_to_ordinal y m d = days_before_year y + days_before_month y m + d"

definition date_new :: "int \<Rightarrow> int \<Rightarrow> int \<Rightarrow> py_error + date" where
  "date_new y m d =
     (if \<not> (1 \<le> y \<and> y \<le> 9999) then Inl (ValueError ''year is out of range'')
      else if \<not> (1 \<le> m \<and> m \<le> 12) then Inl (ValueError ''month must be in 1..12'')
      else if \<not> (1 \<le> d \<and> d \<le> days_in_month y m) then Inl (ValueError ''day is out of range for month'')
      else Inr (Date y m d))"

text \<open>The month and day of the \<open>n\<close>-th day of a year, counted from zero.\<close>

fun month_day :: "int \<Rightarrow> int list \<Rightarrow> int \<Rightarrow> int \<times> int" where
  "month_day y [] n = (12, n + 1)"
| "month_day y (m # ms) n =
     (if n < days_in_month y m then (m, n + 1) else month_day y ms (n - days_in_month y m))"

text \<open>
  A day of an ISO year lies in that year or in one of its neighbours, so three candidate years suffice to find it.
\<close>

definition ordinal_to_ymd_near :: "int \<Rightarrow> int \<Rightarrow> int \<times> int \<times> int" where
  "ordinal_to_ymd_near y n =
     (let year = (if n \<le> days_before_year y then y - 1
                  else if days_before_year (y + 1) < n then y + 1 else y)
      in (year, month_day year [1..11] (n - days_before_year year - 1)))"

definition iso_week1_monday :: "int \<Rightarrow> int" where
  "iso_week1_monday y =
     (let first_day = ymd_to_ordinal y 1 1;
          first_weekday = (first_day + 6) mod 7;
          week1_monday = first_day - first_weekday
      in if 3 < first_weekday then week1_monday + 7 else week1_monday)"

definition iso_to_ymd :: "int \<Rightarrow> int \<Rightarrow> int \<Rightarrow> (int \<times> int \<times> int) option" where
  "iso_to_ymd y week day =
     (let first_weekday = (ymd_to_ordinal y 1 1 + 6) mod 7;
          long_year = (first_weekday = 3 \<or> first_weekday = 2 \<and> is_leap y)
      in if \<not> (1 \<le> y \<and> y \<le> 9999) then None
         else if \<not> (0 < week \<and> week < 53 \<or> week = 53 \<and> long_year) then None
         else if \<not> (0 < day \<and> day < 8) then None
         else Some (ordinal_to_ymd_near y (iso_week1_monday y + (week - 1) * 7 + day - 1)))"

definition iso_digits :: "nat \<Rightarrow> nat list \<Rightarrow> (int \<times> nat list) option" where
  "iso_digits n t =
     (if length t < n \<or> \<not> (\<forall>c \<in> set (take n t). 48 \<le> c \<and> c \<le> 57) then None
      else Some (fold (\<lambda>c v. v * 10 + int c - 48) (take n t) 0, drop n t))"

definition iso_dash :: "bool \<Rightarrow> nat list \<Rightarrow> nat list option" where
  "iso_dash separated t =
     (if separated then (case t of c # rest \<Rightarrow> if c = 45 then Some rest else None | [] \<Rightarrow> None) else Some t)"

definition parse_week_date :: "int \<Rightarrow> bool \<Rightarrow> nat list \<Rightarrow> (int \<times> int \<times> int) option" where
  "parse_week_date y separated t =
     Option.bind (iso_digits 2 t) (\<lambda>(week, rest).
       if rest = [] then iso_to_ymd y week 1
       else Option.bind (iso_dash separated rest) (\<lambda>rest.
         Option.bind (iso_digits 1 rest) (\<lambda>(day, _). iso_to_ymd y week day)))"

definition parse_month_date :: "int \<Rightarrow> bool \<Rightarrow> nat list \<Rightarrow> (int \<times> int \<times> int) option" where
  "parse_month_date y separated t =
     Option.bind (iso_digits 2 t) (\<lambda>(m, rest).
       Option.bind (iso_dash separated rest) (\<lambda>rest.
         Option.bind (iso_digits 2 rest) (\<lambda>(d, _). Some (y, m, d))))"

definition parse_isoformat_date :: "nat list \<Rightarrow> (int \<times> int \<times> int) option" where
  "parse_isoformat_date t =
     Option.bind (iso_digits 4 t) (\<lambda>(y, rest).
       let separated = (take 1 rest = [45]); rest = (if separated then drop 1 rest else rest)
       in if take 1 rest = [87] then parse_week_date y separated (drop 1 rest)
          else parse_month_date y separated rest)"

definition date_fromisoformat :: "ustr \<Rightarrow> py_error + date" where
  "date_fromisoformat t =
     (if utf8_length t \<notin> {Some 7, Some 8, Some 10} then Inl (ValueError ''Invalid isoformat string'')
      else case parse_isoformat_date t of
        None \<Rightarrow> Inl (ValueError ''Invalid isoformat string'')
      | Some (y, m, d) \<Rightarrow> date_new y m d)"

end
