(* ===== verification/Reference_Proofs.thy ===== *)
theory Reference_Proofs
  imports Complex_Main Reference
begin

text \<open>
  Properties of the point-in-time reference data: groups and maxima, what is known at a time, lineage,
  non-interference of later knowledge, exact ratios as rational numbers, split adjustment, the bound resolver
  as a \<open>universe_resolver\<close>, and a worked example.
\<close>

section \<open>Groups and maxima\<close>

lemma map_of_map_default:
  "map_of (AList.map_default k v f d) =
     (map_of d)(k \<mapsto> (case map_of d k of None \<Rightarrow> v | Some w \<Rightarrow> f w))"
  by (induction d) (auto simp: fun_eq_iff)

lemma keys_map_default: "fst ` set (AList.map_default k v f d) = insert k (fst ` set d)"
  by (induction d) auto

lemma distinct_map_default:
  "distinct (map fst d) \<Longrightarrow> distinct (map fst (AList.map_default k v f d))"
proof (induction d)
  case (Cons p d)
  have "fst p \<noteq> k \<Longrightarrow> fst p \<notin> fst ` set (AList.map_default k v f d)"
    using Cons.prems by (simp add: keys_map_default)
  then show ?case using Cons by (cases p) auto
qed simp

lemma group_by_snoc:
  "group_by key f (xs @ [x]) =
     AList.map_default (key x) [f x] (\<lambda>l. l @ [f x]) (group_by key f xs)"
  by (simp add: group_by_def)

lemma map_of_group_by:
  "map_of (group_by key f xs) k =
     (if k \<in> key ` set xs then Some (map f (filter (\<lambda>x. key x = k) xs)) else None)"
proof (induction xs rule: rev_induct)
  case Nil
  show ?case by (simp add: group_by_def)
next
  case (snoc x xs)
  have "filter (\<lambda>y. key y = k) xs = []" if "k \<notin> key ` set xs"
    using that by (auto simp: filter_empty_conv)
  then show ?case using snoc by (auto simp: group_by_snoc map_of_map_default)
qed

lemma keys_group_by: "fst ` set (group_by key f xs) = key ` set xs"
  by (induction xs rule: rev_induct) (simp_all add: group_by_def keys_map_default)

lemma distinct_group_by: "distinct (map fst (group_by key f xs))"
  by (induction xs rule: rev_induct) (simp_all add: group_by_def distinct_map_default)

lemma in_group_by:
  "(k, l) \<in> set (group_by key f xs) \<longleftrightarrow> k \<in> key ` set xs \<and> l = map f (filter (\<lambda>x. key x = k) xs)"
  using map_of_eq_Some_iff [OF distinct_group_by, of key f xs k l] by (auto simp: map_of_group_by split: if_splits)

lemma group_of_group_by [simp]:
  "group_of (group_by key f xs) k = map f (filter (\<lambda>x. key x = k) xs)"
  by (auto simp: group_of_def map_of_group_by filter_empty_conv)

lemma fold_max:
  fixes f :: "'a \<Rightarrow> 'o::linorder"
  shows "fold (\<lambda>y m. if f m < f y then y else m) xs x \<in> insert x (set xs) \<and>
   (\<forall>y \<in> insert x (set xs). f y \<le> f (fold (\<lambda>y m. if f m < f y then y else m) xs x))"
proof (induction xs arbitrary: x)
  case (Cons y ys)
  define z where "z = (if f x < f y then y else x)"
  define m where "m = fold (\<lambda>y m. if f m < f y then y else m) ys z"
  have z: "f x \<le> f z" "f y \<le> f z" "z = x \<or> z = y" by (auto simp: z_def)
  have m: "m \<in> insert z (set ys)" "f z \<le> f m" "\<forall>y \<in> set ys. f y \<le> f m"
    using Cons.IH [of z] unfolding m_def by auto
  have "f x \<le> f m" "f y \<le> f m" using z(1,2) m(2) by (auto intro: order_trans)
  moreover have "fold (\<lambda>y m. if f m < f y then y else m) (y # ys) x = m" by (simp add: m_def z_def)
  ultimately show ?case using m z(3) by auto
qed simp

lemma max_by_greatest:
  assumes "xs \<noteq> []"
  shows "max_by f xs \<in> set xs" and "\<forall>y \<in> set xs. f y \<le> f (max_by f xs)"
  using assms fold_max [of f "tl xs" "hd xs"] by (cases xs; simp)+

section \<open>Revisions known at a time\<close>

abbreviation known_key :: "('a \<Rightarrow> reference_revision) \<Rightarrow> 'a \<Rightarrow> int \<times> int" where
  "known_key as_revision r \<equiv> (revision_available (as_revision r), revision_version (as_revision r))"

abbreviation available_by :: "('a \<Rightarrow> reference_revision) \<Rightarrow> int \<Rightarrow> 'a \<Rightarrow> bool" where
  "available_by as_revision k r \<equiv> revision_available (as_revision r) \<le> k"

definition latest_listing :: "('a \<Rightarrow> reference_revision) \<Rightarrow> 'a list \<Rightarrow> int \<Rightarrow> 'a list" where
  "latest_listing as_revision records k = listing (\<lambda>k. k)
     (collect_last (\<lambda>r. revision_identity (as_revision r))
        (sort_key (known_key as_revision) (filter (available_by as_revision k) records)))"

lemma known_latest_eq:
  "known_latest as_revision records k =
     (if 0 < k \<and> k \<le> INT64_MAX then Inr (latest_listing as_revision records k)
      else Inl (reference_error INVALID_INPUT ''known_at_ns is not a positive int64''))"
  by (auto simp: known_latest_def positive_ns_def raise_if_def Let_def latest_listing_def fold_if_filter
      collect_last_def filter_sort)

lemma latest_listing_depends:
  assumes "filter (available_by as_revision k) records = filter (available_by as_revision k) records'"
  shows "latest_listing as_revision records k = latest_listing as_revision records' k"
  using assms by (simp add: latest_listing_def)

text \<open>The last element of a sorted list is one with the largest key.\<close>

lemma last_sorted_greatest:
  fixes f :: "'a \<Rightarrow> 'o::linorder"
  assumes "sorted (map f xs)" "xs \<noteq> []" "y \<in> set xs"
  shows "f y \<le> f (last xs)"
proof -
  obtain ys z where "xs = ys @ [z]" using assms(2) by (cases xs rule: rev_cases) auto
  then show ?thesis using assms(1,3) by (auto simp: sorted_append)
qed

lemma last_per_key_greatest:
  assumes "last_per_key key (sort_key f xs) k = Some x"
  shows "x \<in> set xs \<and> key x = k \<and> (\<forall>y \<in> set xs. key y = k \<longrightarrow> f y \<le> f x)"
proof -
  let ?ys = "filter (\<lambda>y. key y = k) (sort_key f xs)"
  have x: "x = last ?ys" "?ys \<noteq> []" using assms by (auto simp: last_per_key_def Let_def split: if_splits)
  have "sorted (map f ?ys)" by (rule sorted_filter) simp
  from last_sorted_greatest [OF this x(2)] have "\<forall>y \<in> set ?ys. f y \<le> f x" unfolding x(1) by blast
  then show ?thesis using last_per_key_SomeD [OF assms] by auto
qed

lemma latest_listing_member:
  assumes "r \<in> set (latest_listing as_revision records k)"
  shows "r \<in> set records \<and> available_by as_revision k r \<and>
    (\<forall>r' \<in> set records. available_by as_revision k r' \<and>
       revision_identity (as_revision r') = revision_identity (as_revision r) \<longrightarrow>
       known_key as_revision r' \<le> known_key as_revision r)"
proof -
  let ?id = "\<lambda>r. revision_identity (as_revision r)"
  have "last_per_key ?id (sort_key (known_key as_revision) (filter (available_by as_revision k) records)) (?id r) = Some r"
    using assms unfolding latest_listing_def in_listing_collect .
  from last_per_key_greatest [OF this] show ?thesis by simp
qed

lemma latest_listing_covers:
  assumes "r \<in> set records" "available_by as_revision k r"
  shows "\<exists>r' \<in> set (latest_listing as_revision records k).
    revision_identity (as_revision r') = revision_identity (as_revision r)"
proof -
  let ?xs = "sort_key (known_key as_revision) (filter (available_by as_revision k) records)"
  let ?id = "\<lambda>r. revision_identity (as_revision r)"
  have "last_per_key ?id ?xs (?id r) \<noteq> None" using assms by simp
  then obtain x where x: "last_per_key ?id ?xs (?id r) = Some x" by blast
  then have "last_per_key ?id ?xs (?id x) = Some x" using last_per_key_SomeD(2) [OF x] by simp
  then show ?thesis
    using last_per_key_SomeD(2) [OF x] by (auto simp: latest_listing_def in_listing_collect intro: bexI [of _ x])
qed

lemma latest_listing_sorted:
  "sorted (map (\<lambda>r. revision_identity (as_revision r)) (latest_listing as_revision records k))"
  "distinct (map (\<lambda>r. revision_identity (as_revision r)) (latest_listing as_revision records k))"
  using sorted_listing_collect [where ord = "\<lambda>k. k"] distinct_listing_collect
  by (auto simp: latest_listing_def)

lemma distinct_latest_listing: "distinct (latest_listing as_revision records k)"
  using latest_listing_sorted(2) [of as_revision records k] by (simp add: distinct_map)

section \<open>Lineage\<close>

text \<open>
  The lineage rule: ordered by version, the revisions of one identity are numbered from one without a gap and
  their revision times strictly increase.
\<close>

definition revision_lineage :: "reference_revision list \<Rightarrow> bool" where
  "revision_lineage rs \<longleftrightarrow>
     (let ordered = sort_key revision_version rs
      in map revision_version ordered = map int [1..<length rs + 1] \<and>
         sorted_wrt (<) (map (\<lambda>r. rp_revision_at_ns (revision_provenance r)) ordered))"

abbreviation lineage_pair :: "reference_revision \<Rightarrow> int \<times> int" where
  "lineage_pair r \<equiv> (revision_version r, rp_revision_at_ns (revision_provenance r))"

lemma sorted_fst: "sorted (ps :: ('a::linorder \<times> 'b::linorder) list) \<Longrightarrow> sorted (map fst ps)"
  by (induction ps) (auto simp: less_eq_prod_def)

lemma map_fst_sort: "map fst (sort ps) = sort (map fst (ps :: ('a::linorder \<times> 'b::linorder) list))"
  by (rule properties_for_sort [symmetric]) (simp_all add: sorted_fst)

lemma sorted_by_fst:
  fixes ps :: "('a::linorder \<times> 'b::linorder) list"
  assumes "sorted (map fst ps)" "distinct (map fst ps)"
  shows "sorted ps"
  using assms
proof (induction ps)
  case (Cons p ps)
  have "p \<le> q" if "q \<in> set ps" for q
  proof -
    have "fst p \<le> fst q" "fst p \<noteq> fst q" using Cons.prems that by auto
    then show ?thesis by (simp add: less_eq_prod_def order_less_le)
  qed
  then show ?case using Cons by simp
qed simp

lemma pairwise_list_Nil [simp]: "pairwise_list [] = []"
  by (simp add: pairwise_list_def)

lemma pairwise_increasing:
  "(\<forall>(p, c) \<in> set (pairwise_list ps). snd p < snd c) \<longleftrightarrow>
     sorted_wrt (<) (map snd (ps :: ('a \<times> 'b::linorder) list))"
proof (induction ps rule: induct_list012)
  case (3 p q ps)
  then show ?case by (auto simp: pairwise_list_def intro: less_trans)
qed (simp_all add: pairwise_list_def)

lemma check_group_ok:
  "check_group (k, map lineage_pair rs) = None \<longleftrightarrow> revision_lineage rs"
proof -
  let ?ps = "map lineage_pair rs" and ?ordered = "sort_key revision_version rs"
  have fsts: "map fst (sort ?ps) = map revision_version ?ordered"
    by (simp add: map_fst_sort map_sort_key comp_def)
  have same: "sort ?ps = map lineage_pair ?ordered"
    if "map revision_version ?ordered = map int [1..<length rs + 1]"
  proof (rule properties_for_sort)
    have "distinct (map revision_version ?ordered)" unfolding that by (simp add: distinct_map)
    then show "sorted (map lineage_pair ?ordered)" by (intro sorted_by_fst) (simp_all add: comp_def)
  qed simp
  show ?thesis
    unfolding check_group_def revision_lineage_def fsts [symmetric]
    using same fsts pairwise_increasing [of "sort ?ps"]
    by (cases k) (auto simp: Let_def not_le comp_def)
qed

lemma typed_revisions_group:
  assumes "(t, rs) \<in> set (revision_groups s)"
  shows "map snd (filter (\<lambda>(t', r). t' = t \<and> revision_identity r = i) (typed_revisions s)) =
    filter (\<lambda>r. revision_identity r = i) rs"
proof -
  have part: "map snd (filter (\<lambda>(t', r). t' = t \<and> revision_identity r = i) (map (Pair u) xs)) =
      (if u = t then filter (\<lambda>r. revision_identity r = i) xs else [])" for u xs
    by (induction xs) auto
  show ?thesis using assms by (auto simp: typed_revisions_def revision_groups_def part simp del: map_map)
qed

lemma validate_lineage_ok:
  "validate_lineage s = None \<longleftrightarrow>
     (\<forall>(t, rs) \<in> set (revision_groups s). \<forall>i. revision_lineage (filter (\<lambda>r. revision_identity r = i) rs))"
proof -
  let ?key = "\<lambda>(t, r). (t, revision_identity r)" and ?pair = "\<lambda>(t :: string, r). lineage_pair r"
  have group: "map ?pair (filter (\<lambda>x. ?key x = (t, i)) (typed_revisions s)) =
      map lineage_pair (filter (\<lambda>r. revision_identity r = i) rs)" if "(t, rs) \<in> set (revision_groups s)" for t rs i
  proof -
    have "filter (\<lambda>x. ?key x = (t, i)) (typed_revisions s) =
        filter (\<lambda>(t', r). t' = t \<and> revision_identity r = i) (typed_revisions s)"
      by (rule filter_cong) auto
    then show ?thesis
      unfolding typed_revisions_group [OF that, symmetric] by (simp add: comp_def case_prod_beta)
  qed
  have keys: "?key ` set (typed_revisions s) =
      {(t, revision_identity r) | t r rs. (t, rs) \<in> set (revision_groups s) \<and> r \<in> set rs}"
    by (force simp: typed_revisions_def)
  have empty: "revision_lineage []" by (simp add: revision_lineage_def)
  show ?thesis
  proof (intro iffI ballI)
    fix x assume valid: "validate_lineage s = None" and x: "x \<in> set (revision_groups s)"
    obtain t rs where x': "x = (t, rs)" by (cases x)
    have "revision_lineage (filter (\<lambda>r. revision_identity r = i) rs)" for i
    proof (cases "\<exists>r \<in> set rs. revision_identity r = i")
      case True
      then have "(t, i) \<in> ?key ` set (typed_revisions s)" using x x' unfolding keys by blast
      then have "((t, i), map ?pair (filter (\<lambda>x. ?key x = (t, i)) (typed_revisions s)))
          \<in> set (group_by ?key ?pair (typed_revisions s))" by (simp add: in_group_by)
      then have "check_group ((t, i), map ?pair (filter (\<lambda>x. ?key x = (t, i)) (typed_revisions s))) = None"
        using valid unfolding validate_lineage_def by auto
      then show ?thesis unfolding group [OF x [unfolded x']] check_group_ok .
    next
      case False
      then have "filter (\<lambda>r. revision_identity r = i) rs = []" by (simp add: filter_empty_conv)
      then show ?thesis using empty by simp
    qed
    then show "case x of (t, rs) \<Rightarrow> \<forall>i. revision_lineage (filter (\<lambda>r. revision_identity r = i) rs)"
      using x' by simp
  next
    assume all: "\<forall>(t, rs) \<in> set (revision_groups s). \<forall>i. revision_lineage (filter (\<lambda>r. revision_identity r = i) rs)"
    have "check_group g = None" if g: "g \<in> set (group_by ?key ?pair (typed_revisions s))" for g
    proof -
      obtain t i vs where g': "g = ((t, i), vs)" by (cases g) auto
      have in': "(t, i) \<in> ?key ` set (typed_revisions s)"
        and vs: "vs = map ?pair (filter (\<lambda>x. ?key x = (t, i)) (typed_revisions s))"
        using g unfolding g' in_group_by by auto
      obtain rs where rs: "(t, rs) \<in> set (revision_groups s)" using in' unfolding keys by blast
      have "revision_lineage (filter (\<lambda>r. revision_identity r = i) rs)" using all rs by blast
      then show ?thesis unfolding g' vs group [OF rs] check_group_ok .
    qed
    then show "validate_lineage s = None" by (auto simp: validate_lineage_def)
  qed
qed

lemma reference_store_init_Inr:
  "reference_store_init s = Inr st \<longleftrightarrow> validate_lineage s = None \<and> st =
     \<lparr>store_snapshot = s,
      mappings_by_symbol = group_by smr_symbol (\<lambda>r. r) (rs_mappings s),
      instruments_by_id = group_by inst_instrument_id (\<lambda>r. r) (rs_instruments s),
      actions_by_instrument = group_by car_instrument_id (\<lambda>r. r) (rs_corporate_actions s),
      calendar_by_date = group_by cdr_session_date (\<lambda>r. r) (rs_calendar_days s),
      halts_by_instrument = group_by halt_instrument_id (\<lambda>r. r) (rs_halts s)\<rparr>"
  by (auto simp: reference_store_init_def split: option.splits)

lemma lineage_versions_distinct: "revision_lineage rs \<Longrightarrow> distinct (map revision_version rs)"
proof -
  assume "revision_lineage rs"
  then have "map revision_version (sort_key revision_version rs) = map int [1..<length rs + 1]"
    by (simp add: revision_lineage_def Let_def)
  then have "sort (map revision_version rs) = map int [1..<length rs + 1]" by (simp add: map_sort_key)
  then have "distinct (sort (map revision_version rs))" by (simp add: distinct_map)
  then show ?thesis by simp
qed

section \<open>Queries see only what was known\<close>

definition same_knowledge :: "int \<Rightarrow> reference_snapshot \<Rightarrow> reference_snapshot \<Rightarrow> bool" where
  "same_knowledge k s s' \<longleftrightarrow>
     filter (available_by Mapping_Revision k) (rs_mappings s) =
       filter (available_by Mapping_Revision k) (rs_mappings s') \<and>
     filter (available_by Instrument_Revision k) (rs_instruments s) =
       filter (available_by Instrument_Revision k) (rs_instruments s') \<and>
     filter (available_by Action_Revision k) (rs_corporate_actions s) =
       filter (available_by Action_Revision k) (rs_corporate_actions s') \<and>
     filter (available_by Calendar_Revision k) (rs_calendar_days s) =
       filter (available_by Calendar_Revision k) (rs_calendar_days s') \<and>
     filter (available_by Halt_Revision k) (rs_halts s) =
       filter (available_by Halt_Revision k) (rs_halts s')"

lemma known_latest_group:
  assumes "filter (available_by as_revision k) records = filter (available_by as_revision k) records'"
  shows "known_latest as_revision (group_of (group_by key (\<lambda>r. r) records) x) k =
    known_latest as_revision (group_of (group_by key (\<lambda>r. r) records') x) k"
proof -
  have swap: "filter (available_by as_revision k) (filter (\<lambda>r. key r = x) rs) =
      filter (\<lambda>r. key r = x) (filter (available_by as_revision k) rs)" for rs
    by (simp add: conj_commute)
  have "latest_listing as_revision (filter (\<lambda>r. key r = x) records) k =
      latest_listing as_revision (filter (\<lambda>r. key r = x) records') k"
    by (rule latest_listing_depends) (simp only: swap assms)
  then show ?thesis by (simp add: known_latest_eq)
qed

lemma same_knowledge_queries:
  assumes "reference_store_init s = Inr st" "reference_store_init s' = Inr st'" "same_knowledge k s s'"
  shows "reference_mapping_at st symbol t k = reference_mapping_at st' symbol t k"
    and "instrument_at st i t k = instrument_at st' i t k"
    and "corporate_actions_at st i t k = corporate_actions_at st' i t k"
    and "halts_at st i t u k = halts_at st' i t u k"
    and "calendar_day_at st d k = calendar_day_at st' d k"
proof -
  note init = assms(1,2) [unfolded reference_store_init_Inr]
  note same = assms(3) [unfolded same_knowledge_def]
  show "reference_mapping_at st symbol t k = reference_mapping_at st' symbol t k"
    using init same by (simp add: reference_mapping_at_def known_latest_group [of Mapping_Revision k "rs_mappings s" "rs_mappings s'"]
        del: group_of_group_by)
  show "instrument_at st i t k = instrument_at st' i t k"
    using init same by (simp add: instrument_at_def known_latest_group [of Instrument_Revision k "rs_instruments s" "rs_instruments s'"]
        del: group_of_group_by)
  show "corporate_actions_at st i t k = corporate_actions_at st' i t k"
    using init same by (simp add: corporate_actions_at_def
        known_latest_group [of Action_Revision k "rs_corporate_actions s" "rs_corporate_actions s'"] del: group_of_group_by)
  show "halts_at st i t u k = halts_at st' i t u k"
    using init same by (simp add: halts_at_def known_latest_group [of Halt_Revision k "rs_halts s" "rs_halts s'"]
        del: group_of_group_by)
  show "calendar_day_at st d k = calendar_day_at st' d k"
    using init same by (simp add: calendar_day_at_def known_latest_group [of Calendar_Revision k "rs_calendar_days s" "rs_calendar_days s'"]
        del: group_of_group_by)
qed

section \<open>Symbol mappings and the universe\<close>

lemma reference_mapping_at_Some:
  assumes "reference_store_init s = Inr st" and "reference_mapping_at st symbol t k = Inr (Some m)"
  shows "m \<in> set (rs_mappings s) \<and> smr_symbol m = symbol \<and> available_by Mapping_Revision k m \<and>
    interval_contains (smr_effective m) t"
proof -
  let ?known = "latest_listing Mapping_Revision (filter (\<lambda>r. smr_symbol r = symbol) (rs_mappings s)) k"
  let ?candidates = "filter (\<lambda>r. interval_contains (smr_effective r) t) ?known"
  have "?candidates \<noteq> [] \<and> m = max_by (\<lambda>r. (smr_version r, smr_mapping_id r)) ?candidates"
    using assms unfolding reference_store_init_Inr
    by (auto simp: reference_mapping_at_def known_latest_eq Let_def split: if_splits)
  then have "m \<in> set ?candidates" using max_by_greatest(1) by metis
  then show ?thesis using latest_listing_member [of m Mapping_Revision] by fastforce
qed

lemma resolution_new_Inr:
  "resolution_new code i = Inr r \<longleftrightarrow>
     (code = RESOLVED) = (i \<noteq> None) \<and> r = \<lparr>ir_code = code, ir_instrument_id = i\<rparr>"
  by (auto simp: resolution_new_def construct_def instrument_resolution_post_init_def raise_if_def
      split: option.splits if_splits)

definition mapping_identities_ok :: "reference_snapshot \<Rightarrow> bool" where
  "mapping_identities_ok s \<longleftrightarrow>
     (\<forall>r \<in> set (rs_mappings s). case smr_instrument_id r of None \<Rightarrow> True | Some i \<Rightarrow> identifier128_ok i)"

lemma bound_universe_resolver:
  assumes "reference_store_init s = Inr st" "mapping_identities_ok s"
  shows "universe_resolver (bound_resolve (as_universe_resolver st t k))"
proof
  fix symbol r i
  assume r: "bound_resolve (as_universe_resolver st t k) symbol = Inr r"
  then show "(ir_code r = RESOLVED) = (ir_instrument_id r \<noteq> None)"
    by (auto simp: bound_resolve_def resolution_new_Inr Let_def split: sum.splits option.splits)
  assume i: "ir_instrument_id r = Some i"
  obtain m where m: "reference_mapping_at st symbol t k = Inr (Some m)" "smr_instrument_id m = Some i"
    using r i by (auto simp: bound_resolve_def as_universe_resolver_def resolution_new_Inr Let_def
        split: sum.splits option.splits if_splits)
  then have "m \<in> set (rs_mappings s)" using reference_mapping_at_Some [OF assms(1)] by blast
  then show "identifier128_ok i" using assms(2) m(2) by (force simp: mapping_identities_ok_def)
qed

section \<open>Exact ratios as rational numbers\<close>

abbreviation ratio_ok :: "exact_ratio \<Rightarrow> bool" where
  "ratio_ok r \<equiv> exact_ratio_post_init r = None"

definition ratio_value :: "exact_ratio \<Rightarrow> rat" where
  "ratio_value r = of_int (ratio_numerator r) / of_int (ratio_denominator r)"

lemma ratio_ok_iff:
  "ratio_ok r \<longleftrightarrow> 0 < ratio_numerator r \<and> ratio_numerator r \<le> INT64_MAX \<and>
     0 < ratio_denominator r \<and> ratio_denominator r \<le> INT64_MAX \<and>
     coprime (ratio_numerator r) (ratio_denominator r)"
  by (auto simp: exact_ratio_post_init_def coprime_iff_gcd_eq_1)

lemma reduced_unique:
  fixes a b c d :: int
  assumes "0 < a" "0 < b" "0 < c" "0 < d" "coprime a b" "coprime c d"
    and "(of_int a / of_int b :: rat) = of_int c / of_int d"
  shows "a = c \<and> b = d"
proof -
  have "of_int a * of_int d = (of_int c * of_int b :: rat)"
    using assms by (simp add: frac_eq_eq)
  then have "a * d = c * b" by (metis of_int_eq_iff of_int_mult)
  then show ?thesis
    using coprime_crossproduct_int [of a b c d] assms(1-6) by (simp add: coprime_commute)
qed

lemma exact_ratio_new_Inr:
  "exact_ratio_new n d = Inr c \<longleftrightarrow> c = \<lparr>ratio_numerator = n, ratio_denominator = d\<rparr> \<and> ratio_ok c"
  by (auto simp: exact_ratio_new_def)

lemma ratio_inverse_ok:
  assumes "ratio_ok r"
  shows "ratio_inverse r = Inr \<lparr>ratio_numerator = ratio_denominator r, ratio_denominator = ratio_numerator r\<rparr>"
    and "ratio_inverse r = Inr c \<Longrightarrow> ratio_ok c \<and> ratio_value c = 1 / ratio_value r"
  using assms by (auto simp: ratio_inverse_def exact_ratio_new_Inr ratio_ok_iff ratio_value_def coprime_commute)

lemma ratio_reduced_coprime:
  assumes "0 < n" "0 < d" "coprime n d"
  shows "ratio_reduced n d = exact_ratio_new n d"
  using assms by (simp add: ratio_reduced_def)

lemma checked_mul_pos:
  assumes "0 < a" "0 < b"
  shows "checked_mul a b = (if a * b \<le> INT64_MAX then Inr (a * b)
    else Inl (reference_error INTEGER_OVERFLOW ''signed int64 multiplication overflow''))"
proof -
  have "0 < a * b" using assms by simp
  then have "- INT64_MAX \<le> a * b" by (simp add: INT64_MAX_def)
  then show ?thesis by (simp add: checked_mul_def Let_def)
qed

lemma cross_cancelled:
  fixes n1 d1 n2 d2 :: int
  assumes "0 < n1" "0 < d1" "0 < n2" "0 < d2" "coprime n1 d1" "coprime n2 d2"
  defines "l \<equiv> gcd n1 d2" and "r \<equiv> gcd n2 d1"
  shows "0 < n1 div l" "0 < n2 div r" "0 < d1 div r" "0 < d2 div l"
    and "coprime ((n1 div l) * (n2 div r)) ((d1 div r) * (d2 div l))"
    and "(of_int ((n1 div l) * (n2 div r)) / of_int ((d1 div r) * (d2 div l)) :: rat) =
      (of_int n1 / of_int d1) * (of_int n2 / of_int d2)"
proof -
  have pos: "0 < l" "0 < r" using assms by (simp_all add: l_def r_def)
  have mult: "n1 div l * l = n1" "d2 div l * l = d2" "n2 div r * r = n2" "d1 div r * r = d1"
    by (simp_all add: l_def r_def)
  show positive: "0 < n1 div l" "0 < n2 div r" "0 < d1 div r" "0 < d2 div l"
    using assms(1-4) pos mult zero_less_mult_pos2 by metis+
  have "coprime (n1 div l) (d2 div l)" "coprime (n2 div r) (d1 div r)"
    using assms(1-4) unfolding l_def r_def by (auto intro: div_gcd_coprime)
  moreover have "coprime (n1 div l) (d1 div r)" "coprime (n2 div r) (d2 div l)"
    using mult assms(5,6) by (metis coprime_divisors dvd_triv_left)+
  ultimately show "coprime ((n1 div l) * (n2 div r)) ((d1 div r) * (d2 div l))" by simp
  have "(of_int n1 / of_int d1) * (of_int n2 / of_int d2) =
      (of_int ((n1 div l * l) * (n2 div r * r)) / of_int ((d1 div r * r) * (d2 div l * l)) :: rat)"
    unfolding mult by simp
  also have "\<dots> = of_int ((n1 div l) * (n2 div r)) / of_int ((d1 div r) * (d2 div l))"
    using pos by simp
  finally show "(of_int ((n1 div l) * (n2 div r)) / of_int ((d1 div r) * (d2 div l)) :: rat) =
      (of_int n1 / of_int d1) * (of_int n2 / of_int d2)" ..
qed

lemma ratio_multiply_spec:
  assumes "ratio_ok a" "ratio_ok b"
  shows "ratio_multiply a b = Inr c \<longleftrightarrow> ratio_ok c \<and> ratio_value c = ratio_value a * ratio_value b"
    and "ratio_multiply a b = Inl e \<Longrightarrow>
      e = reference_error INTEGER_OVERFLOW ''signed int64 multiplication overflow''"
proof -
  let ?l = "gcd (ratio_numerator a) (ratio_denominator b)" and ?r = "gcd (ratio_numerator b) (ratio_denominator a)"
  define n where "n = (ratio_numerator a div ?l) * (ratio_numerator b div ?r)"
  define d where "d = (ratio_denominator a div ?r) * (ratio_denominator b div ?l)"
  note ok = assms [unfolded ratio_ok_iff]
  note cross = cross_cancelled [of "ratio_numerator a" "ratio_denominator a" "ratio_numerator b" "ratio_denominator b"]
  have nd: "0 < n" "0 < d" "coprime n d"
    and quotient: "of_int n / of_int d = ratio_value a * ratio_value b"
    using cross ok unfolding n_def d_def ratio_value_def by (simp_all del: of_int_mult)
  have multiply: "ratio_multiply a b =
      (if n \<le> INT64_MAX \<and> d \<le> INT64_MAX then Inr \<lparr>ratio_numerator = n, ratio_denominator = d\<rparr>
       else Inl (reference_error INTEGER_OVERFLOW ''signed int64 multiplication overflow''))"
    using cross(1-4) ok nd
    by (auto simp: ratio_multiply_def Let_def checked_mul_pos n_def [symmetric] d_def [symmetric]
        ratio_reduced_coprime exact_ratio_new_Inr ratio_ok_iff)
  show "ratio_multiply a b = Inl e \<Longrightarrow>
      e = reference_error INTEGER_OVERFLOW ''signed int64 multiplication overflow''"
    unfolding multiply by (auto split: if_splits)
  show "ratio_multiply a b = Inr c \<longleftrightarrow> ratio_ok c \<and> ratio_value c = ratio_value a * ratio_value b"
  proof
    assume "ratio_multiply a b = Inr c"
    then show "ratio_ok c \<and> ratio_value c = ratio_value a * ratio_value b"
      using nd quotient unfolding multiply by (auto simp: ratio_ok_iff ratio_value_def split: if_splits)
  next
    assume c: "ratio_ok c \<and> ratio_value c = ratio_value a * ratio_value b"
    then have "ratio_numerator c = n \<and> ratio_denominator c = d"
      using reduced_unique [of "ratio_numerator c" "ratio_denominator c" n d] nd quotient
      by (simp add: ratio_ok_iff ratio_value_def)
    then show "ratio_multiply a b = Inr c" using c unfolding multiply by (simp add: ratio_ok_iff)
  qed
qed

section \<open>Applying a ratio\<close>

lemma half_distance:
  fixes p q d :: int
  assumes "0 < d"
  shows "\<bar>of_int q - of_int p / of_int d\<bar> \<le> (1 / 2 :: rat) \<longleftrightarrow> \<bar>2 * (q * d - p)\<bar> \<le> d"
    and "\<bar>of_int q - of_int p / of_int d\<bar> = (1 / 2 :: rat) \<longleftrightarrow> \<bar>2 * (q * d - p)\<bar> = d"
proof -
  have d: "(0::rat) < of_int d" using assms by simp
  have "of_int q - of_int p / of_int d = (of_int (2 * (q * d - p)) / (2 * of_int d) :: rat)"
    using d by (simp add: field_simps)
  then have "\<bar>of_int q - of_int p / of_int d\<bar> = (of_int \<bar>2 * (q * d - p)\<bar> / (2 * of_int d) :: rat)"
    using d by (simp add: abs_divide abs_mult)
  moreover have "(of_int \<bar>2 * (q * d - p)\<bar> / (2 * of_int d) :: rat) \<le> 1 / 2 \<longleftrightarrow> \<bar>2 * (q * d - p)\<bar> \<le> d"
    using d by (simp add: divide_le_eq del: of_int_abs of_int_mult of_int_diff)
  moreover have "(of_int \<bar>2 * (q * d - p)\<bar> / (2 * of_int d) :: rat) = 1 / 2 \<longleftrightarrow> \<bar>2 * (q * d - p)\<bar> = d"
    using d by (simp add: divide_eq_eq del: of_int_abs of_int_mult of_int_diff)
  ultimately show "\<bar>of_int q - of_int p / of_int d\<bar> \<le> (1 / 2 :: rat) \<longleftrightarrow> \<bar>2 * (q * d - p)\<bar> \<le> d"
    "\<bar>of_int q - of_int p / of_int d\<bar> = (1 / 2 :: rat) \<longleftrightarrow> \<bar>2 * (q * d - p)\<bar> = d" by simp_all
qed

text \<open>The quotient the code picks under \<open>HALF_EVEN\<close> is the only nearest integer that is even at a tie.\<close>

lemma nearest_even:
  fixes p q d :: int
  assumes "0 < d"
  shows "\<bar>2 * (q * d - p)\<bar> \<le> d \<and> (\<bar>2 * (q * d - p)\<bar> = d \<longrightarrow> even q) \<longleftrightarrow>
    q = (if d < p mod d * 2 \<or> p mod d * 2 = d \<and> (p div d) mod 2 = 1 then p div d + 1 else p div d)"
proof -
  define k m j where "k = p div d" and "m = p mod d" and "j = q - p div d"
  have p: "p = k * d + m" and m: "0 \<le> m" "m < d" and q: "q = k + j"
    using assms by (simp_all add: k_def m_def j_def)
  define y where "y = j * d"
  have dist: "2 * (q * d - p) = 2 * (y - m)" by (simp add: p q y_def algebra_simps)
  have far: "\<not> \<bar>2 * (y - m)\<bar> \<le> d" if "j \<le> -1 \<or> 2 \<le> j"
  proof (cases "j \<le> -1")
    case True
    then have "j * d \<le> -1 * d" using assms by (intro mult_right_mono) auto
    then have "y \<le> - d" by (simp only: y_def mult_minus1)
    then show ?thesis using m by presburger
  next
    case False
    then have "2 * d \<le> j * d" using that assms by (intro mult_right_mono) auto
    then have "2 * d \<le> y" by (simp only: y_def)
    then show ?thesis using m by presburger
  qed
  have "\<bar>2 * (y - m)\<bar> \<le> d \<and> (\<bar>2 * (y - m)\<bar> = d \<longrightarrow> even (k + j)) \<longleftrightarrow>
      k + j = (if d < m * 2 \<or> m * 2 = d \<and> k mod 2 = 1 then k + 1 else k)"
  proof -
    consider "j \<le> -1 \<or> 2 \<le> j" | "j = 0" "y = 0" | "j = 1" "y = d" unfolding y_def by force
    then show ?thesis
    proof cases
      case 1
      then show ?thesis using far by auto
    next
      case 2
      then show ?thesis using m by (auto simp: even_iff_mod_2_eq_zero)
    next
      case 3
      then show ?thesis using m by (auto simp: even_iff_mod_2_eq_zero) presburger+
    qed
  qed
  then show ?thesis unfolding dist k_def [symmetric] m_def [symmetric] unfolding q .
qed

lemma ratio_apply_eq:
  assumes "ratio_ok r" "0 \<le> v" "v \<le> INT64_MAX"
  shows "ratio_apply r v rounding =
    (let p = v * ratio_numerator r; d = ratio_denominator r
     in if INT64_MAX < p then Inl (reference_error INTEGER_OVERFLOW ''signed int64 multiplication overflow'')
        else if p mod d = 0 then Inr (p div d)
        else case rounding of
          REJECT_INEXACT \<Rightarrow> Inl (reference_error INEXACT_ARITHMETIC ''rational result is not an exact integer'')
        | FLOOR \<Rightarrow> Inr (p div d)
        | HALF_EVEN \<Rightarrow> Inr (if d < p mod d * 2 \<or> p mod d * 2 = d \<and> (p div d) mod 2 = 1 then p div d + 1 else p div d))"
proof -
  have "0 \<le> v * ratio_numerator r" using assms by (simp add: ratio_ok_iff)
  then have "- INT64_MAX \<le> v * ratio_numerator r" by (simp add: INT64_MAX_def)
  then show ?thesis using assms(2,3)
    by (auto simp: ratio_apply_def checked_mul_def Let_def split: rounding_policy.splits)
qed

lemma exact_quotient:
  fixes p q d :: int
  assumes "0 < d"
  shows "of_int q = (of_int p / of_int d :: rat) \<longleftrightarrow> p mod d = 0 \<and> q = p div d"
proof -
  have "of_int q = (of_int p / of_int d :: rat) \<longleftrightarrow> (of_int (q * d) :: rat) = of_int p"
    using assms by (simp add: eq_divide_eq)
  also have "\<dots> \<longleftrightarrow> q * d = p" by (simp only: of_int_eq_iff)
  finally show ?thesis using assms by auto
qed

lemma ratio_apply_spec:
  assumes "ratio_ok r"
  shows "ratio_apply r v rounding = Inr q \<longleftrightarrow>
    0 \<le> v \<and> v \<le> INT64_MAX \<and> v * ratio_numerator r \<le> INT64_MAX \<and>
    (case rounding of
       REJECT_INEXACT \<Rightarrow> of_int q = of_int v * ratio_value r
     | FLOOR \<Rightarrow> q = \<lfloor>of_int v * ratio_value r\<rfloor>
     | HALF_EVEN \<Rightarrow> \<bar>of_int q - of_int v * ratio_value r\<bar> \<le> 1 / 2 \<and>
         (\<bar>of_int q - of_int v * ratio_value r\<bar> = 1 / 2 \<longrightarrow> even q))"
proof (cases "0 \<le> v \<and> v \<le> INT64_MAX")
  case True
  define p d where "p = v * ratio_numerator r" and "d = ratio_denominator r"
  have d: "0 < d" using assms by (simp add: d_def ratio_ok_iff)
  have x: "of_int v * ratio_value r = of_int p / of_int d" by (simp add: ratio_value_def p_def d_def)
  have floor: "\<lfloor>of_int p / of_int d :: rat\<rfloor> = p div d" by (rule floor_divide_of_int_eq)
  show ?thesis
    using True d nearest_even [OF d, of q p] exact_quotient [OF d, of q p]
    unfolding ratio_apply_eq [OF assms conjunct1 [OF True] conjunct2 [OF True]] x Let_def
      p_def [symmetric] d_def [symmetric] floor half_distance [OF d]
    by (cases rounding) auto
next
  case False
  then show ?thesis by (auto simp: ratio_apply_def)
qed

section \<open>Split adjustment\<close>

definition split_factor :: "int \<Rightarrow> int \<Rightarrow> corporate_action_revision \<Rightarrow> rat" where
  "split_factor after_ns through_ns action =
     (case car_split_new_shares_per_old action of
        Some ratio \<Rightarrow>
          if car_kind action = SPLIT \<and> after_ns < car_effective_time_ns action \<and>
             car_effective_time_ns action \<le> through_ns
          then 1 / ratio_value ratio else 1
      | None \<Rightarrow> 1)"

definition ratios_ok :: "corporate_action_revision list \<Rightarrow> bool" where
  "ratios_ok actions \<longleftrightarrow>
     (\<forall>r \<in> set actions. case car_split_new_shares_per_old r of None \<Rightarrow> True | Some x \<Rightarrow> ratio_ok x)"

lemma split_step_Inr:
  assumes "ratio_ok m" "ratios_ok [action]" "split_step a t action m = Inr c"
  shows "ratio_ok c \<and> ratio_value c = ratio_value m * split_factor a t action"
proof (cases "car_split_new_shares_per_old action")
  case None
  then show ?thesis using assms by (simp add: split_step_def split_factor_def)
next
  case (Some ratio)
  then have ok: "ratio_ok ratio" using assms(2) by (simp add: ratios_ok_def)
  show ?thesis
  proof (cases "car_kind action = SPLIT \<and> a < car_effective_time_ns action \<and> car_effective_time_ns action \<le> t")
    case True
    then obtain i where i: "ratio_inverse ratio = Inr i" "ratio_multiply m i = Inr c"
      using assms(3) Some by (auto simp: split_step_def)
    then have "ratio_ok i" "ratio_value i = 1 / ratio_value ratio" using ratio_inverse_ok(2) [OF ok] by blast+
    then show ?thesis using i(2) ratio_multiply_spec(1) [OF assms(1)] True Some by (simp add: split_factor_def)
  next
    case False
    then have "split_step a t action m = Inr m" "split_factor a t action = 1"
      using Some by (auto simp: split_step_def split_factor_def)
    then show ?thesis using assms(1,3) by simp
  qed
qed

lemma fold_split_Inr:
  assumes "ratio_ok m" "ratios_ok actions" "fold_result (split_step a t) actions m = Inr c"
  shows "ratio_ok c \<and> ratio_value c = ratio_value m * prod_list (map (split_factor a t) actions)"
  using assms
proof (induction actions arbitrary: m)
  case (Cons x xs)
  obtain m' where m': "split_step a t x m = Inr m'" "fold_result (split_step a t) xs m' = Inr c"
    using Cons.prems(3) by (auto split: sum.splits)
  have "ratios_ok [x]" "ratios_ok xs" using Cons.prems(2) by (simp_all add: ratios_ok_def)
  then show ?case
    using split_step_Inr [OF Cons.prems(1) _ m'(1)] Cons.IH [OF _ _ m'(2)] by (simp add: mult.assoc)
qed simp

lemma prod_list_perm:
  fixes f :: "'a \<Rightarrow> 'b::comm_monoid_mult"
  shows "mset xs = mset ys \<Longrightarrow> prod_list (map f xs) = prod_list (map f ys)"
  by (metis mset_map prod_mset_prod_list)

lemma prod_list_filter:
  fixes f :: "'a \<Rightarrow> 'b::comm_monoid_mult"
  shows "(\<And>x. x \<in> set xs \<Longrightarrow> \<not> P x \<Longrightarrow> f x = 1) \<Longrightarrow> prod_list (map f (filter P xs)) = prod_list (map f xs)"
  by (induction xs) auto

abbreviation known_actions :: "reference_snapshot \<Rightarrow> identifier128 \<Rightarrow> int \<Rightarrow> corporate_action_revision list" where
  "known_actions s i k \<equiv>
     latest_listing Action_Revision (filter (\<lambda>r. car_instrument_id r = i) (rs_corporate_actions s)) k"

lemma corporate_actions_at_Inr:
  assumes "reference_store_init s = Inr st"
  shows "corporate_actions_at st i t k = Inr actions \<longleftrightarrow> 0 < k \<and> k \<le> INT64_MAX \<and>
    actions = sort_key (\<lambda>r. (car_effective_time_ns r, car_action_id r))
      (filter (\<lambda>r. car_effective_time_ns r \<le> t) (known_actions s i k))"
  using assms by (auto simp: reference_store_init_Inr corporate_actions_at_def known_latest_eq)

lemma adjust_Inr:
  assumes init: "reference_store_init s = Inr st" and ok: "ratios_ok (rs_corporate_actions s)"
    and adjust: "adjust_price_for_splits st price i a t k REJECT_INEXACT = Inr q"
  shows "a \<le> t \<and> of_int q = of_int price * prod_list (map (split_factor a t) (known_actions s i k))"
proof -
  let ?sorted = "sort_key (\<lambda>r. (car_effective_time_ns r, car_action_id r))
      (filter (\<lambda>r. car_effective_time_ns r \<le> t) (known_actions s i k))"
  let ?one = "\<lparr>ratio_numerator = 1, ratio_denominator = 1\<rparr>"
  have one: "ratio_ok ?one" "ratio_value ?one = 1" by (simp_all add: ratio_ok_iff ratio_value_def INT64_MAX_def)
  obtain c where at: "a \<le> t" and c: "fold_result (split_step a t) ?sorted ?one = Inr c"
    and q: "ratio_apply c price REJECT_INEXACT = Inr q"
    using adjust by (auto simp: adjust_price_for_splits_def exact_ratio_new_Inr corporate_actions_at_Inr [OF init]
        split: if_splits)
  have "ratios_ok ?sorted"
    using ok latest_listing_member [of _ Action_Revision] by (fastforce simp: ratios_ok_def)
  from fold_split_Inr [OF one(1) this c] one(2)
  have c': "ratio_ok c" "ratio_value c = prod_list (map (split_factor a t) ?sorted)" by simp_all
  have "prod_list (map (split_factor a t) ?sorted) = prod_list (map (split_factor a t)
      (filter (\<lambda>r. car_effective_time_ns r \<le> t) (known_actions s i k)))" by (rule prod_list_perm) simp
  also have "\<dots> = prod_list (map (split_factor a t) (known_actions s i k))"
    by (rule prod_list_filter) (auto simp: split_factor_def split: option.splits)
  finally show ?thesis using at c' q ratio_apply_spec [OF c'(1), of price REJECT_INEXACT q] by simp
qed

lemma split_factor_compose:
  "a \<le> b \<Longrightarrow> b \<le> c \<Longrightarrow> split_factor a b r * split_factor b c r = split_factor a c r"
  by (auto simp: split_factor_def split: option.splits)

lemma split_product_compose:
  assumes "a \<le> b" "b \<le> c"
  shows "prod_list (map (split_factor a b) rs) * prod_list (map (split_factor b c) rs) =
    prod_list (map (split_factor a c) rs)"
proof (induction rs)
  case (Cons r rs)
  then show ?case using split_factor_compose [OF assms, of r] by (simp add: ac_simps)
qed simp

section \<open>A worked example\<close>

definition ex_provenance :: "int \<Rightarrow> int \<Rightarrow> reference_provenance" where
  "ex_provenance observed revision =
     \<lparr>rp_provider = lit ''Alpaca'', rp_dataset = lit ''assets'', rp_document_id = lit ''report'',
      rp_content_sha256 = replicate 64 48, rp_observed_at_ns = observed, rp_processed_at_ns = observed,
      rp_revision_at_ns = revision, rp_source_publication_time_ns = None,
      rp_historical_completeness = False, rp_limitation = lit ''current only''\<rparr>"

definition ex_mapping :: "int \<Rightarrow> int \<Rightarrow> int \<Rightarrow> symbol_mapping_revision" where
  "ex_mapping version observed revision =
     \<lparr>smr_mapping_id = lit ''m'', smr_symbol = lit ''AAPL'', smr_instrument_id = Some (Identifier128 0 1),
      smr_listing_venue = NASDAQ, smr_status = RESOLVED_CURRENT_ONLY,
      smr_effective = \<lparr>effective_from_ns = 1, effective_to_ns = None\<rparr>, smr_version = version,
      smr_provenance = ex_provenance observed revision\<rparr>"

definition ex_split :: "string \<Rightarrow> int \<Rightarrow> int \<Rightarrow> int \<Rightarrow> corporate_action_revision" where
  "ex_split action_id n d effective =
     \<lparr>car_action_id = lit action_id, car_instrument_id = Identifier128 0 1, car_kind = SPLIT,
      car_effective_time_ns = effective, car_version = 1, car_provenance = ex_provenance 5 5,
      car_split_new_shares_per_old = Some \<lparr>ratio_numerator = n, ratio_denominator = d\<rparr>,
      car_cash_dividend_currency_nanos = None, car_currency = None\<rparr>"

definition ex_day :: calendar_day_revision where
  "ex_day = \<lparr>cdr_calendar_id = lit ''US'', cdr_session_date = Date 2024 1 1, cdr_kind = UNCLASSIFIED_CLOSURE,
     cdr_open_exchange_time_ns = None, cdr_close_exchange_time_ns = None, cdr_version = 1,
     cdr_provenance = ex_provenance 5 5\<rparr>"

definition ex_snapshot :: "symbol_mapping_revision list \<Rightarrow> reference_snapshot" where
  "ex_snapshot mappings =
     \<lparr>rs_universe_source_sha256 = replicate 64 48, rs_source_report_sha256 = replicate 64 49, rs_as_of_ns = 10,
      rs_instruments = [], rs_mappings = mappings,
      rs_corporate_actions = [ex_split ''b'' 3 2 200, ex_split ''a'' 2 1 100],
      rs_calendar_days = [ex_day], rs_halts = [], rs_halt_coverage_complete = False,
      rs_schema_version = lit ''1.0.0''\<rparr>"

definition ex_reference :: reference_snapshot where
  "ex_reference = ex_snapshot [ex_mapping 1 5 5]"

definition ex_reference_store :: reference_store where
  "ex_reference_store = projr (reference_store_init ex_reference)"

text \<open>Version one arrives late: it was observed at 100, the version that replaces it at 50.\<close>

definition ex_late :: reference_snapshot where
  "ex_late = ex_snapshot [ex_mapping 1 100 1, ex_mapping 2 50 2]"

definition ex_late_store :: reference_store where
  "ex_late_store = projr (reference_store_init ex_late)"

lemma ex_reference_init: "reference_store_init ex_reference = Inr ex_reference_store"
proof -
  have "validate_lineage ex_reference = None" by code_simp
  then show ?thesis by (simp add: ex_reference_store_def reference_store_init_def)
qed

lemma ex_late_init: "reference_store_init ex_late = Inr ex_late_store"
proof -
  have "validate_lineage ex_late = None" by code_simp
  then show ?thesis by (simp add: ex_late_store_def reference_store_init_def)
qed

lemma ex_ratios_ok: "ratios_ok (rs_corporate_actions ex_reference)"
  by code_simp

lemma ex_adjust:
  "adjust_price_for_splits ex_reference_store 600 (Identifier128 0 1) 1 150 10 REJECT_INEXACT = Inr 300"
  "adjust_price_for_splits ex_reference_store 300 (Identifier128 0 1) 150 300 10 REJECT_INEXACT = Inr 200"
  "adjust_price_for_splits ex_reference_store 600 (Identifier128 0 1) 1 300 10 REJECT_INEXACT = Inr 200"
  by code_simp+

section \<open>Properties of the reference data\<close>

text \<open>
  What is known at a time is exact: given that no identity repeats a version, \<open>_known_latest\<close>
  returns, sorted by identity and one per identity, precisely the available revisions that no other available
  revision of the same identity exceeds in availability and then version.
\<close>

theorem known_latest_exact:
  assumes "inj_on (\<lambda>r. (revision_identity (f r), revision_version (f r))) (set records)"
  shows "known_latest f records k = Inr known \<longleftrightarrow>
     0 < k \<and> k \<le> 2 ^ 63 - 1 \<and>
     sorted (map (\<lambda>r. revision_identity (f r)) known) \<and> distinct (map (\<lambda>r. revision_identity (f r)) known) \<and>
     (\<forall>r. r \<in> set known \<longleftrightarrow> r \<in> set records \<and> revision_available (f r) \<le> k \<and>
        (\<forall>r' \<in> set records. revision_available (f r') \<le> k \<and> revision_identity (f r') = revision_identity (f r) \<longrightarrow>
           (revision_available (f r'), revision_version (f r')) \<le> (revision_available (f r), revision_version (f r))))"
proof -
  let ?greatest = "\<lambda>r. r \<in> set records \<and> available_by f k r \<and>
      (\<forall>r' \<in> set records. available_by f k r' \<and> revision_identity (f r') = revision_identity (f r) \<longrightarrow>
         known_key f r' \<le> known_key f r)"
  have member: "r \<in> set (latest_listing f records k) \<longleftrightarrow> ?greatest r" for r
  proof
    assume r: "?greatest r"
    note known = conjunct1 [OF r] conjunct1 [OF conjunct2 [OF r]] and greatest = conjunct2 [OF conjunct2 [OF r]]
    from latest_listing_covers [of r records f k, OF known] obtain r' where r': "r' \<in> set (latest_listing f records k)"
      "revision_identity (f r') = revision_identity (f r)" by blast
    note top = latest_listing_member [of r' f records k, OF r'(1)]
    have "known_key f r \<le> known_key f r'"
      using top [THEN conjunct2, THEN conjunct2, rule_format, OF known(1)] known(2) r'(2) by simp
    moreover have "known_key f r' \<le> known_key f r"
      using greatest [rule_format, OF conjunct1 [OF top]] top r'(2) by simp
    ultimately have "known_key f r = known_key f r'" by (rule antisym)
    then have "r = r'" using inj_onD [OF assms, of r r'] known(1) conjunct1 [OF top] r'(2) by simp
    then show "r \<in> set (latest_listing f records k)" using r'(1) by simp
  qed (rule latest_listing_member)
  note sorted = latest_listing_sorted [of f records k]
  show ?thesis
  proof
    assume "known_latest f records k = Inr known"
    then have "0 < k" "k \<le> 2 ^ 63 - 1" "known = latest_listing f records k"
      by (auto simp: known_latest_eq INT64_MAX_def split: if_splits)
    then show "0 < k \<and> k \<le> 2 ^ 63 - 1 \<and> sorted (map (\<lambda>r. revision_identity (f r)) known) \<and>
        distinct (map (\<lambda>r. revision_identity (f r)) known) \<and> (\<forall>r. r \<in> set known \<longleftrightarrow> ?greatest r)"
      using sorted member by blast
  next
    assume a: "0 < k \<and> k \<le> 2 ^ 63 - 1 \<and> sorted (map (\<lambda>r. revision_identity (f r)) known) \<and>
        distinct (map (\<lambda>r. revision_identity (f r)) known) \<and> (\<forall>r. r \<in> set known \<longleftrightarrow> ?greatest r)"
    have "known = latest_listing f records k"
      using a member sorted
      by (intro sorted_distinct_keys_unique [where f = "\<lambda>x. x" and key = "\<lambda>r. revision_identity (f r)"]) auto
    then show "known_latest f records k = Inr known" using a by (simp add: known_latest_eq INT64_MAX_def)
  qed
qed

theorem known_latest_exact_witness:
  "known_latest Mapping_Revision [ex_mapping 1 5 5, ex_mapping 2 7 7] 6 = Inr [ex_mapping 1 5 5]"
proof -
  have inj: "inj_on (\<lambda>r. (revision_identity (Mapping_Revision r), revision_version (Mapping_Revision r)))
      (set [ex_mapping 1 5 5, ex_mapping 2 7 7])" by (simp add: inj_on_def ex_mapping_def)
  show ?thesis
    by (subst known_latest_exact [OF inj])
      (auto simp: ex_mapping_def ex_provenance_def provenance_available_at_ns_def)
qed

text \<open>
  Claim C11. No look-ahead: two accepted snapshots that hold the same revisions available by a time answer every
  query at that knowledge time alike, whatever else becomes known later.
\<close>

theorem reference_queries_point_in_time:
  assumes "reference_store_init s = Inr st" and "reference_store_init s' = Inr st'" and "same_knowledge k s s'"
  shows "reference_mapping_at st symbol t k = reference_mapping_at st' symbol t k \<and>
     instrument_at st i t k = instrument_at st' i t k \<and>
     corporate_actions_at st i t k = corporate_actions_at st' i t k \<and>
     cash_dividends_at st i t k = cash_dividends_at st' i t k \<and>
     adjust_price_for_splits st price i t u k rounding = adjust_price_for_splits st' price i t u k rounding \<and>
     halts_at st i t u k = halts_at st' i t u k \<and>
     calendar_day_at st d k = calendar_day_at st' d k \<and>
     bound_resolve (as_universe_resolver st t k) symbol = bound_resolve (as_universe_resolver st' t k) symbol"
  using same_knowledge_queries [OF assms]
  by (simp add: cash_dividends_at_def adjust_price_for_splits_def bound_resolve_def as_universe_resolver_def)

lemma ex_reference_extended:
  "reference_store_init (ex_snapshot [ex_mapping 1 5 5, ex_mapping 2 7 7]) =
     Inr (projr (reference_store_init (ex_snapshot [ex_mapping 1 5 5, ex_mapping 2 7 7])))"
proof -
  have "validate_lineage (ex_snapshot [ex_mapping 1 5 5, ex_mapping 2 7 7]) = None" by code_simp
  then show ?thesis by (simp add: reference_store_init_def)
qed

theorem reference_queries_point_in_time_witness:
  "reference_mapping_at ex_reference_store (lit ''AAPL'') 6 6 =
     reference_mapping_at (projr (reference_store_init (ex_snapshot [ex_mapping 1 5 5, ex_mapping 2 7 7])))
       (lit ''AAPL'') 6 6"
proof -
  have "same_knowledge 6 ex_reference (ex_snapshot [ex_mapping 1 5 5, ex_mapping 2 7 7])" by code_simp
  from reference_queries_point_in_time [OF ex_reference_init ex_reference_extended this] show ?thesis by blast
qed

text \<open>
  Claim C34. A snapshot is accepted by the store exactly when every identity of every kind has a gapless
  lineage: versions one to n, with strictly increasing revision times.
\<close>

theorem reference_store_accepts_iff_lineage:
  "(\<exists>st. reference_store_init s = Inr st) \<longleftrightarrow>
     (\<forall>(t, rs) \<in> set (revision_groups s). \<forall>i. revision_lineage (filter (\<lambda>r. revision_identity r = i) rs))"
  unfolding validate_lineage_ok [symmetric] by (auto simp: reference_store_init_def split: option.splits)

theorem reference_store_accepts_iff_lineage_witness:
  "revision_lineage (filter (\<lambda>r. revision_identity r = lit ''a'') (map Action_Revision (rs_corporate_actions ex_reference)))"
  using reference_store_accepts_iff_lineage [of ex_reference] ex_reference_init
  by (simp add: revision_groups_def)

text \<open>
  Multiplication of ratios is exact and complete: for valid ratios it returns the one reduced int64
  ratio whose value is the product, and it fails, with integer overflow, only when there is none.
\<close>

theorem ratio_multiply_exact:
  assumes "ratio_ok a" and "ratio_ok b"
  shows "(ratio_multiply a b = Inr c \<longleftrightarrow> ratio_ok c \<and> ratio_value c = ratio_value a * ratio_value b) \<and>
     (\<not> (\<exists>c. ratio_ok c \<and> ratio_value c = ratio_value a * ratio_value b) \<longleftrightarrow>
        ratio_multiply a b = Inl (reference_error INTEGER_OVERFLOW ''signed int64 multiplication overflow''))"
  using ratio_multiply_spec(1) [OF assms] ratio_multiply_spec(2) [OF assms]
  by (cases "ratio_multiply a b") auto

theorem ratio_multiply_exact_witness:
  "ratio_multiply \<lparr>ratio_numerator = 2, ratio_denominator = 3\<rparr> \<lparr>ratio_numerator = 9, ratio_denominator = 4\<rparr> =
     Inr \<lparr>ratio_numerator = 3, ratio_denominator = 2\<rparr>"
proof -
  have coprime: "coprime (2::int) 3" "coprime (9::int) 4" "coprime (3::int) 2"
    by code_simp+
  show ?thesis
    by (rule ratio_multiply_exact [THEN conjunct1, THEN iffD2])
      (simp_all add: ratio_ok_iff ratio_value_def INT64_MAX_def coprime)
qed

text \<open>
  Applying a ratio rounds as its policy says: within the int64 range the result is the exact product,
  its floor, or the nearest integer with ties to even, and nothing else is ever returned.
\<close>

theorem ratio_apply_rounds:
  assumes "ratio_ok r"
  shows "ratio_apply r v rounding = Inr q \<longleftrightarrow>
     0 \<le> v \<and> v \<le> 2 ^ 63 - 1 \<and> v * ratio_numerator r \<le> 2 ^ 63 - 1 \<and>
     (case rounding of
        REJECT_INEXACT \<Rightarrow> of_int q = of_int v * ratio_value r
      | FLOOR \<Rightarrow> q = \<lfloor>of_int v * ratio_value r\<rfloor>
      | HALF_EVEN \<Rightarrow> \<bar>of_int q - of_int v * ratio_value r\<bar> \<le> 1 / 2 \<and>
          (\<bar>of_int q - of_int v * ratio_value r\<bar> = 1 / 2 \<longrightarrow> even q))"
  using ratio_apply_spec [OF assms] by (simp add: INT64_MAX_def)

theorem ratio_apply_rounds_witness:
  "ratio_apply \<lparr>ratio_numerator = 1, ratio_denominator = 2\<rparr> 5 HALF_EVEN = Inr 2"
proof -
  have ok: "ratio_ok \<lparr>ratio_numerator = 1, ratio_denominator = 2\<rparr>" by (simp add: ratio_ok_iff INT64_MAX_def)
  show ?thesis by (subst ratio_apply_rounds [OF ok]) (simp add: ratio_value_def)
qed

text \<open>
  Claim C20. Split adjustment is exact and composes: an exact adjusted price is the price divided by every split
  known at the knowledge time and effective in the interval, and adjusting over two adjacent intervals in turn
  agrees with adjusting over both at once.
\<close>

theorem split_adjustment_exact:
  assumes "reference_store_init s = Inr st" and "ratios_ok (rs_corporate_actions s)"
    and "adjust_price_for_splits st price i a t k REJECT_INEXACT = Inr q"
  shows "of_int q = of_int price * prod_list (map (split_factor a t)
       (latest_listing Action_Revision (filter (\<lambda>r. car_instrument_id r = i) (rs_corporate_actions s)) k)) \<and>
     (\<forall>u w v. adjust_price_for_splits st q i t u k REJECT_INEXACT = Inr w \<and>
        adjust_price_for_splits st price i a u k REJECT_INEXACT = Inr v \<longrightarrow> v = w)"
proof -
  note first = adjust_Inr [OF assms]
  have "v = w" if "adjust_price_for_splits st q i t u k REJECT_INEXACT = Inr w"
    "adjust_price_for_splits st price i a u k REJECT_INEXACT = Inr v" for u w v
  proof -
    note second = adjust_Inr [OF assms(1,2) that(1)] and both = adjust_Inr [OF assms(1,2) that(2)]
    have "(of_int v :: rat) = of_int w"
      using first second both split_product_compose [of a t u "known_actions s i k"] by (simp add: mult.assoc)
    then show ?thesis by simp
  qed
  then show ?thesis using first by blast
qed

theorem split_adjustment_exact_witness:
  "(600::rat) / 2 = 300 \<and>
   of_int 300 = of_int 600 * prod_list (map (split_factor 1 150)
     (latest_listing Action_Revision
        (filter (\<lambda>r. car_instrument_id r = Identifier128 0 1) (rs_corporate_actions ex_reference)) 10))"
  using split_adjustment_exact [OF ex_reference_init ex_ratios_ok ex_adjust(1)] by simp

text \<open>
  Claim C28. A universe resolved from the reference store is faithful: every entry carries the disposition of the
  mapping that was known and effective at the cutoffs for exactly its symbol, with an identity only when that
  mapping is resolved, and missing reference data when there is none.
\<close>

theorem reference_universe_faithful:
  assumes "reference_store_init s = Inr st" and "mapping_identities_ok s"
    and "parse_ticker_universe source (bound_resolve (as_universe_resolver st t k)) = Inr u"
  shows "map entry_symbol (us_ordered_entries u) = ticker_lines source \<and>
     distinct (List.map_filter entry_instrument_id (us_ordered_entries u)) \<and>
     (\<forall>e \<in> set (us_ordered_entries u).
        (case reference_mapping_at st (entry_symbol e) t k of
           Inl _ \<Rightarrow> False
         | Inr None \<Rightarrow> resolution_code e = MISSING_REFERENCE_DATA \<and> entry_instrument_id e = None
         | Inr (Some m) \<Rightarrow>
             m \<in> set (rs_mappings s) \<and> smr_symbol m = entry_symbol e \<and>
             provenance_available_at_ns (smr_provenance m) \<le> k \<and> interval_contains (smr_effective m) t \<and>
             resolution_code e = status_code (smr_status m) \<and>
             entry_instrument_id e = (if smr_status m = RESOLVED_CURRENT_ONLY then smr_instrument_id m else None)))"
proof -
  note parsed = universe_resolver.parse_Inr [OF bound_universe_resolver [OF assms(1,2)] assms(3)]
  have status: "status_code x = RESOLVED \<longleftrightarrow> x = RESOLVED_CURRENT_ONLY" for x by (cases x) simp_all
  have "case reference_mapping_at st (entry_symbol e) t k of
           Inl _ \<Rightarrow> False
         | Inr None \<Rightarrow> resolution_code e = MISSING_REFERENCE_DATA \<and> entry_instrument_id e = None
         | Inr (Some m) \<Rightarrow>
             m \<in> set (rs_mappings s) \<and> smr_symbol m = entry_symbol e \<and>
             provenance_available_at_ns (smr_provenance m) \<le> k \<and> interval_contains (smr_effective m) t \<and>
             resolution_code e = status_code (smr_status m) \<and>
             entry_instrument_id e = (if smr_status m = RESOLVED_CURRENT_ONLY then smr_instrument_id m else None)"
    if "e \<in> set (us_ordered_entries u)" for e
    using parsed(4) [rule_format, OF that] reference_mapping_at_Some [OF assms(1), of "entry_symbol e" t k]
    by (auto simp: bound_resolve_def as_universe_resolver_def resolution_new_Inr Let_def status
        split: sum.splits option.splits)
  then show ?thesis using parsed(3,5) by blast
qed

lemma ex_reference_universe:
  "\<exists>u. parse_ticker_universe ex_ticker (bound_resolve (as_universe_resolver ex_reference_store 6 6)) = Inr u"
proof -
  have "\<not> isl (resolve_symbols [lit ''AAPL'', lit ''BRK.B'']
      (bound_resolve (as_universe_resolver ex_reference_store 6 6)))" by code_simp
  then have "\<exists>entries. resolve_symbols [lit ''AAPL'', lit ''BRK.B'']
      (bound_resolve (as_universe_resolver ex_reference_store 6 6)) = Inr entries"
    by (metis sum.collapse(2))
  moreover have "mapping_identities_ok ex_reference" by code_simp
  ultimately show ?thesis
    using universe_resolver.parse_total [OF bound_universe_resolver [OF ex_reference_init] ex_parse_symbols] by blast
qed

theorem reference_universe_faithful_witness:
  "\<exists>u. parse_ticker_universe ex_ticker (bound_resolve (as_universe_resolver ex_reference_store 6 6)) = Inr u \<and>
     map entry_symbol (us_ordered_entries u) = [lit ''AAPL'', lit ''BRK.B'']"
proof -
  have "mapping_identities_ok ex_reference" by code_simp
  then show ?thesis
    using ex_reference_universe reference_universe_faithful [OF ex_reference_init] ex_ticker_lines by metis
qed


end
