(* ===== verification/Reference_Documents.thy ===== *)
theory Reference_Documents
  imports Reference_Proofs Json_Bytes
begin

text \<open>
  The sealed documents of \<open>python/research/aegis_mx_research/reference_data.py\<close>: \<open>_document\<close>, \<open>snapshot_document\<close> and
  \<open>resolution_report_document\<close>. A document is a JSON object whose \<open>document_sha256\<close> is the digest of its other
  members.
\<close>

section \<open>Names of the enumerations\<close>

fun listing_venue_value :: "listing_venue \<Rightarrow> ustr" where
  "listing_venue_value NASDAQ = lit ''NASDAQ''"
| "listing_venue_value NYSE = lit ''NYSE''"
| "listing_venue_value NYSE_AMERICAN = lit ''NYSE_AMERICAN''"
| "listing_venue_value OTC = lit ''OTC''"
| "listing_venue_value UNKNOWN_VENUE = lit ''UNKNOWN''"

fun security_type_value :: "security_type \<Rightarrow> ustr" where
  "security_type_value COMMON_STOCK = lit ''COMMON_STOCK''"
| "security_type_value ADR = lit ''ADR''"
| "security_type_value ETF = lit ''ETF''"
| "security_type_value PREFERRED_STOCK = lit ''PREFERRED_STOCK''"
| "security_type_value UNIT = lit ''UNIT''"
| "security_type_value WARRANT = lit ''WARRANT''"
| "security_type_value US_EQUITY_UNSPECIFIED = lit ''US_EQUITY_UNSPECIFIED''"
| "security_type_value UNKNOWN_SECURITY = lit ''UNKNOWN''"

fun mapping_status_value :: "mapping_status \<Rightarrow> ustr" where
  "mapping_status_value RESOLVED_CURRENT_ONLY = lit ''RESOLVED_CURRENT_ONLY''"
| "mapping_status_value STATUS_RECENTLY_LISTED = lit ''RECENTLY_LISTED''"
| "mapping_status_value STATUS_DELISTED = lit ''DELISTED''"
| "mapping_status_value UNSUPPORTED_VENUE = lit ''UNSUPPORTED_VENUE''"
| "mapping_status_value AMBIGUOUS = lit ''AMBIGUOUS''"
| "mapping_status_value MISSING_REFERENCE = lit ''MISSING_REFERENCE''"

fun action_kind_value :: "corporate_action_kind \<Rightarrow> ustr" where
  "action_kind_value SPLIT = lit ''SPLIT''"
| "action_kind_value CASH_DIVIDEND = lit ''CASH_DIVIDEND''"

fun day_kind_value :: "calendar_day_kind \<Rightarrow> ustr" where
  "day_kind_value REGULAR_SESSION = lit ''REGULAR_SESSION''"
| "day_kind_value EARLY_CLOSE_SESSION = lit ''EARLY_CLOSE_SESSION''"
| "day_kind_value WEEKEND = lit ''WEEKEND''"
| "day_kind_value HOLIDAY = lit ''HOLIDAY''"
| "day_kind_value UNCLASSIFIED_CLOSURE = lit ''UNCLASSIFIED_CLOSURE''"

section \<open>Sealing\<close>

definition document_bytes :: "json \<Rightarrow> py_error + bytes" where
  "document_bytes v = json_dumps v"

definition json_digest :: "json \<Rightarrow> py_error + ustr" where
  "json_digest v = map_result (\<lambda>encoded. bytes_hex (sha256 encoded)) (document_bytes v)"

definition document_body :: "(ustr \<times> json) list \<Rightarrow> (ustr \<times> json) list" where
  "document_body payload = filter (\<lambda>(k, v). k \<noteq> lit ''document_sha256'') payload"

definition seal_document :: "(ustr \<times> json) list \<Rightarrow> py_error + (ustr \<times> json) list" where
  "seal_document payload =
     (let body = document_body payload
      in map_result (\<lambda>digest. body @ [(lit ''document_sha256'', JStr digest)]) (json_digest (JObj body)))"

section \<open>Documents\<close>

definition optional_int :: "int option \<Rightarrow> json" where
  "optional_int x = (case x of None \<Rightarrow> JNull | Some n \<Rightarrow> JInt n)"

definition optional_str :: "ustr option \<Rightarrow> json" where
  "optional_str x = (case x of None \<Rightarrow> JNull | Some t \<Rightarrow> JStr t)"

definition provenance_json :: "reference_provenance \<Rightarrow> json" where
  "provenance_json p = JObj
     [(lit ''available_at_ns'', JInt (provenance_available_at_ns p)),
      (lit ''content_sha256'', JStr (rp_content_sha256 p)),
      (lit ''dataset'', JStr (rp_dataset p)),
      (lit ''document_id'', JStr (rp_document_id p)),
      (lit ''historical_completeness'', JBool (rp_historical_completeness p)),
      (lit ''limitation'', JStr (rp_limitation p)),
      (lit ''observed_at_ns'', JInt (rp_observed_at_ns p)),
      (lit ''processed_at_ns'', JInt (rp_processed_at_ns p)),
      (lit ''provider'', JStr (rp_provider p)),
      (lit ''revision_at_ns'', JInt (rp_revision_at_ns p)),
      (lit ''source_publication_time_ns'', optional_int (rp_source_publication_time_ns p))]"

definition instrument_json :: "instrument_revision \<Rightarrow> json" where
  "instrument_json r = JObj
     [(lit ''delisting_date'', optional_str (map_option isoformat (inst_delisting_date r))),
      (lit ''effective_from_ns'', JInt (effective_from_ns (inst_effective r))),
      (lit ''effective_to_ns'', optional_int (effective_to_ns (inst_effective r))),
      (lit ''instrument_id'', JStr (identifier_hex (inst_instrument_id r))),
      (lit ''listing_date'', optional_str (map_option isoformat (inst_listing_date r))),
      (lit ''listing_venue'', JStr (listing_venue_value (inst_listing_venue r))),
      (lit ''primary_symbol'', JStr (inst_primary_symbol r)),
      (lit ''provenance'', provenance_json (inst_provenance r)),
      (lit ''revision_id'', JStr (inst_revision_id r)),
      (lit ''security_type'', JStr (security_type_value (inst_security_type r))),
      (lit ''unresolved_fields'', JArr (map JStr (inst_unresolved_fields r))),
      (lit ''version'', JInt (inst_version r))]"

definition mapping_json :: "symbol_mapping_revision \<Rightarrow> json" where
  "mapping_json r = JObj
     [(lit ''effective_from_ns'', JInt (effective_from_ns (smr_effective r))),
      (lit ''effective_to_ns'', optional_int (effective_to_ns (smr_effective r))),
      (lit ''instrument_id'', optional_str (map_option identifier_hex (smr_instrument_id r))),
      (lit ''listing_venue'', JStr (listing_venue_value (smr_listing_venue r))),
      (lit ''mapping_id'', JStr (smr_mapping_id r)),
      (lit ''provenance'', provenance_json (smr_provenance r)),
      (lit ''status'', JStr (mapping_status_value (smr_status r))),
      (lit ''symbol'', JStr (smr_symbol r)),
      (lit ''version'', JInt (smr_version r))]"

definition calendar_json :: "calendar_day_revision \<Rightarrow> json" where
  "calendar_json r = JObj
     [(lit ''calendar_id'', JStr (cdr_calendar_id r)),
      (lit ''close_exchange_time_ns'', optional_int (cdr_close_exchange_time_ns r)),
      (lit ''kind'', JStr (day_kind_value (cdr_kind r))),
      (lit ''open_exchange_time_ns'', optional_int (cdr_open_exchange_time_ns r)),
      (lit ''provenance'', provenance_json (cdr_provenance r)),
      (lit ''session_date'', JStr (isoformat (cdr_session_date r))),
      (lit ''version'', JInt (cdr_version r))]"

definition action_json :: "corporate_action_revision \<Rightarrow> json" where
  "action_json r = JObj
     [(lit ''action_id'', JStr (car_action_id r)),
      (lit ''cash_dividend_currency_nanos'', optional_int (car_cash_dividend_currency_nanos r)),
      (lit ''currency'', optional_str (car_currency r)),
      (lit ''effective_time_ns'', JInt (car_effective_time_ns r)),
      (lit ''instrument_id'', JStr (identifier_hex (car_instrument_id r))),
      (lit ''kind'', JStr (action_kind_value (car_kind r))),
      (lit ''provenance'', provenance_json (car_provenance r)),
      (lit ''split_denominator'', optional_int (map_option ratio_denominator (car_split_new_shares_per_old r))),
      (lit ''split_numerator'', optional_int (map_option ratio_numerator (car_split_new_shares_per_old r))),
      (lit ''version'', JInt (car_version r))]"

definition halt_json :: "halt_revision \<Rightarrow> json" where
  "halt_json r = JObj
     [(lit ''end_exchange_time_ns'', JInt (halt_end_exchange_time_ns r)),
      (lit ''halt_id'', JStr (halt_id r)),
      (lit ''instrument_id'', JStr (identifier_hex (halt_instrument_id r))),
      (lit ''provenance'', provenance_json (halt_provenance r)),
      (lit ''start_exchange_time_ns'', JInt (halt_start_exchange_time_ns r)),
      (lit ''version'', JInt (halt_version r))]"

definition snapshot_document_payload :: "reference_snapshot \<Rightarrow> (ustr \<times> json) list" where
  "snapshot_document_payload s =
     [(lit ''as_of_ns'', JInt (rs_as_of_ns s)),
      (lit ''calendar_days'', JArr (map calendar_json (rs_calendar_days s))),
      (lit ''corporate_actions'', JArr (map action_json (rs_corporate_actions s))),
      (lit ''halt_coverage_complete'', JBool (rs_halt_coverage_complete s)),
      (lit ''halts'', JArr (map halt_json (rs_halts s))),
      (lit ''instruments'', JArr (map instrument_json (rs_instruments s))),
      (lit ''live_trading_capable'', JBool False),
      (lit ''mappings'', JArr (map mapping_json (rs_mappings s))),
      (lit ''schema_version'', JStr (rs_schema_version s)),
      (lit ''source_report_sha256'', JStr (rs_source_report_sha256 s)),
      (lit ''universe_source_sha256'', JStr (rs_universe_source_sha256 s))]"

definition snapshot_document :: "reference_snapshot \<Rightarrow> py_error + (ustr \<times> json) list" where
  "snapshot_document s = seal_document (snapshot_document_payload s)"

section \<open>The resolution report\<close>

definition resolution_entry_json :: "symbol_mapping_revision \<Rightarrow> json" where
  "resolution_entry_json r = JObj
     [(lit ''current_mapping_status'', JStr (mapping_status_value (smr_status r))),
      (lit ''historical_mapping_status'', JStr (lit ''UNRESOLVED'')),
      (lit ''instrument_id'', optional_str (map_option identifier_hex (smr_instrument_id r))),
      (lit ''listing_venue'', JStr (listing_venue_value (smr_listing_venue r))),
      (lit ''symbol'', JStr (smr_symbol r)),
      (lit ''unresolved_fields'', JArr (map (\<lambda>t. JStr (lit t))
         [''historical_symbol_mappings'', ''listing_date'', ''delisting_date'', ''security_subtype'',
          ''split_history'', ''dividend_history'', ''halt_history'']))]"

definition count_if :: "('a \<Rightarrow> bool) \<Rightarrow> 'a list \<Rightarrow> json" where
  "count_if P xs = JInt (int (length (filter P xs)))"

definition resolution_report_document ::
    "reference_snapshot \<Rightarrow> ustr \<Rightarrow> py_error + (ustr \<times> json) list" where
  "resolution_report_document s snapshot_sha256 = seal_document
     [(lit ''as_of_ns'', JInt (rs_as_of_ns s)),
      (lit ''calendar'', JObj
         [(lit ''calendar_days'', JInt (int (length (rs_calendar_days s)))),
          (lit ''early_close_sessions'', count_if (\<lambda>d. cdr_kind d = EARLY_CLOSE_SESSION) (rs_calendar_days s)),
          (lit ''halt_coverage_complete'', JBool (rs_halt_coverage_complete s)),
          (lit ''sessions'',
             count_if (\<lambda>d. cdr_kind d \<in> {REGULAR_SESSION, EARLY_CLOSE_SESSION}) (rs_calendar_days s)),
          (lit ''weekday_closures_unclassified'',
             count_if (\<lambda>d. cdr_kind d = UNCLASSIFIED_CLOSURE) (rs_calendar_days s))]),
      (lit ''counts'', JObj
         [(lit ''current_only_resolved'', count_if (\<lambda>m. smr_status m = RESOLVED_CURRENT_ONLY) (rs_mappings s)),
          (lit ''historically_complete'', JInt 0),
          (lit ''requested'', JInt (int (length (rs_mappings s)))),
          (lit ''stable_instrument_ids'', count_if (\<lambda>m. smr_instrument_id m \<noteq> None) (rs_mappings s)),
          (lit ''unsupported_venue'', count_if (\<lambda>m. smr_status m = UNSUPPORTED_VENUE) (rs_mappings s))]),
      (lit ''economic_value_claimed'', JBool False),
      (lit ''entries'', JArr (map resolution_entry_json (rs_mappings s))),
      (lit ''live_trading_capable'', JBool False),
      (lit ''reference_snapshot_document_sha256'', JStr snapshot_sha256),
      (lit ''safe_for_historical_training'', JBool False),
      (lit ''schema_version'', JStr (lit ''1.0.0'')),
      (lit ''status'', JStr (lit ''PARTIAL_REFERENCE_COVERAGE'')),
      (lit ''unresolved_source_boundaries'', JArr (map (\<lambda>t. JStr (lit t))
         [''Nasdaq Trader persistent automated use is not authorized'',
          ''SEC current ticker mappings are not historical symbology'',
          ''authoritative historical actions, delistings, mappings, and halts are absent''])),
      (lit ''universe_source_sha256'', JStr (rs_universe_source_sha256 s))]"

end
