(* ===== verification/Minute.thy ===== *)
theory Minute
  imports Py_Values Reference_Documents
begin

text \<open>
  Canonical minute normalization of \<open>python/research/aegis_mx_research/canonical_minute.py\<close>: tick-size revisions and
  their store, the point-in-time resolver over the reference store, the record with its payload, hashes and codec,
  and the normalizer that turns a raw provider bar into integer ticks.

  \<^item> Prices arrive as Python \<open>Decimal\<close>, \<open>int\<close> or (by mistake) \<open>bool\<close> values: \<open>price_value\<close>.
  \<^item> The date of an instant in \<open>America/New_York\<close> comes from the time-zone database of the host, so it is a
    parameter \<open>session_zone_date\<close> from seconds since the epoch to a date.
  \<^item> \<open>from_bytes\<close> does not check the types of the values it casts. A document that names every field, but with a
    value of another JSON type than the field declares, is \<open>Minute_Untyped\<close>: Python goes on with an ill-typed
    object and this model stops there.
\<close>

section \<open>Codes, errors and limits\<close>

datatype minute_code =
    CONFLICTING_DUPLICATE | CORRUPT_SPOOL | HASH_MISMATCH | INEXACT_PRICE | INVALID_PRICE | INVALID_QUANTITY
  | INVALID_SOURCE | NO_CALENDAR | NO_REFERENCE | MISSING_TICK_SIZE | OUTSIDE_SESSION | RECORD_LIMIT
  | SOURCE_TOO_LARGE | TIMESTAMP_DISORDER | UNSUPPORTED_SOURCE_SCHEMA

datatype minute_error =
    MinuteNormalizationError (minute_code: minute_code) (minute_detail: ustr)
  | Minute_Reference reference_error
  | Minute_PyError py_error
  | Minute_Decimal decimal_signal
  | Minute_ZeroDivision
  | Minute_Untyped

definition minute_error :: "minute_code \<Rightarrow> string \<Rightarrow> minute_error" where
  "minute_error code message = MinuteNormalizationError code (lit message)"

datatype raw_price_encoding = CURRENCY_UNITS_DECIMAL | RESOLVED_TICKS

datatype minute_data_quality = QUALITY_VALID | QUALITY_DEGRADED

fun minute_quality_value :: "minute_data_quality \<Rightarrow> ustr" where
  "minute_quality_value QUALITY_VALID = lit ''VALID''"
| "minute_quality_value QUALITY_DEGRADED = lit ''DEGRADED''"

definition CANONICAL_MINUTE_SCHEMA_VERSION :: ustr where
  "CANONICAL_MINUTE_SCHEMA_VERSION = lit ''1.0.0''"

definition NANOSECONDS_PER_MINUTE :: int where "NANOSECONDS_PER_MINUTE = 60000000000"
definition CURRENCY_NANOS_PER_UNIT :: nat where "CURRENCY_NANOS_PER_UNIT = 1000000000"
definition MINUTE_SHA256_HEX_LENGTH :: nat where "MINUTE_SHA256_HEX_LENGTH = 64"

definition with_py_error :: "py_error + 'a \<Rightarrow> minute_error + 'a" where
  "with_py_error r = (case r of Inl e \<Rightarrow> Inl (Minute_PyError e) | Inr x \<Rightarrow> Inr x)"

text \<open>
  \<open>value.lower() != value\<close> is implied by the characters test that follows it, so the disjunction has one test less.
\<close>

definition minute_require_sha256 :: "ustr \<Rightarrow> string \<Rightarrow> minute_error option" where
  "minute_require_sha256 value field = raise_if
     (length value \<noteq> MINUTE_SHA256_HEX_LENGTH \<or> \<not> list_all is_hex_digit value \<or> \<not> (\<exists>c \<in> set value. c \<noteq> 48))
     (minute_error INVALID_SOURCE (field @ '' is not a SHA-256''))"

definition require_int64 :: "int \<Rightarrow> string \<Rightarrow> bool \<Rightarrow> minute_error option" where
  "require_int64 value field allow_zero = raise_if
     (\<not> ((if allow_zero then 0 else 1) \<le> value \<and> value \<le> INT64_MAX))
     (minute_error INVALID_QUANTITY (field @ '' is outside the accepted int64 range''))"

section \<open>Tick sizes\<close>

record tick_size_revision =
  tick_revision_id :: ustr
  tick_symbol :: ustr
  tick_value_nanos :: int
  tick_currency :: ustr
  tick_effective_from_ns :: int
  tick_effective_to_ns :: "int option"
  tick_available_at_ns :: int
  tick_version :: int
  tick_source_sha256 :: ustr
  tick_historical_completeness :: bool

definition tick_size_revision_post_init :: "tick_size_revision \<Rightarrow> minute_error option" where
  "tick_size_revision_post_init t = first_error
     ([raise_if (tick_revision_id t = [] \<or> tick_symbol t = [] \<or> tick_currency t = [])
         (minute_error MISSING_TICK_SIZE ''tick revision identity is incomplete''),
       require_int64 (tick_value_nanos t) ''tick value'' False,
       require_int64 (tick_effective_from_ns t) ''tick effective_from_ns'' False,
       require_int64 (tick_available_at_ns t) ''tick available_at_ns'' False] @
      (case tick_effective_to_ns t of
         None \<Rightarrow> []
       | Some until \<Rightarrow>
           [require_int64 until ''tick effective_to_ns'' False,
            raise_if (until \<le> tick_effective_from_ns t)
              (minute_error MISSING_TICK_SIZE ''tick validity interval is empty'')]) @
      [raise_if (tick_version t \<le> 0)
         (minute_error MISSING_TICK_SIZE ''tick revision version is invalid''),
       minute_require_sha256 (tick_source_sha256 t) ''tick source_sha256''])"

definition tick_effective_at :: "tick_size_revision \<Rightarrow> int \<Rightarrow> bool" where
  "tick_effective_at t event_time_ns \<longleftrightarrow> tick_effective_from_ns t \<le> event_time_ns \<and>
     (case tick_effective_to_ns t of None \<Rightarrow> True | Some until \<Rightarrow> event_time_ns < until)"

record tick_size_store =
  ticks_by_symbol :: "(ustr \<times> tick_size_revision list) list"
  tick_store_sha256 :: ustr

definition check_tick_group :: "ustr \<times> tick_size_revision list \<Rightarrow> minute_error option" where
  "check_tick_group g =
     (case g of (symbol, records) \<Rightarrow>
        let versions = sort (map (\<lambda>t. (tick_version t, tick_available_at_ns t)) records)
        in first_error
          [raise_if (map fst versions \<noteq> map int [1..<length versions + 1])
             (MinuteNormalizationError MISSING_TICK_SIZE
               (lit ''tick revisions for '' @ symbol @ lit '' are not contiguous'')),
           raise_if (\<exists>(previous, current) \<in> set (pairwise_list versions). snd current \<le> snd previous)
             (MinuteNormalizationError MISSING_TICK_SIZE
               (lit ''tick revisions for '' @ symbol @ lit '' do not advance knowledge time''))])"

definition tick_revision_json :: "tick_size_revision \<Rightarrow> json" where
  "tick_revision_json t = JObj
     [(lit ''available_at_ns'', JInt (tick_available_at_ns t)),
      (lit ''currency'', JStr (tick_currency t)),
      (lit ''effective_from_ns'', JInt (tick_effective_from_ns t)),
      (lit ''effective_to_ns'', optional_int (tick_effective_to_ns t)),
      (lit ''historical_completeness'', JBool (tick_historical_completeness t)),
      (lit ''revision_id'', JStr (tick_revision_id t)),
      (lit ''source_sha256'', JStr (tick_source_sha256 t)),
      (lit ''symbol'', JStr (tick_symbol t)),
      (lit ''tick_value_currency_nanos'', JInt (tick_value_nanos t)),
      (lit ''version'', JInt (tick_version t))]"

definition tick_size_store_init :: "tick_size_revision list \<Rightarrow> minute_error + tick_size_store" where
  "tick_size_store_init revisions =
     (let by_symbol = group_by tick_symbol (\<lambda>t. t) revisions
      in case first_error (map check_tick_group by_symbol) of
           Some e \<Rightarrow> Inl e
         | None \<Rightarrow>
             map_result (\<lambda>digest. \<lparr>ticks_by_symbol = by_symbol, tick_store_sha256 = digest\<rparr>)
               (with_py_error (json_digest (JArr (map tick_revision_json
                  (sort_key (\<lambda>t. (tick_symbol t, tick_version t)) revisions))))))"

text \<open>\<open>min(xs, key=f)\<close> of a nonempty list: the first element with the smallest key.\<close>

fun min_by :: "('a \<Rightarrow> 'o::linorder) \<Rightarrow> 'a list \<Rightarrow> 'a" where
  "min_by f (x # xs) = fold (\<lambda>y m. if f y < f m then y else m) xs x"
| "min_by f [] = undefined"

definition tick_size_at :: "tick_size_store \<Rightarrow> ustr \<Rightarrow> int \<Rightarrow> int \<Rightarrow> minute_error + tick_size_revision" where
  "tick_size_at st symbol event_time_ns known_at_ns =
     (let candidates = filter (\<lambda>t. tick_available_at_ns t \<le> known_at_ns \<and> tick_effective_at t event_time_ns)
            (group_of (ticks_by_symbol st) symbol)
      in if candidates = []
         then Inl (MinuteNormalizationError MISSING_TICK_SIZE (lit ''no known tick-size revision for '' @ symbol))
         else let latest_version = Max (set (map tick_version candidates));
                  latest = filter (\<lambda>t. tick_version t = latest_version) candidates
              in Inr (min_by tick_revision_id latest))"

section \<open>The point-in-time resolver\<close>

record minute_reference =
  mr_instrument_id :: ustr
  mr_market_id :: ustr
  mr_mapping_id :: ustr
  mr_instrument_revision_id :: ustr
  mr_tick_revision_id :: ustr
  mr_tick_value_nanos :: int
  mr_currency :: ustr
  mr_session_id :: ustr
  mr_trading_date :: date
  mr_session_open_ns :: int
  mr_session_close_ns :: int
  mr_corporate_action_ids :: "ustr list"
  mr_reference_sha256 :: ustr
  mr_quality_reasons :: "ustr list"

record minute_resolver =
  res_reference :: reference_store
  res_ticks :: tick_size_store
  res_reference_sha256 :: ustr

definition minute_resolver_init :: "reference_store \<Rightarrow> tick_size_store \<Rightarrow> minute_error + minute_resolver" where
  "minute_resolver_init reference_store tick_store =
     with_py_error (bind_result (snapshot_document (store_snapshot reference_store)) (\<lambda>document.
       map_result (\<lambda>digest. \<lparr>res_reference = reference_store, res_ticks = tick_store, res_reference_sha256 = digest\<rparr>)
         (json_digest (JObj
           [(lit ''reference_snapshot_sha256'', the (map_of document (lit ''document_sha256''))),
            (lit ''tick_snapshot_sha256'', JStr (tick_store_sha256 tick_store))]))))"

definition reference_failure :: "minute_error \<Rightarrow> reference_error + 'a \<Rightarrow> minute_error + 'a" where
  "reference_failure translated r =
     (case r of
        Inr x \<Rightarrow> Inr x
      | Inl (ReferenceDataError code message) \<Rightarrow> Inl translated
      | Inl (Reference_PyError e) \<Rightarrow> Inl (Minute_PyError e))"

definition untranslated :: "reference_error + 'a \<Rightarrow> minute_error + 'a" where
  "untranslated r = (case r of Inl e \<Rightarrow> Inl (Minute_Reference e) | Inr x \<Rightarrow> Inr x)"

definition eligible_mapping :: "symbol_mapping_revision option \<Rightarrow> (symbol_mapping_revision \<times> identifier128) option" where
  "eligible_mapping m =
     (case m of
        None \<Rightarrow> None
      | Some r \<Rightarrow> (case smr_instrument_id r of
          None \<Rightarrow> None
        | Some i \<Rightarrow> if smr_status r \<in> {RESOLVED_CURRENT_ONLY, STATUS_RECENTLY_LISTED, STATUS_DELISTED}
                    then Some (r, i) else None))"

definition session_bounds :: "calendar_day_revision \<Rightarrow> int \<Rightarrow> (int \<times> int) option" where
  "session_bounds day event_time_ns =
     (if cdr_kind day \<notin> {REGULAR_SESSION, EARLY_CLOSE_SESSION} then None
      else case (cdr_open_exchange_time_ns day, cdr_close_exchange_time_ns day) of
        (Some opened, Some closing) \<Rightarrow>
          if event_time_ns < opened \<or> closing < event_time_ns + NANOSECONDS_PER_MINUTE then None
          else Some (opened, closing)
      | _ \<Rightarrow> None)"

definition quality_reasons ::
    "symbol_mapping_revision \<Rightarrow> instrument_revision \<Rightarrow> calendar_day_revision \<Rightarrow> tick_size_revision \<Rightarrow> bool \<Rightarrow> ustr list" where
  "quality_reasons mapping instrument day tick halt_coverage_complete = map (\<lambda>(known, reason). lit reason)
     (filter (\<lambda>(known, reason). \<not> known)
       [(rp_historical_completeness (smr_provenance mapping), ''MAPPING_HISTORY_INCOMPLETE''),
        (rp_historical_completeness (inst_provenance instrument), ''INSTRUMENT_HISTORY_INCOMPLETE''),
        (rp_historical_completeness (cdr_provenance day), ''CALENDAR_HISTORY_INCOMPLETE''),
        (tick_historical_completeness tick, ''TICK_HISTORY_INCOMPLETE''),
        (halt_coverage_complete, ''HALT_HISTORY_INCOMPLETE'')])"

definition session_payload :: "calendar_day_revision \<Rightarrow> date \<Rightarrow> int \<Rightarrow> int \<Rightarrow> json" where
  "session_payload day trading_date opened closing = JObj
     [(lit ''calendar_id'', JStr (cdr_calendar_id day)),
      (lit ''close_ns'', JInt closing),
      (lit ''date'', JStr (isoformat trading_date)),
      (lit ''open_ns'', JInt opened)]"

definition minute_resolve ::
    "(int \<Rightarrow> date) \<Rightarrow> minute_resolver \<Rightarrow> ustr \<Rightarrow> int \<Rightarrow> int \<Rightarrow> minute_error + minute_reference" where
  "minute_resolve session_zone_date resolver symbol event_time_ns known_at_ns =
     (let st = res_reference resolver in
      bind_result (reference_failure
          (minute_error NO_REFERENCE ''symbol mapping cannot be resolved without conflict'')
          (reference_mapping_at st symbol event_time_ns known_at_ns)) (\<lambda>found.
      case eligible_mapping found of
        None \<Rightarrow> Inl (MinuteNormalizationError NO_REFERENCE
                  (lit ''symbol '' @ symbol @ lit '' has no eligible point-in-time mapping''))
      | Some (mapping, instrument_id) \<Rightarrow>
      bind_result (untranslated (instrument_at st instrument_id event_time_ns known_at_ns)) (\<lambda>revision.
      case revision of
        None \<Rightarrow> Inl (MinuteNormalizationError NO_REFERENCE
                  (lit ''symbol '' @ symbol @ lit '' has no point-in-time instrument revision''))
      | Some instrument \<Rightarrow>
      bind_result (tick_size_at (res_ticks resolver) symbol event_time_ns known_at_ns) (\<lambda>tick.
      let trading_date = session_zone_date (event_time_ns div int CURRENCY_NANOS_PER_UNIT) in
      bind_result (reference_failure
          (MinuteNormalizationError NO_CALENDAR (lit ''calendar is unavailable for '' @ isoformat trading_date))
          (calendar_day_at st trading_date known_at_ns)) (\<lambda>day.
      case session_bounds day event_time_ns of
        None \<Rightarrow> Inl (minute_error OUTSIDE_SESSION ''minute is outside the explicit regular session'')
      | Some (opened, closing) \<Rightarrow>
      bind_result (untranslated (halts_at st instrument_id event_time_ns
          (event_time_ns + NANOSECONDS_PER_MINUTE) known_at_ns)) (\<lambda>halts.
      if halts \<noteq> [] then Inl (minute_error OUTSIDE_SESSION ''minute intersects a known trading halt'')
      else
      bind_result (untranslated (corporate_actions_at st instrument_id event_time_ns known_at_ns)) (\<lambda>actions.
      bind_result (with_py_error (json_digest (session_payload day trading_date opened closing))) (\<lambda>session_digest.
      Inr \<lparr>mr_instrument_id = identifier_hex instrument_id,
           mr_market_id = listing_venue_value (smr_listing_venue mapping),
           mr_mapping_id = smr_mapping_id mapping,
           mr_instrument_revision_id = inst_revision_id instrument,
           mr_tick_revision_id = tick_revision_id tick,
           mr_tick_value_nanos = tick_value_nanos tick,
           mr_currency = tick_currency tick,
           mr_session_id = take 32 session_digest,
           mr_trading_date = trading_date,
           mr_session_open_ns = opened,
           mr_session_close_ns = closing,
           mr_corporate_action_ids = map car_action_id actions,
           mr_reference_sha256 = res_reference_sha256 resolver,
           mr_quality_reasons = sort (quality_reasons mapping instrument day tick
             (rs_halt_coverage_complete (store_snapshot st)))\<rparr>))))))))"

section \<open>Raw bars and canonical records\<close>

datatype price_value = Price_Decimal py_decimal | Price_Int int | Price_Bool bool

record raw_minute_bar =
  raw_symbol :: ustr
  raw_minute_start :: int
  raw_open :: price_value
  raw_high :: price_value
  raw_low :: price_value
  raw_close :: price_value
  raw_volume :: int
  raw_trade_count :: "int option"
  raw_vwap :: "price_value option"
  raw_price_encoding :: raw_price_encoding
  raw_source_manifest_id :: ustr
  raw_source_object_id :: ustr
  raw_source_record_id :: ustr
  raw_source_publication_time_ns :: "int option"
  raw_source_availability_time_ns :: int
  raw_local_receipt_time_ns :: int
  raw_local_processing_time_ns :: int
  raw_market_id :: "ustr option"

record minute_record =
  cm_instrument_id :: ustr
  cm_source_ticker :: ustr
  cm_market_id :: ustr
  cm_session_id :: ustr
  cm_trading_date :: date
  cm_minute_start :: int
  cm_minute_end :: int
  cm_session_open :: int
  cm_session_close :: int
  cm_currency :: ustr
  cm_tick_value_nanos :: int
  cm_open_ticks :: int
  cm_high_ticks :: int
  cm_low_ticks :: int
  cm_close_ticks :: int
  cm_volume_shares :: int
  cm_trade_count :: "int option"
  cm_vwap_ticks :: "int option"
  cm_source_publication_time_ns :: "int option"
  cm_source_availability_time_ns :: int
  cm_local_receipt_time_ns :: int
  cm_local_processing_time_ns :: int
  cm_data_quality_state :: minute_data_quality
  cm_data_quality_reasons :: "ustr list"
  cm_source_manifest_id :: ustr
  cm_source_object_id :: ustr
  cm_source_record_id :: ustr
  cm_mapping_id :: ustr
  cm_instrument_revision_id :: ustr
  cm_tick_revision_id :: ustr
  cm_corporate_action_ids :: "ustr list"
  cm_reference_sha256 :: ustr
  cm_record_sha256 :: ustr
  cm_schema_version :: ustr

text \<open>
  \<open>payload(include_hash=...)\<close>: the members in the order of the source, \<open>record_sha256\<close> left out on demand.
\<close>

definition minute_payload :: "bool \<Rightarrow> minute_record \<Rightarrow> (ustr \<times> json) list" where
  "minute_payload include_hash r =
     [(lit ''close_ticks'', JInt (cm_close_ticks r)),
      (lit ''corporate_action_ids'', JArr (map JStr (cm_corporate_action_ids r))),
      (lit ''currency'', JStr (cm_currency r)),
      (lit ''data_quality_reasons'', JArr (map JStr (cm_data_quality_reasons r))),
      (lit ''data_quality_state'', JStr (minute_quality_value (cm_data_quality_state r))),
      (lit ''high_ticks'', JInt (cm_high_ticks r)),
      (lit ''instrument_id'', JStr (cm_instrument_id r)),
      (lit ''instrument_revision_id'', JStr (cm_instrument_revision_id r)),
      (lit ''local_processing_time_ns'', JInt (cm_local_processing_time_ns r)),
      (lit ''local_receipt_time_ns'', JInt (cm_local_receipt_time_ns r)),
      (lit ''low_ticks'', JInt (cm_low_ticks r)),
      (lit ''mapping_id'', JStr (cm_mapping_id r)),
      (lit ''market_id'', JStr (cm_market_id r)),
      (lit ''minute_end_exchange_time_ns'', JInt (cm_minute_end r)),
      (lit ''minute_start_exchange_time_ns'', JInt (cm_minute_start r)),
      (lit ''open_ticks'', JInt (cm_open_ticks r)),
      (lit ''price_unit'', JStr (lit ''TICKS'')),
      (lit ''quantity_unit'', JStr (lit ''SHARES''))] @
     (if include_hash then [(lit ''record_sha256'', JStr (cm_record_sha256 r))] else []) @
     [(lit ''reference_sha256'', JStr (cm_reference_sha256 r)),
      (lit ''schema_version'', JStr (cm_schema_version r)),
      (lit ''session_close_exchange_time_ns'', JInt (cm_session_close r)),
      (lit ''session_id'', JStr (cm_session_id r)),
      (lit ''session_open_exchange_time_ns'', JInt (cm_session_open r)),
      (lit ''source_availability_time_ns'', JInt (cm_source_availability_time_ns r)),
      (lit ''source_manifest_id'', JStr (cm_source_manifest_id r)),
      (lit ''source_object_id'', JStr (cm_source_object_id r)),
      (lit ''source_publication_time_ns'', optional_int (cm_source_publication_time_ns r)),
      (lit ''source_record_id'', JStr (cm_source_record_id r)),
      (lit ''source_ticker'', JStr (cm_source_ticker r)),
      (lit ''tick_revision_id'', JStr (cm_tick_revision_id r)),
      (lit ''tick_value_currency_nanos'', JInt (cm_tick_value_nanos r)),
      (lit ''trade_count'', optional_int (cm_trade_count r)),
      (lit ''trading_date'', JStr (isoformat (cm_trading_date r))),
      (lit ''volume_shares'', JInt (cm_volume_shares r)),
      (lit ''vwap_ticks'', optional_int (cm_vwap_ticks r))]"

definition economic_hash :: "minute_record \<Rightarrow> py_error + ustr" where
  "economic_hash r = json_digest (JObj
     [(lit ''close_ticks'', JInt (cm_close_ticks r)),
      (lit ''high_ticks'', JInt (cm_high_ticks r)),
      (lit ''instrument_id'', JStr (cm_instrument_id r)),
      (lit ''low_ticks'', JInt (cm_low_ticks r)),
      (lit ''market_id'', JStr (cm_market_id r)),
      (lit ''minute_start_exchange_time_ns'', JInt (cm_minute_start r)),
      (lit ''open_ticks'', JInt (cm_open_ticks r)),
      (lit ''tick_value_currency_nanos'', JInt (cm_tick_value_nanos r)),
      (lit ''trade_count'', optional_int (cm_trade_count r)),
      (lit ''volume_shares'', JInt (cm_volume_shares r)),
      (lit ''vwap_ticks'', optional_int (cm_vwap_ticks r))])"

definition record_digest :: "minute_record \<Rightarrow> py_error + ustr" where
  "record_digest r = json_digest (JObj (minute_payload False r))"

section \<open>Decoding a stored record\<close>

definition member_of :: "(ustr \<times> json) list \<Rightarrow> string \<Rightarrow> json" where
  "member_of d k = (case map_of d (lit k) of None \<Rightarrow> JNull | Some v \<Rightarrow> v)"

text \<open>\<open>tuple(v)\<close>: the elements of an array, the characters of a text, the keys of an object.\<close>

fun tuple_of :: "json \<Rightarrow> py_error + json list" where
  "tuple_of (JArr vs) = Inr vs"
| "tuple_of (JStr t) = Inr (map (\<lambda>c. JStr [c]) t)"
| "tuple_of (JObj kvs) = Inr (map (\<lambda>kv. JStr (fst kv)) kvs)"
| "tuple_of v = Inl TypeError"

fun minute_quality_of :: "json \<Rightarrow> py_error + minute_data_quality" where
  "minute_quality_of (JStr t) =
     (if t = lit ''VALID'' then Inr QUALITY_VALID else if t = lit ''DEGRADED'' then Inr QUALITY_DEGRADED
      else Inl (ValueError ''not a valid MinuteDataQuality''))"
| "minute_quality_of v = Inl (ValueError ''not a valid MinuteDataQuality'')"

fun date_of :: "json \<Rightarrow> py_error + date" where
  "date_of (JStr t) = date_fromisoformat t"
| "date_of v = Inl TypeError"

fun is_text :: "json \<Rightarrow> bool" where
  "is_text (JStr t) = True"
| "is_text v = False"

fun the_text :: "json \<Rightarrow> ustr" where
  "the_text (JStr t) = t"
| "the_text v = []"

fun is_int :: "json \<Rightarrow> bool" where
  "is_int (JInt n) = True"
| "is_int v = False"

fun the_int :: "json \<Rightarrow> int" where
  "the_int (JInt n) = n"
| "the_int v = 0"

definition the_optional_int :: "json \<Rightarrow> int option" where
  "the_optional_int v = (if v = JNull then None else Some (the_int v))"

definition minute_text_fields :: "string list" where
  "minute_text_fields =
     [''instrument_id'', ''source_ticker'', ''market_id'', ''session_id'', ''currency'', ''source_manifest_id'',
      ''source_object_id'', ''source_record_id'', ''mapping_id'', ''instrument_revision_id'', ''tick_revision_id'',
      ''reference_sha256'', ''record_sha256'', ''schema_version'']"

definition minute_int_fields :: "string list" where
  "minute_int_fields =
     [''minute_start_exchange_time_ns'', ''minute_end_exchange_time_ns'', ''session_open_exchange_time_ns'',
      ''session_close_exchange_time_ns'', ''tick_value_currency_nanos'', ''open_ticks'', ''high_ticks'',
      ''low_ticks'', ''close_ticks'', ''volume_shares'', ''source_availability_time_ns'', ''local_receipt_time_ns'',
      ''local_processing_time_ns'']"

definition minute_optional_fields :: "string list" where
  "minute_optional_fields = [''trade_count'', ''vwap_ticks'', ''source_publication_time_ns'']"

definition minute_parsed_fields :: "string list" where
  "minute_parsed_fields = [''trading_date'', ''data_quality_state'', ''data_quality_reasons'', ''corporate_action_ids'']"

definition minute_typed :: "(ustr \<times> json) list \<Rightarrow> json list \<Rightarrow> json list \<Rightarrow> bool" where
  "minute_typed d reasons actions \<longleftrightarrow>
     list_all (\<lambda>k. is_text (member_of d k)) minute_text_fields \<and>
     list_all (\<lambda>k. is_int (member_of d k)) minute_int_fields \<and>
     list_all (\<lambda>k. member_of d k = JNull \<or> is_int (member_of d k)) minute_optional_fields \<and>
     list_all is_text reasons \<and> list_all is_text actions"

definition minute_of_fields ::
    "(ustr \<times> json) list \<Rightarrow> date \<Rightarrow> minute_data_quality \<Rightarrow> json list \<Rightarrow> json list \<Rightarrow> minute_record" where
  "minute_of_fields d trading_date quality reasons actions =
     \<lparr>cm_instrument_id = the_text (member_of d ''instrument_id''),
      cm_source_ticker = the_text (member_of d ''source_ticker''),
      cm_market_id = the_text (member_of d ''market_id''),
      cm_session_id = the_text (member_of d ''session_id''),
      cm_trading_date = trading_date,
      cm_minute_start = the_int (member_of d ''minute_start_exchange_time_ns''),
      cm_minute_end = the_int (member_of d ''minute_end_exchange_time_ns''),
      cm_session_open = the_int (member_of d ''session_open_exchange_time_ns''),
      cm_session_close = the_int (member_of d ''session_close_exchange_time_ns''),
      cm_currency = the_text (member_of d ''currency''),
      cm_tick_value_nanos = the_int (member_of d ''tick_value_currency_nanos''),
      cm_open_ticks = the_int (member_of d ''open_ticks''),
      cm_high_ticks = the_int (member_of d ''high_ticks''),
      cm_low_ticks = the_int (member_of d ''low_ticks''),
      cm_close_ticks = the_int (member_of d ''close_ticks''),
      cm_volume_shares = the_int (member_of d ''volume_shares''),
      cm_trade_count = the_optional_int (member_of d ''trade_count''),
      cm_vwap_ticks = the_optional_int (member_of d ''vwap_ticks''),
      cm_source_publication_time_ns = the_optional_int (member_of d ''source_publication_time_ns''),
      cm_source_availability_time_ns = the_int (member_of d ''source_availability_time_ns''),
      cm_local_receipt_time_ns = the_int (member_of d ''local_receipt_time_ns''),
      cm_local_processing_time_ns = the_int (member_of d ''local_processing_time_ns''),
      cm_data_quality_state = quality,
      cm_data_quality_reasons = map the_text reasons,
      cm_source_manifest_id = the_text (member_of d ''source_manifest_id''),
      cm_source_object_id = the_text (member_of d ''source_object_id''),
      cm_source_record_id = the_text (member_of d ''source_record_id''),
      cm_mapping_id = the_text (member_of d ''mapping_id''),
      cm_instrument_revision_id = the_text (member_of d ''instrument_revision_id''),
      cm_tick_revision_id = the_text (member_of d ''tick_revision_id''),
      cm_corporate_action_ids = map the_text actions,
      cm_reference_sha256 = the_text (member_of d ''reference_sha256''),
      cm_record_sha256 = the_text (member_of d ''record_sha256''),
      cm_schema_version = the_text (member_of d ''schema_version'')\<rparr>"

definition malformed_minute :: minute_error where
  "malformed_minute = minute_error CORRUPT_SPOOL ''stored canonical minute is malformed''"

definition or_malformed :: "py_error + 'a \<Rightarrow> minute_error + 'a" where
  "or_malformed r = (case r of Inl e \<Rightarrow> Inl malformed_minute | Inr x \<Rightarrow> Inr x)"

definition minute_from_document :: "(ustr \<times> json) list \<Rightarrow> minute_error + minute_record" where
  "minute_from_document d =
     (if \<not> list_all (\<lambda>k. map_of d (lit k) \<noteq> None)
           (minute_text_fields @ minute_int_fields @ minute_optional_fields @ minute_parsed_fields)
      then Inl malformed_minute
      else
        bind_result (or_malformed (date_of (member_of d ''trading_date''))) (\<lambda>trading_date.
        bind_result (or_malformed (minute_quality_of (member_of d ''data_quality_state''))) (\<lambda>quality.
        bind_result (or_malformed (tuple_of (member_of d ''data_quality_reasons''))) (\<lambda>reasons.
        bind_result (or_malformed (tuple_of (member_of d ''corporate_action_ids''))) (\<lambda>actions.
          if minute_typed d reasons actions
          then Inr (minute_of_fields d trading_date quality reasons actions)
          else Inl Minute_Untyped)))))"

definition minute_from_bytes :: "bytes \<Rightarrow> minute_error + minute_record" where
  "minute_from_bytes encoded =
     bind_result
       (case json_loads_bytes encoded of
          Inr (JObj d) \<Rightarrow> minute_from_document d
        | _ \<Rightarrow> Inl malformed_minute)
       (\<lambda>r. if cm_schema_version r \<noteq> CANONICAL_MINUTE_SCHEMA_VERSION
            then Inl (minute_error CORRUPT_SPOOL ''stored canonical minute hash or schema is invalid'')
            else bind_result (with_py_error (record_digest r)) (\<lambda>digest.
              if digest \<noteq> cm_record_sha256 r
              then Inl (minute_error CORRUPT_SPOOL ''stored canonical minute hash or schema is invalid'')
              else Inr r))"

section \<open>The normalizer\<close>

fun as_decimal :: "price_value \<Rightarrow> py_decimal" where
  "as_decimal (Price_Decimal d) = d"
| "as_decimal (Price_Int i) = decimal_of_int i"
| "as_decimal (Price_Bool b) = decimal_of_int (if b then 1 else 0)"

fun is_bool_price :: "price_value \<Rightarrow> bool" where
  "is_bool_price (Price_Bool b) = True"
| "is_bool_price price = False"

definition currency_nanos :: "price_value \<Rightarrow> minute_error + int" where
  "currency_nanos price =
     (if is_bool_price price
      then Inl (minute_error INVALID_PRICE ''boolean price is invalid'')
      else case decimal_times (as_decimal price) CURRENCY_NANOS_PER_UNIT of
        Inl InvalidOperation \<Rightarrow> Inl (minute_error INVALID_PRICE ''price is not finite decimal'')
      | Inl Decimal_Overflow \<Rightarrow> Inl (Minute_Decimal Decimal_Overflow)
      | Inr scaled \<Rightarrow>
          if \<not> is_finite (as_decimal price) \<or> \<not> is_integral scaled
          then Inl (minute_error INEXACT_PRICE ''price cannot be represented in currency nanos'')
          else let result = int_of_decimal scaled
               in if \<not> (0 < result \<and> result \<le> INT64_MAX)
                  then Inl (minute_error INVALID_PRICE ''price is outside int64 range'')
                  else Inr result)"

definition resolved_ticks :: "price_value \<Rightarrow> minute_error + int" where
  "resolved_ticks price =
     (case price of
        Price_Int i \<Rightarrow> if 0 < i \<and> i \<le> INT64_MAX then Inr i
          else Inl (minute_error INVALID_PRICE ''resolved tick price is outside int64 range'')
      | _ \<Rightarrow> Inl (minute_error INVALID_PRICE ''resolved tick price is outside int64 range''))"

definition price_ticks :: "price_value \<Rightarrow> raw_price_encoding \<Rightarrow> int \<Rightarrow> minute_error + int" where
  "price_ticks price encoding tick_value_currency_nanos =
     (if encoding = RESOLVED_TICKS then resolved_ticks price
      else bind_result (currency_nanos price) (\<lambda>nanos.
        if tick_value_currency_nanos = 0 then Inl Minute_ZeroDivision
        else if nanos mod tick_value_currency_nanos \<noteq> 0
        then Inl (minute_error INEXACT_PRICE ''price is not an exact multiple of its known tick size'')
        else Inr (nanos div tick_value_currency_nanos)))"

definition raw_checks :: "raw_minute_bar \<Rightarrow> minute_error option" where
  "raw_checks raw = first_error
     ([require_int64 (raw_minute_start raw) ''minute start'' False,
       raise_if (raw_minute_start raw mod NANOSECONDS_PER_MINUTE \<noteq> 0)
         (minute_error TIMESTAMP_DISORDER ''minute start is not aligned to an exchange-time minute''),
       raise_if (INT64_MAX - NANOSECONDS_PER_MINUTE < raw_minute_start raw)
         (minute_error TIMESTAMP_DISORDER ''minute end overflows int64''),
       require_int64 (raw_volume raw) ''volume'' True] @
      (case raw_trade_count raw of None \<Rightarrow> [] | Some n \<Rightarrow> [require_int64 n ''trade count'' True]) @
      [require_int64 (raw_source_availability_time_ns raw) ''source availability'' False,
       require_int64 (raw_local_receipt_time_ns raw) ''local receipt'' False,
       require_int64 (raw_local_processing_time_ns raw) ''local processing'' False] @
      (case raw_source_publication_time_ns raw of
         None \<Rightarrow> []
       | Some t \<Rightarrow>
           [require_int64 t ''source publication'' False,
            raise_if (raw_source_availability_time_ns raw < t)
              (minute_error TIMESTAMP_DISORDER ''availability precedes publication'')]) @
      [raise_if (raw_local_receipt_time_ns raw < raw_source_availability_time_ns raw \<or>
                 raw_local_processing_time_ns raw < raw_local_receipt_time_ns raw)
         (minute_error TIMESTAMP_DISORDER ''source/local availability timestamps are disordered'')])"

definition provisional_record ::
    "raw_minute_bar \<Rightarrow> minute_reference \<Rightarrow> int \<Rightarrow> int \<Rightarrow> int \<Rightarrow> int \<Rightarrow> int option \<Rightarrow> minute_record" where
  "provisional_record raw reference open_ticks high_ticks low_ticks close_ticks vwap =
     (let reasons = mr_quality_reasons reference @
            (if raw_source_publication_time_ns raw = None then [lit ''SOURCE_PUBLICATION_TIME_UNAVAILABLE''] else [])
      in \<lparr>cm_instrument_id = mr_instrument_id reference,
          cm_source_ticker = raw_symbol raw,
          cm_market_id = (case raw_market_id raw of
             None \<Rightarrow> mr_market_id reference | Some m \<Rightarrow> if m = [] then mr_market_id reference else m),
          cm_session_id = mr_session_id reference,
          cm_trading_date = mr_trading_date reference,
          cm_minute_start = raw_minute_start raw,
          cm_minute_end = raw_minute_start raw + NANOSECONDS_PER_MINUTE,
          cm_session_open = mr_session_open_ns reference,
          cm_session_close = mr_session_close_ns reference,
          cm_currency = mr_currency reference,
          cm_tick_value_nanos = mr_tick_value_nanos reference,
          cm_open_ticks = open_ticks,
          cm_high_ticks = high_ticks,
          cm_low_ticks = low_ticks,
          cm_close_ticks = close_ticks,
          cm_volume_shares = raw_volume raw,
          cm_trade_count = raw_trade_count raw,
          cm_vwap_ticks = vwap,
          cm_source_publication_time_ns = raw_source_publication_time_ns raw,
          cm_source_availability_time_ns = raw_source_availability_time_ns raw,
          cm_local_receipt_time_ns = raw_local_receipt_time_ns raw,
          cm_local_processing_time_ns = raw_local_processing_time_ns raw,
          cm_data_quality_state = (if reasons = [] then QUALITY_VALID else QUALITY_DEGRADED),
          cm_data_quality_reasons = sort (remdups reasons),
          cm_source_manifest_id = raw_source_manifest_id raw,
          cm_source_object_id = raw_source_object_id raw,
          cm_source_record_id = raw_source_record_id raw,
          cm_mapping_id = mr_mapping_id reference,
          cm_instrument_revision_id = mr_instrument_revision_id reference,
          cm_tick_revision_id = mr_tick_revision_id reference,
          cm_corporate_action_ids = mr_corporate_action_ids reference,
          cm_reference_sha256 = mr_reference_sha256 reference,
          cm_record_sha256 = replicate 64 48,
          cm_schema_version = CANONICAL_MINUTE_SCHEMA_VERSION\<rparr>)"

definition normalize_minute ::
    "(ustr \<Rightarrow> int \<Rightarrow> int \<Rightarrow> minute_error + minute_reference) \<Rightarrow> raw_minute_bar \<Rightarrow> minute_error + minute_record" where
  "normalize_minute resolve raw =
     (case raw_checks raw of
        Some e \<Rightarrow> Inl e
      | None \<Rightarrow>
          bind_result (resolve (raw_symbol raw) (raw_minute_start raw) (raw_local_processing_time_ns raw)) (\<lambda>reference.
          let ticks = (\<lambda>price. price_ticks price (raw_price_encoding raw) (mr_tick_value_nanos reference)) in
          bind_result (ticks (raw_open raw)) (\<lambda>open_ticks.
          bind_result (ticks (raw_high raw)) (\<lambda>high_ticks.
          bind_result (ticks (raw_low raw)) (\<lambda>low_ticks.
          bind_result (ticks (raw_close raw)) (\<lambda>close_ticks.
          if high_ticks < low_ticks \<or>
             \<not> (low_ticks \<le> open_ticks \<and> open_ticks \<le> high_ticks \<and>
                low_ticks \<le> close_ticks \<and> close_ticks \<le> high_ticks)
          then Inl (minute_error INVALID_PRICE ''OHLC values violate bar invariants'')
          else
          bind_result (case raw_vwap raw of None \<Rightarrow> Inr None | Some v \<Rightarrow> map_result Some (ticks v)) (\<lambda>vwap.
          let provisional = provisional_record raw reference open_ticks high_ticks low_ticks close_ticks vwap in
          map_result (\<lambda>digest. provisional\<lparr>cm_record_sha256 := digest\<rparr>)
            (with_py_error (record_digest provisional)))))))))"

end
