(* ===== verification/Horizon.thy ===== *)
theory Horizon
  imports Identifier
begin

text \<open>
  Semantic forecast horizons of \<open>python/research/aegis_mx_research/forecast_contracts.py\<close>: horizon
  specifications, halts, sessions, calendars and \<open>resolve_horizon\<close>, which turns "\<open>value\<close> trading minutes
  (or sessions) after \<open>as_of\<close>" into an exchange timestamp. The two resolving loops are translated as
  loops; \<open>pick\<close> is the reference definition they refine: take the \<open>n\<close>-th counted candidate of a list,
  stopping at the first forbidden one. Enum membership tests on enum-typed fields are typing facts here.
\<close>

section \<open>Enumerations, limits and errors\<close>

datatype forecast_horizon_unit = ELAPSED_NANOSECONDS | TRADING_MINUTES | TRADING_SESSIONS

datatype horizon_halt_policy = HALT_NOT_APPLICABLE | REJECT | PAUSE | COUNT_SCHEDULED

datatype horizon_session_endpoint = ENDPOINT_NOT_APPLICABLE | REGULAR_SESSION_CLOSE

datatype horizon_error_code =
    INVALID_SPEC | INVALID_CALENDAR | INVALID_SESSION | INVALID_HALT | CALENDAR_VERSION_MISMATCH
  | INVALID_AS_OF_TIME | HALT_ENCOUNTERED | INSUFFICIENT_CALENDAR | TIMESTAMP_OVERFLOW

datatype horizon_error = HorizonContractError (horizon_code: horizon_error_code) (horizon_detail: ustr)

definition MAX_LABEL_BYTES :: nat where "MAX_LABEL_BYTES = 16"
definition MAX_CALENDAR_ID_BYTES :: nat where "MAX_CALENDAR_ID_BYTES = 32"
definition MAX_SESSION_ID_BYTES :: nat where "MAX_SESSION_ID_BYTES = 64"
definition MAX_CALENDAR_SESSIONS :: nat where "MAX_CALENDAR_SESSIONS = 4096"
definition MAX_HORIZON_VALUE :: int where "MAX_HORIZON_VALUE = 10000"
definition MAX_INT64 :: int where "MAX_INT64 = 2 ^ 63 - 1"
definition MINUTE_NS :: int where "MINUTE_NS = 60000000000"
definition HORIZON_SCHEMA_VERSION :: ustr where "HORIZON_SCHEMA_VERSION = lit ''1.0.0''"

section \<open>Field checks\<close>

definition bounded_ascii :: "ustr \<Rightarrow> string \<Rightarrow> nat \<Rightarrow> horizon_error option" where
  "bounded_ascii value name maximum = first_error
     [raise_if (\<exists>c \<in> set value. 128 \<le> c)
        (HorizonContractError INVALID_SPEC (lit name @ lit '' must be ASCII'')),
      raise_if (value = [] \<or> maximum < length value \<or> 0 \<in> set value)
        (HorizonContractError INVALID_SPEC
           (lit name @ lit '' is empty or exceeds '' @ lit (nat_dec maximum) @ lit '' bytes''))]"

definition timestamp_in_range :: "int \<Rightarrow> horizon_error_code \<Rightarrow> string \<Rightarrow> horizon_error option" where
  "timestamp_in_range value code name = raise_if (\<not> (0 < value \<and> value \<le> MAX_INT64))
     (HorizonContractError code (lit name @ lit '' is outside positive int64 nanoseconds''))"

text \<open>\<open>_LABEL_PATTERN\<close>, matched in full.\<close>

definition label_pattern :: "ustr \<Rightarrow> bool" where
  "label_pattern label \<longleftrightarrow>
     label \<noteq> [] \<and> (\<forall>c \<in> set label. 97 \<le> c \<and> c \<le> 122 \<or> 48 \<le> c \<and> c \<le> 57)"

section \<open>Horizon specifications\<close>

record horizon_spec =
  hs_label :: ustr
  hs_unit :: forecast_horizon_unit
  hs_value :: int
  hs_halt_policy :: horizon_halt_policy
  hs_session_endpoint :: horizon_session_endpoint
  hs_calendar_version :: "identifier128 option"
  hs_schema_version :: ustr

definition horizon_spec_post_init :: "horizon_spec \<Rightarrow> horizon_error option" where
  "horizon_spec_post_init spec =
     (let invalid = (\<lambda>detail. HorizonContractError INVALID_SPEC (lit detail));
          maximum_value = (if hs_unit spec = ELAPSED_NANOSECONDS then MAX_INT64 else MAX_HORIZON_VALUE);
          expected_endpoint = (if hs_unit spec = TRADING_MINUTES then ENDPOINT_NOT_APPLICABLE
                               else REGULAR_SESSION_CLOSE)
      in first_error
       [bounded_ascii (hs_label spec) ''horizon label'' MAX_LABEL_BYTES,
        raise_if (\<not> label_pattern (hs_label spec))
          (invalid ''horizon label must be lowercase alphanumeric text''),
        raise_if (hs_schema_version spec \<noteq> HORIZON_SCHEMA_VERSION)
          (invalid ''unsupported horizon schema version''),
        raise_if (\<not> (0 < hs_value spec \<and> hs_value spec \<le> maximum_value))
          (invalid ''horizon value is outside the supported bound''),
        (if hs_unit spec = ELAPSED_NANOSECONDS
         then raise_if (hs_halt_policy spec \<noteq> HALT_NOT_APPLICABLE \<or>
                hs_session_endpoint spec \<noteq> ENDPOINT_NOT_APPLICABLE \<or>
                hs_calendar_version spec \<noteq> None)
              (invalid ''legacy elapsed horizon cannot carry calendar semantics'')
         else first_error
           [raise_if (hs_calendar_version spec = None)
              (invalid ''trading horizon requires a calendar version''),
            raise_if (hs_halt_policy spec \<notin> {REJECT, PAUSE, COUNT_SCHEDULED})
              (invalid ''trading horizon requires an explicit halt policy''),
            raise_if (hs_session_endpoint spec \<noteq> expected_endpoint)
              (invalid ''session endpoint does not agree with the horizon unit'')])])"

definition trading_minutes ::
    "ustr \<Rightarrow> int \<Rightarrow> identifier128 \<Rightarrow> horizon_halt_policy \<Rightarrow> horizon_error + horizon_spec" where
  "trading_minutes label value version policy = construct horizon_spec_post_init
     \<lparr>hs_label = label, hs_unit = TRADING_MINUTES, hs_value = value, hs_halt_policy = policy,
      hs_session_endpoint = ENDPOINT_NOT_APPLICABLE, hs_calendar_version = Some version,
      hs_schema_version = HORIZON_SCHEMA_VERSION\<rparr>"

definition trading_sessions ::
    "ustr \<Rightarrow> int \<Rightarrow> identifier128 \<Rightarrow> horizon_halt_policy \<Rightarrow> horizon_error + horizon_spec" where
  "trading_sessions label value version policy = construct horizon_spec_post_init
     \<lparr>hs_label = label, hs_unit = TRADING_SESSIONS, hs_value = value, hs_halt_policy = policy,
      hs_session_endpoint = REGULAR_SESSION_CLOSE, hs_calendar_version = Some version,
      hs_schema_version = HORIZON_SCHEMA_VERSION\<rparr>"

definition REQUIRED_HORIZON_LABELS :: "ustr list" where
  "REQUIRED_HORIZON_LABELS = map lit [''5m'', ''10m'', ''15m'', ''30m'', ''60m'', ''2h'', ''5h'',
     ''1d'', ''1w'', ''2w'', ''1mo'', ''2mo'']"

definition REQUIRED_TRADING_MINUTES :: "int list" where
  "REQUIRED_TRADING_MINUTES = [5, 10, 15, 30, 60, 120, 300]"

definition REQUIRED_TRADING_SESSIONS :: "int list" where
  "REQUIRED_TRADING_SESSIONS = [1, 5, 10, 21, 42]"

definition required_horizon_specs ::
    "identifier128 \<Rightarrow> horizon_halt_policy \<Rightarrow> horizon_error + horizon_spec list" where
  "required_horizon_specs version policy =
     bind_result (map_list_result (\<lambda>(label, value). trading_minutes label value version policy)
         (zip (take (length REQUIRED_TRADING_MINUTES) REQUIRED_HORIZON_LABELS) REQUIRED_TRADING_MINUTES))
       (\<lambda>minute_specs. map_result (\<lambda>session_specs. minute_specs @ session_specs)
         (map_list_result (\<lambda>(label, value). trading_sessions label value version policy)
           (zip (drop (length REQUIRED_TRADING_MINUTES) REQUIRED_HORIZON_LABELS) REQUIRED_TRADING_SESSIONS)))"

section \<open>Halts, sessions and calendars\<close>

record halt_interval =
  halt_start :: int
  halt_end :: int

definition halt_interval_post_init :: "halt_interval \<Rightarrow> horizon_error option" where
  "halt_interval_post_init h = first_error
     [timestamp_in_range (halt_start h) TIMESTAMP_OVERFLOW ''halt start'',
      timestamp_in_range (halt_end h) TIMESTAMP_OVERFLOW ''halt end'',
      raise_if (halt_end h \<le> halt_start h)
        (HorizonContractError INVALID_HALT (lit ''halt interval is empty or reversed''))]"

record trading_session =
  session_id :: ustr
  session_open :: int
  session_close :: int
  halt_intervals :: "halt_interval list"

fun check_halts :: "int \<Rightarrow> int \<Rightarrow> int \<Rightarrow> halt_interval list \<Rightarrow> horizon_error option" where
  "check_halts opening closing previous_end [] = None"
| "check_halts opening closing previous_end (h # hs) =
     (if halt_start h < opening \<or> closing < halt_end h \<or> halt_start h < previous_end
      then Some (HorizonContractError INVALID_HALT
             (lit ''halt is outside the session or overlaps a prior halt''))
      else check_halts opening closing (halt_end h) hs)"

definition trading_session_post_init :: "trading_session \<Rightarrow> horizon_error option" where
  "trading_session_post_init s =
     (let duration = session_close s - session_open s
      in first_error
       [bounded_ascii (session_id s) ''session_id'' MAX_SESSION_ID_BYTES,
        timestamp_in_range (session_open s) TIMESTAMP_OVERFLOW ''session open'',
        timestamp_in_range (session_close s) TIMESTAMP_OVERFLOW ''session close'',
        raise_if (duration \<le> 0 \<or> duration mod MINUTE_NS \<noteq> 0)
          (HorizonContractError INVALID_SESSION
             (lit ''session must contain a positive whole number of minutes'')),
        check_halts (session_open s) (session_close s) (session_open s) (halt_intervals s)])"

record exchange_calendar =
  calendar_id :: ustr
  calendar_version :: identifier128
  sessions :: "trading_session list"

fun check_sessions :: "int \<Rightarrow> ustr set \<Rightarrow> trading_session list \<Rightarrow> horizon_error option" where
  "check_sessions previous_close session_ids [] = None"
| "check_sessions previous_close session_ids (s # ss) =
     (if session_id s \<in> session_ids \<or> session_open s \<le> previous_close
      then Some (HorizonContractError INVALID_CALENDAR
             (lit ''calendar sessions overlap, are unordered, or repeat identity''))
      else check_sessions (session_close s) (insert (session_id s) session_ids) ss)"

definition exchange_calendar_post_init :: "exchange_calendar \<Rightarrow> horizon_error option" where
  "exchange_calendar_post_init calendar = first_error
     [bounded_ascii (calendar_id calendar) ''calendar_id'' MAX_CALENDAR_ID_BYTES,
      raise_if (\<not> (0 < length (sessions calendar) \<and> length (sessions calendar) \<le> MAX_CALENDAR_SESSIONS))
        (HorizonContractError INVALID_CALENDAR
           (lit ''calendar session count is outside the supported bound'')),
      check_sessions 0 {} (sessions calendar)]"

text \<open>A calendar object exists only when it and all its parts were accepted.\<close>

definition calendar_ok :: "exchange_calendar \<Rightarrow> bool" where
  "calendar_ok calendar \<longleftrightarrow>
     exchange_calendar_post_init calendar = None \<and> identifier128_ok (calendar_version calendar) \<and>
     (\<forall>s \<in> set (sessions calendar). trading_session_post_init s = None \<and>
        (\<forall>h \<in> set (halt_intervals s). halt_interval_post_init h = None))"

section \<open>Resolving a horizon\<close>

record horizon_target =
  ht_spec :: horizon_spec
  ht_as_of :: int
  ht_target :: int
  ht_elapsed_ns :: int

definition horizon_target_post_init :: "horizon_target \<Rightarrow> horizon_error option" where
  "horizon_target_post_init t = first_error
     [timestamp_in_range (ht_as_of t) TIMESTAMP_OVERFLOW ''as-of timestamp'',
      timestamp_in_range (ht_target t) TIMESTAMP_OVERFLOW ''target timestamp'',
      raise_if (ht_target t \<le> ht_as_of t \<or> ht_elapsed_ns t \<noteq> ht_target t - ht_as_of t)
        (HorizonContractError INVALID_SPEC (lit ''target timestamp and elapsed interval disagree''))]"

definition overlaps_minute :: "halt_interval \<Rightarrow> int \<Rightarrow> bool" where
  "overlaps_minute h endpoint \<longleftrightarrow> halt_start h < endpoint \<and> endpoint - MINUTE_NS < halt_end h"

definition halted_minute :: "trading_session \<Rightarrow> int \<Rightarrow> bool" where
  "halted_minute s endpoint \<longleftrightarrow> (\<exists>h \<in> set (halt_intervals s). overlaps_minute h endpoint)"

definition as_of_error :: horizon_error where
  "as_of_error = HorizonContractError INVALID_AS_OF_TIME
     (lit ''as-of time is not an eligible regular-session minute endpoint'')"

fun find_session :: "trading_session list \<Rightarrow> nat \<Rightarrow> int \<Rightarrow> horizon_error + nat" where
  "find_session [] index as_of = Inl as_of_error"
| "find_session (s # ss) index as_of =
     (if session_open s < as_of \<and> as_of \<le> session_close s
      then (if (as_of - session_open s) mod MINUTE_NS \<noteq> 0 then Inl as_of_error else Inr index)
      else find_session ss (Suc index) as_of)"

definition as_of_session_index :: "exchange_calendar \<Rightarrow> int \<Rightarrow> horizon_error + nat" where
  "as_of_session_index calendar as_of =
     (case timestamp_in_range as_of TIMESTAMP_OVERFLOW ''as-of timestamp'' of
        Some e \<Rightarrow> Inl e
      | None \<Rightarrow> find_session (sessions calendar) 0 as_of)"

text \<open>
  The \<open>while\<close> loop over the minutes of one session: an exception, the endpoint returned, or the number of
  minutes still to count when the session is exhausted.
\<close>

function minute_loop ::
    "horizon_spec \<Rightarrow> trading_session \<Rightarrow> int \<Rightarrow> int \<Rightarrow> horizon_error + (int + int)" where
  "minute_loop spec s endpoint remaining =
     (if endpoint \<le> session_close s then
        (if halted_minute s endpoint \<and> hs_halt_policy spec = REJECT
         then Inl (HorizonContractError HALT_ENCOUNTERED
                (lit ''halt intersects the requested trading-minute horizon''))
         else if \<not> halted_minute s endpoint \<or> hs_halt_policy spec = COUNT_SCHEDULED
         then (if remaining - 1 = 0 then Inr (Inl endpoint)
               else minute_loop spec s (endpoint + MINUTE_NS) (remaining - 1))
         else minute_loop spec s (endpoint + MINUTE_NS) remaining)
      else Inr (Inr remaining))"
  by pat_completeness auto
termination
  by (relation "measure (\<lambda>(spec, s, endpoint, remaining). nat (session_close s + 1 - endpoint))")
    (auto simp: MINUTE_NS_def)

declare minute_loop.simps [simp del]

fun minutes_from ::
    "horizon_spec \<Rightarrow> int option \<Rightarrow> trading_session list \<Rightarrow> int \<Rightarrow> horizon_error + int" where
  "minutes_from spec as_of [] remaining =
     Inl (HorizonContractError INSUFFICIENT_CALENDAR
       (lit ''calendar does not cover the requested trading-minute horizon''))"
| "minutes_from spec as_of (s # ss) remaining =
     (let endpoint = (case as_of of None \<Rightarrow> session_open s + MINUTE_NS | Some t \<Rightarrow> t + MINUTE_NS)
      in case minute_loop spec s endpoint remaining of
           Inl e \<Rightarrow> Inl e
         | Inr (Inl target) \<Rightarrow> Inr target
         | Inr (Inr remaining') \<Rightarrow> minutes_from spec None ss remaining')"

definition resolve_trading_minutes ::
    "horizon_spec \<Rightarrow> int \<Rightarrow> exchange_calendar \<Rightarrow> nat \<Rightarrow> horizon_error + int" where
  "resolve_trading_minutes spec as_of calendar session_index =
     minutes_from spec (Some as_of) (drop session_index (sessions calendar)) (hs_value spec)"

fun sessions_from :: "horizon_spec \<Rightarrow> trading_session list \<Rightarrow> int \<Rightarrow> horizon_error + int" where
  "sessions_from spec [] remaining =
     Inl (HorizonContractError INSUFFICIENT_CALENDAR
       (lit ''calendar does not cover the requested trading-session horizon''))"
| "sessions_from spec (s # ss) remaining =
     (if halt_intervals s \<noteq> [] \<and> hs_halt_policy spec = REJECT
      then Inl (HorizonContractError HALT_ENCOUNTERED
             (lit ''halt intersects a candidate future session''))
      else if halted_minute s (session_close s) \<and> hs_halt_policy spec = PAUSE
      then sessions_from spec ss remaining
      else if remaining - 1 = 0 then Inr (session_close s)
      else sessions_from spec ss (remaining - 1))"

definition resolve_trading_sessions ::
    "horizon_spec \<Rightarrow> exchange_calendar \<Rightarrow> nat \<Rightarrow> horizon_error + int" where
  "resolve_trading_sessions spec calendar session_index =
     sessions_from spec (drop (session_index + 1) (sessions calendar)) (hs_value spec)"

definition resolve_horizon ::
    "horizon_spec \<Rightarrow> int \<Rightarrow> exchange_calendar \<Rightarrow> horizon_error + horizon_target" where
  "resolve_horizon spec as_of calendar =
     (if hs_unit spec = ELAPSED_NANOSECONDS then
        (if MAX_INT64 < as_of + hs_value spec
         then Inl (HorizonContractError TIMESTAMP_OVERFLOW (lit ''elapsed horizon target overflows int64''))
         else construct horizon_target_post_init \<lparr>ht_spec = spec, ht_as_of = as_of,
                ht_target = as_of + hs_value spec, ht_elapsed_ns = hs_value spec\<rparr>)
      else if hs_calendar_version spec \<noteq> Some (calendar_version calendar)
      then Inl (HorizonContractError CALENDAR_VERSION_MISMATCH
             (lit ''horizon and exchange calendar versions differ''))
      else bind_result (as_of_session_index calendar as_of) (\<lambda>session_index.
        if hs_halt_policy spec \<noteq> COUNT_SCHEDULED \<and>
           halted_minute (sessions calendar ! session_index) as_of
        then Inl (HorizonContractError INVALID_AS_OF_TIME
               (lit ''as-of minute is halted under the selected policy''))
        else bind_result
          (if hs_unit spec = TRADING_MINUTES
           then resolve_trading_minutes spec as_of calendar session_index
           else resolve_trading_sessions spec calendar session_index)
          (\<lambda>target. construct horizon_target_post_init \<lparr>ht_spec = spec, ht_as_of = as_of,
             ht_target = target, ht_elapsed_ns = target - as_of\<rparr>)))"

section \<open>The reference definition: the \<open>n\<close>-th counted candidate\<close>

text \<open>A candidate is forbidden, or counted, or neither, and carries the time it stands for.\<close>

datatype candidate = Candidate (forbidden: bool) (counted: bool) (time_of: int)

fun pick :: "'e \<Rightarrow> 'e \<Rightarrow> candidate list \<Rightarrow> int \<Rightarrow> 'e + int" where
  "pick halt short [] n = Inl short"
| "pick halt short (c # cs) n =
     (if forbidden c then Inl halt
      else if counted c then (if n - 1 = 0 then Inr (time_of c) else pick halt short cs (n - 1))
      else pick halt short cs n)"

abbreviation in_time_order :: "candidate list \<Rightarrow> bool" where
  "in_time_order cs \<equiv> sorted_wrt (<) (map time_of cs)"

definition counted_until :: "int \<Rightarrow> candidate list \<Rightarrow> nat" where
  "counted_until t cs = length (filter (\<lambda>c. counted c \<and> time_of c \<le> t) cs)"

lemma counted_until_late:
  "\<forall>c \<in> set cs. t < time_of c \<Longrightarrow> counted_until t cs = 0"
  by (induction cs) (auto simp: counted_until_def)

lemma pick_Inr:
  assumes "in_time_order cs" and "0 < n"
  shows "pick halt short cs n = Inr t \<longleftrightarrow>
     (\<exists>c \<in> set cs. time_of c = t \<and> counted c) \<and>
     (\<forall>c \<in> set cs. time_of c \<le> t \<longrightarrow> \<not> forbidden c) \<and> int (counted_until t cs) = n"
  using assms
proof (induction cs arbitrary: n)
  case (Cons c cs)
  have later: "\<forall>d \<in> set cs. time_of c < time_of d" using Cons.prems(1) by simp
  have ord: "in_time_order cs" using Cons.prems(1) by simp
  have here: "counted_until t (c # cs) =
      (if counted c \<and> time_of c \<le> t then 1 else 0) + counted_until t cs"
    by (simp add: counted_until_def)
  have none: "counted_until t cs = 0" if "t \<le> time_of c"
    using later that by (intro counted_until_late) auto
  have some: "0 < counted_until t cs" if "d \<in> set cs" and "time_of d = t" and "counted d" for d
    using that by (auto simp: counted_until_def filter_empty_conv)
  consider "forbidden c" | "\<not> forbidden c" "counted c" "n = 1" |
    "\<not> forbidden c" "counted c" "n \<noteq> 1" | "\<not> forbidden c" "\<not> counted c" by blast
  then show ?case
  proof cases
    case 1
    then show ?thesis using later by (auto simp: less_imp_le)
  next
    case 2
    then show ?thesis using later here none some by (fastforce simp: less_imp_le)
  next
    case 3
    then have "pick halt short (c # cs) n = Inr t \<longleftrightarrow> pick halt short cs (n - 1) = Inr t" by simp
    also have "\<dots> \<longleftrightarrow> (\<exists>d \<in> set cs. time_of d = t \<and> counted d) \<and>
        (\<forall>d \<in> set cs. time_of d \<le> t \<longrightarrow> \<not> forbidden d) \<and> int (counted_until t cs) = n - 1"
      using Cons.prems(2) 3 by (intro Cons.IH [OF ord]) simp
    also have "\<dots> \<longleftrightarrow> (\<exists>d \<in> set (c # cs). time_of d = t \<and> counted d) \<and>
        (\<forall>d \<in> set (c # cs). time_of d \<le> t \<longrightarrow> \<not> forbidden d) \<and> int (counted_until t (c # cs)) = n"
      using later here none some 3 by (auto simp: less_imp_le)
    finally show ?thesis .
  next
    case 4
    then show ?thesis using later here Cons.IH [OF ord Cons.prems(2)] none by auto
  qed
qed simp

lemma pick_short:
  assumes "0 < n" and "halt \<noteq> short"
  shows "pick halt short cs n = Inl short \<longleftrightarrow>
     (\<forall>c \<in> set cs. \<not> forbidden c) \<and> int (length (filter counted cs)) < n"
  using assms by (induction cs arbitrary: n) auto

lemma pick_cases: "pick halt short cs n \<in> {Inl halt, Inl short} \<union> range Inr"
  by (induction cs arbitrary: n) auto

section \<open>The loops refine the reference definition\<close>

definition minute_grid :: "trading_session \<Rightarrow> int \<Rightarrow> int list" where
  "minute_grid s e =
     map (\<lambda>k. e + int k * MINUTE_NS) [0..<nat ((session_close s - e) div MINUTE_NS + 1)]"

lemma MINUTE_NS_pos [simp]: "0 < MINUTE_NS"
  by (simp add: MINUTE_NS_def)

lemma minute_grid_past: "session_close s < e \<Longrightarrow> minute_grid s e = []"
  by (simp add: minute_grid_def) (smt (verit) MINUTE_NS_pos div_neg_pos_less0)

lemma minute_grid_step:
  assumes "e \<le> session_close s"
  shows "minute_grid s e = e # minute_grid s (e + MINUTE_NS)"
proof -
  have "(session_close s - e) div MINUTE_NS = (session_close s - (e + MINUTE_NS)) div MINUTE_NS + 1"
    using div_add_self2 [of MINUTE_NS "session_close s - (e + MINUTE_NS)"] by (simp add: MINUTE_NS_def)
  moreover have "0 \<le> (session_close s - e) div MINUTE_NS"
    using assms by (simp add: pos_imp_zdiv_nonneg_iff)
  ultimately have "nat ((session_close s - e) div MINUTE_NS + 1) =
      Suc (nat ((session_close s - (e + MINUTE_NS)) div MINUTE_NS + 1))" by simp
  then show ?thesis
    by (simp add: minute_grid_def upt_conv_Cons del: upt_Suc)
      (simp add: map_Suc_upt [symmetric] algebra_simps del: upt_Suc)
qed

definition minute_candidate :: "horizon_spec \<Rightarrow> trading_session \<times> int \<Rightarrow> candidate" where
  "minute_candidate spec = (\<lambda>(s, e). Candidate (halted_minute s e \<and> hs_halt_policy spec = REJECT)
     (\<not> halted_minute s e \<or> hs_halt_policy spec = COUNT_SCHEDULED) e)"

fun minute_schedule :: "int option \<Rightarrow> trading_session list \<Rightarrow> (trading_session \<times> int) list" where
  "minute_schedule as_of [] = []"
| "minute_schedule as_of (s # ss) =
     map (Pair s) (minute_grid s (case as_of of None \<Rightarrow> session_open s + MINUTE_NS | Some t \<Rightarrow> t + MINUTE_NS)) @
     minute_schedule None ss"

definition minute_halt_error :: horizon_error where
  "minute_halt_error = HorizonContractError HALT_ENCOUNTERED
     (lit ''halt intersects the requested trading-minute horizon'')"

definition minute_short_error :: horizon_error where
  "minute_short_error = HorizonContractError INSUFFICIENT_CALENDAR
     (lit ''calendar does not cover the requested trading-minute horizon'')"

lemma minute_loop_refines_pick:
  "pick minute_halt_error short (map (minute_candidate spec) (map (Pair s) (minute_grid s e)) @ cs) n =
     (case minute_loop spec s e n of
        Inl x \<Rightarrow> Inl x
      | Inr (Inl t) \<Rightarrow> Inr t
      | Inr (Inr r) \<Rightarrow> pick minute_halt_error short cs r)"
proof (induction spec s e n rule: minute_loop.induct)
  case (1 spec s e n)
  show ?case
  proof (cases "e \<le> session_close s")
    case True
    then show ?thesis
      using 1 by (subst minute_loop.simps)
        (auto simp: minute_grid_step minute_candidate_def minute_halt_error_def)
  next
    case False
    then show ?thesis by (subst minute_loop.simps) (simp add: minute_grid_past)
  qed
qed

lemma minutes_from_refines_pick:
  "minutes_from spec as_of ss n =
     pick minute_halt_error minute_short_error (map (minute_candidate spec) (minute_schedule as_of ss)) n"
proof (induction ss arbitrary: as_of n)
  case (Cons s ss)
  have "minutes_from spec as_of (s # ss) n =
      (case minute_loop spec s (case as_of of None \<Rightarrow> session_open s + MINUTE_NS | Some t \<Rightarrow> t + MINUTE_NS) n of
        Inl x \<Rightarrow> Inl x
      | Inr (Inl t) \<Rightarrow> Inr t
      | Inr (Inr r) \<Rightarrow> pick minute_halt_error minute_short_error
          (map (minute_candidate spec) (minute_schedule None ss)) r)"
    by (simp add: Cons.IH Let_def cong: sum.case_cong)
  then show ?case
    by (simp add: minute_loop_refines_pick [symmetric] del: map_map)
qed (simp add: minute_short_error_def)

definition session_candidate :: "horizon_spec \<Rightarrow> trading_session \<Rightarrow> candidate" where
  "session_candidate spec s = Candidate (halt_intervals s \<noteq> [] \<and> hs_halt_policy spec = REJECT)
     (\<not> (halted_minute s (session_close s) \<and> hs_halt_policy spec = PAUSE)) (session_close s)"

definition session_halt_error :: horizon_error where
  "session_halt_error = HorizonContractError HALT_ENCOUNTERED
     (lit ''halt intersects a candidate future session'')"

definition session_short_error :: horizon_error where
  "session_short_error = HorizonContractError INSUFFICIENT_CALENDAR
     (lit ''calendar does not cover the requested trading-session horizon'')"

lemma sessions_from_refines_pick:
  "sessions_from spec ss n =
     pick session_halt_error session_short_error (map (session_candidate spec) ss) n"
  by (induction spec ss n rule: sessions_from.induct)
    (auto simp: session_candidate_def session_halt_error_def session_short_error_def)

section \<open>Calendars in time order\<close>

definition on_minute_grid :: "trading_session \<Rightarrow> int \<Rightarrow> bool" where
  "on_minute_grid s e \<longleftrightarrow>
     session_open s < e \<and> e \<le> session_close s \<and> (e - session_open s) mod MINUTE_NS = 0"

lemma check_sessions_None:
  assumes "check_sessions previous ids ss = None"
    and "\<forall>s \<in> set ss. session_open s < session_close s"
  shows "sorted_wrt (\<lambda>a b. session_close a < session_open b) ss \<and> (\<forall>s \<in> set ss. previous < session_open s) \<and>
     distinct (map session_id ss) \<and> session_id ` set ss \<inter> ids = {}"
  using assms
proof (induction ss arbitrary: previous ids)
  case (Cons s ss)
  then have "check_sessions (session_close s) (insert (session_id s) ids) ss = None"
    and new: "session_id s \<notin> ids" "previous < session_open s" "session_open s < session_close s"
    by (auto split: if_splits)
  with Cons.IH [of "session_close s" "insert (session_id s) ids"] Cons.prems(2)
  have "sorted_wrt (\<lambda>a b. session_close a < session_open b) ss"
    and "\<forall>x \<in> set ss. session_close s < session_open x"
    and "distinct (map session_id ss)" and "session_id ` set ss \<inter> insert (session_id s) ids = {}"
    by auto
  with new show ?case by force
qed simp

lemma calendar_ok_session:
  assumes "calendar_ok cal" and "s \<in> set (sessions cal)"
  shows "0 < session_open s" "session_open s < session_close s" "session_close s \<le> MAX_INT64"
    "(session_close s - session_open s) mod MINUTE_NS = 0"
  using assms by (auto simp: calendar_ok_def trading_session_post_init_def Let_def timestamp_in_range_def)

lemma calendar_ok_order:
  assumes "calendar_ok cal"
  shows "sorted_wrt (\<lambda>a b. session_close a < session_open b) (sessions cal)"
    and "distinct (map session_id (sessions cal))"
  using check_sessions_None [of 0 "{}" "sessions cal"] calendar_ok_session [OF assms] assms
  by (auto simp: calendar_ok_def exchange_calendar_post_init_def)

lemma find_session_Inr:
  assumes "sorted_wrt (\<lambda>a b. session_close a < session_open b) ss"
  shows "find_session ss k t = Inr i \<longleftrightarrow>
     (\<exists>ys s zs. ss = ys @ s # zs \<and> i = k + length ys \<and> on_minute_grid s t)"
  using assms
proof (induction ss arbitrary: k)
  case (Cons x ss)
  have split: "(\<exists>ys s zs. x # ss = ys @ s # zs \<and> i = k + length ys \<and> on_minute_grid s t) \<longleftrightarrow>
      i = k \<and> on_minute_grid x t \<or>
      (\<exists>ys s zs. ss = ys @ s # zs \<and> i = Suc k + length ys \<and> on_minute_grid s t)"
  proof
    assume "\<exists>ys s zs. x # ss = ys @ s # zs \<and> i = k + length ys \<and> on_minute_grid s t"
    then show "i = k \<and> on_minute_grid x t \<or>
        (\<exists>ys s zs. ss = ys @ s # zs \<and> i = Suc k + length ys \<and> on_minute_grid s t)"
      by (auto simp: Cons_eq_append_conv)
  next
    assume "i = k \<and> on_minute_grid x t \<or>
        (\<exists>ys s zs. ss = ys @ s # zs \<and> i = Suc k + length ys \<and> on_minute_grid s t)"
    then show "\<exists>ys s zs. x # ss = ys @ s # zs \<and> i = k + length ys \<and> on_minute_grid s t"
      by (elim disjE exE conjE) (force, rule exI [of _ "x # _"], force)
  qed
  have "\<not> (session_open x < t \<and> t \<le> session_close x)"
    if "ss = ys @ s # zs" and "on_minute_grid s t" for ys s zs
    using that Cons.prems by (auto simp: on_minute_grid_def)
  then show ?case
    using Cons.IH [of "Suc k"] Cons.prems unfolding split
    by (auto simp: on_minute_grid_def)
qed simp

lemma le_div_minute: "k \<le> b div MINUTE_NS \<longleftrightarrow> k * MINUTE_NS \<le> b"
proof
  assume "k \<le> b div MINUTE_NS"
  then have "k * MINUTE_NS \<le> b div MINUTE_NS * MINUTE_NS" by (simp add: mult_right_mono)
  also have "\<dots> \<le> b" using div_mult_mod_eq [of b MINUTE_NS] pos_mod_sign [OF MINUTE_NS_pos, of b] by linarith
  finally show "k * MINUTE_NS \<le> b" .
next
  assume "k * MINUTE_NS \<le> b"
  then have "k * MINUTE_NS div MINUTE_NS \<le> b div MINUTE_NS" using MINUTE_NS_pos by (rule zdiv_mono1)
  moreover have "k * MINUTE_NS div MINUTE_NS = k" by (simp add: MINUTE_NS_def)
  ultimately show "k \<le> b div MINUTE_NS" by simp
qed

lemma set_minute_grid:
  "x \<in> set (minute_grid s e) \<longleftrightarrow> e \<le> x \<and> x \<le> session_close s \<and> (x - e) mod MINUTE_NS = 0"
proof -
  have "x \<in> set (minute_grid s e) \<longleftrightarrow>
      (\<exists>k. x = e + int k * MINUTE_NS \<and> int k \<le> (session_close s - e) div MINUTE_NS)"
    by (auto simp: minute_grid_def image_iff) 
  also have "\<dots> \<longleftrightarrow> (\<exists>k. x = e + int k * MINUTE_NS \<and> x \<le> session_close s)"
    unfolding le_div_minute by (auto simp: algebra_simps)
  also have "\<dots> \<longleftrightarrow> e \<le> x \<and> x \<le> session_close s \<and> (x - e) mod MINUTE_NS = 0"
  proof (intro iffI conjI; (elim exE conjE)?)
    assume a: "e \<le> x" "x \<le> session_close s" "(x - e) mod MINUTE_NS = 0"
    then have "x = e + int (nat ((x - e) div MINUTE_NS)) * MINUTE_NS"
      by (auto simp: pos_imp_zdiv_nonneg_iff)
    with a(2) show "\<exists>k. x = e + int k * MINUTE_NS \<and> x \<le> session_close s" by blast
  qed (auto simp: MINUTE_NS_def)
  finally show ?thesis .
qed

lemma sorted_minute_grid: "sorted_wrt (<) (minute_grid s e)"
  by (auto simp: minute_grid_def sorted_wrt_map intro!: sorted_wrt_mono_rel [OF _ sorted_wrt_upt])


section \<open>Eligible minutes and sessions\<close>

text \<open>
  A minute endpoint of the calendar is eligible under a policy when its minute is not halted, or halts
  are counted as scheduled; a session is eligible when its closing minute is not halted, or the policy
  does not pause.
\<close>

definition eligible_minute :: "horizon_spec \<Rightarrow> exchange_calendar \<Rightarrow> int \<Rightarrow> bool" where
  "eligible_minute spec cal e \<longleftrightarrow> (\<exists>s \<in> set (sessions cal). on_minute_grid s e \<and>
     (hs_halt_policy spec = COUNT_SCHEDULED \<or> \<not> halted_minute s e))"

definition halted_at :: "exchange_calendar \<Rightarrow> int \<Rightarrow> bool" where
  "halted_at cal e \<longleftrightarrow> (\<exists>s \<in> set (sessions cal). on_minute_grid s e \<and> halted_minute s e)"

definition eligible_session :: "horizon_spec \<Rightarrow> trading_session \<Rightarrow> bool" where
  "eligible_session spec s \<longleftrightarrow>
     hs_halt_policy spec = PAUSE \<longrightarrow> \<not> halted_minute s (session_close s)"

lemma as_of_session_Inr:
  assumes "calendar_ok cal"
  shows "as_of_session_index cal t = Inr i \<longleftrightarrow>
     (\<exists>ys s zs. sessions cal = ys @ s # zs \<and> i = length ys \<and> on_minute_grid s t)"
proof -
  have "0 < t \<and> t \<le> MAX_INT64" if "s \<in> set (sessions cal)" and "on_minute_grid s t" for s
    using calendar_ok_session [OF assms that(1)] that(2) by (auto simp: on_minute_grid_def)
  then have range: "0 < t \<and> t \<le> MAX_INT64"
    if "sessions cal = ys @ s # zs" and "on_minute_grid s t" for ys s zs
    using that by (metis in_set_conv_decomp)
  show ?thesis
  proof (cases "0 < t \<and> t \<le> MAX_INT64")
    case True
    then show ?thesis
      using find_session_Inr [OF calendar_ok_order(1) [OF assms], of 0 t i]
      by (simp add: as_of_session_index_def timestamp_in_range_def raise_if_def)
  next
    case False
    then have "as_of_session_index cal t \<noteq> Inr i"
      by (auto simp: as_of_session_index_def timestamp_in_range_def raise_if_def)
    with False range show ?thesis by blast
  qed
qed

lemma minute_later: "t + MINUTE_NS \<le> x \<Longrightarrow> t < x"
  by (simp add: MINUTE_NS_def)

lemma minute_schedule_None:
  "set (minute_schedule None ss) = {(s, e). s \<in> set ss \<and> on_minute_grid s e}"
proof (induction ss)
  case (Cons s ss)
  have "x \<in> set (minute_grid s (session_open s + MINUTE_NS)) \<longleftrightarrow> on_minute_grid s x" for x
  proof -
    have "(x - (session_open s + MINUTE_NS)) mod MINUTE_NS = (x - session_open s) mod MINUTE_NS"
      by (metis diff_diff_add minus_mod_self2)
    moreover have "session_open s + MINUTE_NS \<le> x"
      if "session_open s < x" and "(x - session_open s) mod MINUTE_NS = 0"
      using that zdvd_imp_le [of MINUTE_NS "x - session_open s"] by (simp add: dvd_eq_mod_eq_0)
    ultimately show ?thesis
      using minute_later [of "session_open s" x] by (auto simp: set_minute_grid on_minute_grid_def)
  qed
  with Cons show ?case by auto
qed simp

lemma minute_grid_after:
  assumes "on_minute_grid s t"
  shows "x \<in> set (minute_grid s (t + MINUTE_NS)) \<longleftrightarrow> on_minute_grid s x \<and> t < x"
proof -
  have grid: "(x - t) mod MINUTE_NS = 0 \<longleftrightarrow> (x - session_open s) mod MINUTE_NS = 0"
  proof -
    have "x - session_open s = (x - t) + (t - session_open s)" by simp
    moreover have "MINUTE_NS dvd t - session_open s" using assms by (simp add: on_minute_grid_def dvd_eq_mod_eq_0)
    ultimately show ?thesis by (metis dvd_add_left_iff dvd_eq_mod_eq_0)
  qed
  have "(x - (t + MINUTE_NS)) mod MINUTE_NS = (x - t) mod MINUTE_NS"
    by (metis diff_diff_add minus_mod_self2)
  moreover have "t + MINUTE_NS \<le> x" if "t < x" and "(x - t) mod MINUTE_NS = 0"
    using that zdvd_imp_le [of MINUTE_NS "x - t"] by (simp add: dvd_eq_mod_eq_0)
  ultimately show ?thesis
    using assms minute_later [of t x] unfolding set_minute_grid on_minute_grid_def grid [symmetric]
    by auto
qed

lemma counted_until_card:
  assumes "in_time_order cs"
  shows "counted_until t cs = card {e. \<exists>c \<in> set cs. counted c \<and> time_of c = e \<and> e \<le> t}"
proof -
  have "distinct (map time_of cs)" using assms strict_sorted_iff by blast
  then have "distinct (map time_of (filter (\<lambda>c. counted c \<and> time_of c \<le> t) cs))"
    by (rule distinct_map_filter)
  then have "counted_until t cs = card (set (map time_of (filter (\<lambda>c. counted c \<and> time_of c \<le> t) cs)))"
    by (simp only: counted_until_def distinct_card length_map)
  also have "set (map time_of (filter (\<lambda>c. counted c \<and> time_of c \<le> t) cs)) =
      {e. \<exists>c \<in> set cs. counted c \<and> time_of c = e \<and> e \<le> t}" by auto
  finally show ?thesis .
qed

lemma minute_schedule_None_sorted:
  "sorted_wrt (\<lambda>a b. session_close a < session_open b) ss \<Longrightarrow> sorted_wrt (<) (map snd (minute_schedule None ss))"
proof (induction ss)
  case (Cons s ss)
  have "e < e'" if "e \<in> set (minute_grid s (session_open s + MINUTE_NS))"
    and "(s', e') \<in> set (minute_schedule None ss)" for e s' e'
    using that Cons.prems by (force simp: set_minute_grid minute_schedule_None on_minute_grid_def)
  with Cons show ?case
    by (auto simp: sorted_wrt_append sorted_minute_grid comp_def)
qed simp

text \<open>The candidates after an as-of minute: in time order, and exactly the later grid minutes.\<close>

lemma minute_schedule_after:
  assumes "calendar_ok cal" and "sessions cal = ys @ s # zs" and "on_minute_grid s t"
  shows "sorted_wrt (<) (map snd (minute_schedule (Some t) (s # zs)))"
    and "set (minute_schedule (Some t) (s # zs)) =
      {(s', e). s' \<in> set (sessions cal) \<and> on_minute_grid s' e \<and> t < e}"
proof -
  have sorted: "sorted_wrt (\<lambda>a b. session_close a < session_open b) (ys @ s # zs)"
    using calendar_ok_order(1) [OF assms(1)] assms(2) by simp
  have later: "e < e'" if "e \<in> set (minute_grid s (t + MINUTE_NS))"
    and "(s', e') \<in> set (minute_schedule None zs)" for e s' e'
    using that sorted by (force simp: set_minute_grid minute_schedule_None on_minute_grid_def sorted_wrt_append)
  then show "sorted_wrt (<) (map snd (minute_schedule (Some t) (s # zs)))"
    using minute_schedule_None_sorted [of zs] sorted
    by (auto simp: sorted_wrt_append sorted_minute_grid comp_def)
  have before: "\<not> t < e" if "y \<in> set ys" and "on_minute_grid y e" for y e
    using that sorted assms(3) by (force simp: on_minute_grid_def sorted_wrt_append)
  have after: "t < e" if "z \<in> set zs" and "on_minute_grid z e" for z e
    using that sorted assms(3) by (force simp: on_minute_grid_def sorted_wrt_append)
  have "set (minute_schedule (Some t) (s # zs)) =
      {(s', e). s' = s \<and> on_minute_grid s e \<and> t < e} \<union> {(s', e). s' \<in> set zs \<and> on_minute_grid s' e}"
    by (auto simp: minute_grid_after [OF assms(3)] minute_schedule_None)
  also have "\<dots> = {(s', e). s' \<in> set (sessions cal) \<and> on_minute_grid s' e \<and> t < e}"
    unfolding assms(2) using before after by auto
  finally show "set (minute_schedule (Some t) (s # zs)) =
      {(s', e). s' \<in> set (sessions cal) \<and> on_minute_grid s' e \<and> t < e}" .
qed

lemma time_of_minute [simp]: "time_of (minute_candidate spec p) = snd p"
  by (simp add: minute_candidate_def split: prod.split)

lemma counted_minute:
  "counted (minute_candidate spec (s, e)) \<longleftrightarrow> \<not> halted_minute s e \<or> hs_halt_policy spec = COUNT_SCHEDULED"
  by (simp add: minute_candidate_def)

lemma forbidden_minute:
  "forbidden (minute_candidate spec (s, e)) \<longleftrightarrow> halted_minute s e \<and> hs_halt_policy spec = REJECT"
  by (simp add: minute_candidate_def)

lemma resolve_trading_minutes_Inr:
  assumes "calendar_ok cal" and "sessions cal = ys @ s # zs" and "on_minute_grid s t"
    and "0 < hs_value spec"
  shows "resolve_trading_minutes spec t cal (length ys) = Inr x \<longleftrightarrow>
     eligible_minute spec cal x \<and> t < x \<and>
     (hs_halt_policy spec = REJECT \<longrightarrow> (\<forall>e. t < e \<and> e \<le> x \<longrightarrow> \<not> halted_at cal e)) \<and>
     int (card {e. eligible_minute spec cal e \<and> t < e \<and> e \<le> x}) = hs_value spec"
proof -
  define cs where "cs = map (minute_candidate spec) (minute_schedule (Some t) (s # zs))"
  note sched = minute_schedule_after [OF assms(1-3)]
  have order: "in_time_order cs" using sched(1) by (simp add: cs_def comp_def)
  have in_cs: "(\<exists>c \<in> set cs. P c) \<longleftrightarrow>
      (\<exists>s' \<in> set (sessions cal). \<exists>e. on_minute_grid s' e \<and> t < e \<and> P (minute_candidate spec (s', e)))" for P
    unfolding cs_def set_map sched(2) by auto
  have "resolve_trading_minutes spec t cal (length ys) = Inr x \<longleftrightarrow>
      pick minute_halt_error minute_short_error cs (hs_value spec) = Inr x"
    by (simp add: resolve_trading_minutes_def minutes_from_refines_pick assms(2) cs_def
        del: minute_schedule.simps)
  also have "\<dots> \<longleftrightarrow> (\<exists>c \<in> set cs. time_of c = x \<and> counted c) \<and>
      \<not> (\<exists>c \<in> set cs. time_of c \<le> x \<and> forbidden c) \<and> int (counted_until x cs) = hs_value spec"
    unfolding pick_Inr [OF order assms(4)] by blast
  also have "(\<exists>c \<in> set cs. time_of c = x \<and> counted c) \<longleftrightarrow> eligible_minute spec cal x \<and> t < x"
    unfolding in_cs by (auto simp: counted_minute eligible_minute_def)
  also have "\<not> (\<exists>c \<in> set cs. time_of c \<le> x \<and> forbidden c) \<longleftrightarrow>
      (hs_halt_policy spec = REJECT \<longrightarrow> (\<forall>e. t < e \<and> e \<le> x \<longrightarrow> \<not> halted_at cal e))"
    unfolding in_cs by (auto simp: forbidden_minute halted_at_def)
  also have "counted_until x cs = card {e. eligible_minute spec cal e \<and> t < e \<and> e \<le> x}"
    unfolding counted_until_card [OF order] in_cs
    by (rule arg_cong [where f = card]) (auto simp: counted_minute eligible_minute_def)
  finally show ?thesis by blast
qed

lemma session_schedule_after:
  assumes "calendar_ok cal" and "sessions cal = ys @ s # zs" and "on_minute_grid s t"
  shows "sorted_wrt (<) (map session_close zs)"
    and "set zs = {s' \<in> set (sessions cal). t < session_open s'}"
proof -
  have sorted: "sorted_wrt (\<lambda>a b. session_close a < session_open b) (ys @ s # zs)"
    using calendar_ok_order(1) [OF assms(1)] assms(2) by simp
  have oc: "session_open x < session_close x" if "x \<in> set (ys @ s # zs)" for x
    using calendar_ok_session(2) [OF assms(1)] that assms(2) by simp
  have "sorted_wrt (\<lambda>a b. session_close a < session_close b) zs"
    by (rule sorted_wrt_mono_rel [of _ "\<lambda>a b. session_close a < session_open b"])
      (use sorted oc in \<open>auto simp: sorted_wrt_append intro: less_trans\<close>)
  then show "sorted_wrt (<) (map session_close zs)" by (simp add: sorted_wrt_map)
  have "\<not> t < session_open y" if "y \<in> set ys" for y
    using that sorted assms(3) oc [of y] by (force simp: on_minute_grid_def sorted_wrt_append)
  moreover have "t < session_open z" if "z \<in> set zs" for z
    using that sorted assms(3) by (force simp: on_minute_grid_def sorted_wrt_append)
  moreover have "\<not> t < session_open s" using assms(3) by (simp add: on_minute_grid_def)
  ultimately show "set zs = {s' \<in> set (sessions cal). t < session_open s'}"
    unfolding assms(2) by auto
qed

lemma resolve_trading_sessions_Inr:
  assumes "calendar_ok cal" and "sessions cal = ys @ s # zs" and "on_minute_grid s t"
    and "0 < hs_value spec"
  shows "resolve_trading_sessions spec cal (length ys) = Inr x \<longleftrightarrow>
     (\<exists>s' \<in> set (sessions cal). t < session_open s' \<and> eligible_session spec s' \<and> session_close s' = x) \<and>
     (hs_halt_policy spec = REJECT \<longrightarrow>
        (\<forall>s' \<in> set (sessions cal). t < session_open s' \<and> session_close s' \<le> x \<longrightarrow> halt_intervals s' = [])) \<and>
     int (card {s' \<in> set (sessions cal). t < session_open s' \<and> eligible_session spec s' \<and> session_close s' \<le> x}) =
       hs_value spec"
proof -
  define cs where "cs = map (session_candidate spec) zs"
  note sched = session_schedule_after [OF assms(1-3)]
  have order: "in_time_order cs" using sched(1) by (simp add: cs_def comp_def session_candidate_def)
  have in_cs: "(\<exists>c \<in> set cs. P c) \<longleftrightarrow>
      (\<exists>s' \<in> set (sessions cal). t < session_open s' \<and> P (session_candidate spec s'))" for P
    unfolding cs_def set_map sched(2) by auto
  have inj: "inj_on session_close (set zs)"
    using sched(1) by (metis distinct_map strict_sorted_iff)
  have "resolve_trading_sessions spec cal (length ys) = Inr x \<longleftrightarrow>
      pick session_halt_error session_short_error cs (hs_value spec) = Inr x"
    by (simp add: resolve_trading_sessions_def sessions_from_refines_pick assms(2) cs_def)
  also have "\<dots> \<longleftrightarrow> (\<exists>c \<in> set cs. time_of c = x \<and> counted c) \<and>
      \<not> (\<exists>c \<in> set cs. time_of c \<le> x \<and> forbidden c) \<and> int (counted_until x cs) = hs_value spec"
    unfolding pick_Inr [OF order assms(4)] by blast
  also have "(\<exists>c \<in> set cs. time_of c = x \<and> counted c) \<longleftrightarrow>
      (\<exists>s' \<in> set (sessions cal). t < session_open s' \<and> eligible_session spec s' \<and> session_close s' = x)"
    unfolding in_cs by (auto simp: session_candidate_def eligible_session_def)
  also have "\<not> (\<exists>c \<in> set cs. time_of c \<le> x \<and> forbidden c) \<longleftrightarrow> (hs_halt_policy spec = REJECT \<longrightarrow>
        (\<forall>s' \<in> set (sessions cal). t < session_open s' \<and> session_close s' \<le> x \<longrightarrow> halt_intervals s' = []))"
    unfolding in_cs by (auto simp: session_candidate_def)
  also have "counted_until x cs = card (session_close `
      {s' \<in> set zs. eligible_session spec s' \<and> session_close s' \<le> x})"
    unfolding counted_until_card [OF order] unfolding cs_def
    by (rule arg_cong [where f = card]) (auto simp: session_candidate_def eligible_session_def)
  also have "\<dots> = card {s' \<in> set zs. eligible_session spec s' \<and> session_close s' \<le> x}"
    by (rule card_image, rule inj_on_subset [OF inj]) auto
  also have "{s' \<in> set zs. eligible_session spec s' \<and> session_close s' \<le> x} =
      {s' \<in> set (sessions cal). t < session_open s' \<and> eligible_session spec s' \<and> session_close s' \<le> x}"
    unfolding sched(2) by auto
  finally show ?thesis .
qed

section \<open>The whole resolution\<close>

lemma horizon_spec_ok_value: "horizon_spec_post_init spec = None \<Longrightarrow> 0 < hs_value spec"
  by (simp add: horizon_spec_post_init_def Let_def)

lemma minute_in_range:
  assumes "calendar_ok cal" and "s \<in> set (sessions cal)" and "on_minute_grid s e"
  shows "0 < e" and "e \<le> MAX_INT64"
  using calendar_ok_session [OF assms(1,2)] assms(3) by (auto simp: on_minute_grid_def)

lemma horizon_target_accepted:
  "0 < t \<Longrightarrow> t < x \<Longrightarrow> x \<le> MAX_INT64 \<Longrightarrow>
     horizon_target_post_init \<lparr>ht_spec = spec, ht_as_of = t, ht_target = x, ht_elapsed_ns = x - t\<rparr> = None"
  by (simp add: horizon_target_post_init_def timestamp_in_range_def)

lemma same_session:
  assumes "calendar_ok cal" and "a \<in> set (sessions cal)" and "b \<in> set (sessions cal)"
    and "on_minute_grid a t" and "on_minute_grid b t"
  shows "a = b"
proof (rule ccontr)
  assume "a \<noteq> b"
  moreover obtain i j where "i < length (sessions cal)" "j < length (sessions cal)"
    "a = sessions cal ! i" "b = sessions cal ! j"
    using assms(2,3) by (metis in_set_conv_nth)
  ultimately have "session_close a < session_open b \<or> session_close b < session_open a"
    using calendar_ok_order(1) [OF assms(1)] by (metis linorder_neqE_nat sorted_wrt_nth_less)
  then show False using assms(4,5) by (auto simp: on_minute_grid_def)
qed

text \<open>Once the as-of minute is placed in its session, resolution is one of the two loops.\<close>

lemma resolve_horizon_placed:
  assumes "calendar_ok cal" and "hs_unit spec \<noteq> ELAPSED_NANOSECONDS"
    and "hs_calendar_version spec = Some (calendar_version cal)"
    and "sessions cal = ys @ s # zs" and "on_minute_grid s t"
    and "hs_halt_policy spec = COUNT_SCHEDULED \<or> \<not> halted_minute s t"
  shows "resolve_horizon spec t cal =
     bind_result (if hs_unit spec = TRADING_MINUTES then resolve_trading_minutes spec t cal (length ys)
                  else resolve_trading_sessions spec cal (length ys))
       (\<lambda>x. construct horizon_target_post_init
          \<lparr>ht_spec = spec, ht_as_of = t, ht_target = x, ht_elapsed_ns = x - t\<rparr>)"
proof -
  have "as_of_session_index cal t = Inr (length ys)"
    using as_of_session_Inr [OF assms(1)] assms(4,5) by blast
  then show ?thesis using assms(2-4,6) by (auto simp: resolve_horizon_def nth_append)
qed

lemma resolve_horizon_placedD:
  assumes "calendar_ok cal" and "hs_unit spec \<noteq> ELAPSED_NANOSECONDS"
    and "resolve_horizon spec t cal = Inr tgt"
  shows "hs_calendar_version spec = Some (calendar_version cal) \<and> eligible_minute spec cal t"
proof -
  have version: "hs_calendar_version spec = Some (calendar_version cal)"
    using assms(2,3) by (auto simp: resolve_horizon_def split: if_splits)
  obtain i where i: "as_of_session_index cal t = Inr i"
    and halt: "\<not> (hs_halt_policy spec \<noteq> COUNT_SCHEDULED \<and> halted_minute (sessions cal ! i) t)"
    using assms(2,3) by (auto simp: resolve_horizon_def split: if_splits)
  obtain ys s zs where "sessions cal = ys @ s # zs" and "i = length ys" and "on_minute_grid s t"
    using i as_of_session_Inr [OF assms(1)] by blast
  then have "s \<in> set (sessions cal)" and "sessions cal ! i = s" and "on_minute_grid s t"
    by (simp_all add: nth_append)
  with halt version show ?thesis by (auto simp: eligible_minute_def)
qed

lemma eligible_minute_placed:
  assumes "eligible_minute spec cal t"
  obtains ys s zs where "sessions cal = ys @ s # zs" and "on_minute_grid s t"
    and "hs_halt_policy spec = COUNT_SCHEDULED \<or> \<not> halted_minute s t"
  using assms by (auto simp: eligible_minute_def in_set_conv_decomp)

lemma eligible_minute_range:
  assumes "calendar_ok cal" and "eligible_minute spec cal e"
  shows "0 < e" and "e \<le> MAX_INT64"
  using assms minute_in_range by (auto simp: eligible_minute_def)

lemma resolve_minutes_iff:
  assumes "calendar_ok cal" and "horizon_spec_post_init spec = None" and "hs_unit spec = TRADING_MINUTES"
  shows "resolve_horizon spec t cal = Inr tgt \<longleftrightarrow>
     hs_calendar_version spec = Some (calendar_version cal) \<and> eligible_minute spec cal t \<and>
     (\<exists>x. tgt = \<lparr>ht_spec = spec, ht_as_of = t, ht_target = x, ht_elapsed_ns = x - t\<rparr> \<and>
       eligible_minute spec cal x \<and> t < x \<and>
       (hs_halt_policy spec = REJECT \<longrightarrow> (\<forall>e. t < e \<and> e \<le> x \<longrightarrow> \<not> halted_at cal e)) \<and>
       int (card {e. eligible_minute spec cal e \<and> t < e \<and> e \<le> x}) = hs_value spec)"
  (is "?lhs \<longleftrightarrow> ?rhs")
proof (cases "hs_calendar_version spec = Some (calendar_version cal) \<and> eligible_minute spec cal t")
  case True
  then obtain ys s zs where p: "sessions cal = ys @ s # zs" "on_minute_grid s t"
    "hs_halt_policy spec = COUNT_SCHEDULED \<or> \<not> halted_minute s t"
    using eligible_minute_placed by blast
  have "?lhs \<longleftrightarrow> (\<exists>x. resolve_trading_minutes spec t cal (length ys) = Inr x \<and>
      construct horizon_target_post_init
        \<lparr>ht_spec = spec, ht_as_of = t, ht_target = x, ht_elapsed_ns = x - t\<rparr> = Inr tgt)"
    using resolve_horizon_placed [OF assms(1) _ _ p] True assms(3) by simp
  also have "\<dots> \<longleftrightarrow> ?rhs"
    unfolding resolve_trading_minutes_Inr [OF assms(1) p(1,2) horizon_spec_ok_value [OF assms(2)]]
    using True eligible_minute_range [OF assms(1)] horizon_target_accepted [of t _ spec]
    by (auto simp del: construct_Inr simp: construct_def)
  finally show ?thesis .
next
  case False
  then show ?thesis using resolve_horizon_placedD [OF assms(1)] assms(3) by auto
qed

lemma resolve_sessions_iff:
  assumes "calendar_ok cal" and "horizon_spec_post_init spec = None" and "hs_unit spec = TRADING_SESSIONS"
  shows "resolve_horizon spec t cal = Inr tgt \<longleftrightarrow>
     hs_calendar_version spec = Some (calendar_version cal) \<and> eligible_minute spec cal t \<and>
     (\<exists>x. tgt = \<lparr>ht_spec = spec, ht_as_of = t, ht_target = x, ht_elapsed_ns = x - t\<rparr> \<and>
       (\<exists>s \<in> set (sessions cal). t < session_open s \<and> eligible_session spec s \<and> session_close s = x) \<and>
       (hs_halt_policy spec = REJECT \<longrightarrow>
          (\<forall>s \<in> set (sessions cal). t < session_open s \<and> session_close s \<le> x \<longrightarrow> halt_intervals s = [])) \<and>
       int (card {s \<in> set (sessions cal). t < session_open s \<and> eligible_session spec s \<and> session_close s \<le> x}) =
         hs_value spec)"
  (is "?lhs \<longleftrightarrow> ?rhs")
proof (cases "hs_calendar_version spec = Some (calendar_version cal) \<and> eligible_minute spec cal t")
  case True
  then obtain ys s zs where p: "sessions cal = ys @ s # zs" "on_minute_grid s t"
    "hs_halt_policy spec = COUNT_SCHEDULED \<or> \<not> halted_minute s t"
    using eligible_minute_placed by blast
  have "?lhs \<longleftrightarrow> (\<exists>x. resolve_trading_sessions spec cal (length ys) = Inr x \<and>
      construct horizon_target_post_init
        \<lparr>ht_spec = spec, ht_as_of = t, ht_target = x, ht_elapsed_ns = x - t\<rparr> = Inr tgt)"
    using resolve_horizon_placed [OF assms(1) _ _ p] True assms(3) by simp
  moreover have "horizon_target_post_init
      \<lparr>ht_spec = spec, ht_as_of = t, ht_target = session_close s', ht_elapsed_ns = session_close s' - t\<rparr> = None"
    if "s' \<in> set (sessions cal)" and "t < session_open s'" for s'
    using that True eligible_minute_range [OF assms(1)] calendar_ok_session [OF assms(1) that(1)]
    by (intro horizon_target_accepted) auto
  ultimately show ?thesis
    unfolding resolve_trading_sessions_Inr [OF assms(1) p(1,2) horizon_spec_ok_value [OF assms(2)]]
    using True by (auto simp del: construct_Inr simp: construct_def)
next
  case False
  then show ?thesis using resolve_horizon_placedD [OF assms(1)] assms(3) by auto
qed

lemma pick_no_halt:
  "halt \<noteq> short \<Longrightarrow> \<forall>c \<in> set cs. \<not> forbidden c \<Longrightarrow> pick halt short cs n \<noteq> Inl halt"
  by (induction cs arbitrary: n) auto

lemma minute_errors_differ: "minute_halt_error \<noteq> minute_short_error"
  by (simp add: minute_halt_error_def minute_short_error_def)

lemma resolve_minutes_outcome:
  assumes "calendar_ok cal" and "horizon_spec_post_init spec = None" and "hs_unit spec = TRADING_MINUTES"
    and "hs_calendar_version spec = Some (calendar_version cal)" and "eligible_minute spec cal t"
    and "hs_halt_policy spec \<noteq> REJECT"
  shows "if hs_value spec \<le> int (card {e. eligible_minute spec cal e \<and> t < e})
     then \<exists>tgt. resolve_horizon spec t cal = Inr tgt
     else resolve_horizon spec t cal = Inl minute_short_error"
proof -
  obtain ys s zs where p: "sessions cal = ys @ s # zs" "on_minute_grid s t"
    "hs_halt_policy spec = COUNT_SCHEDULED \<or> \<not> halted_minute s t"
    using assms(5) eligible_minute_placed by blast
  define cs where "cs = map (minute_candidate spec) (minute_schedule (Some t) (s # zs))"
  define r where "r = pick minute_halt_error minute_short_error cs (hs_value spec)"
  note sched = minute_schedule_after [OF assms(1) p(1,2)]
  have order: "in_time_order cs" using sched(1) by (simp add: cs_def comp_def)
  have free: "\<forall>c \<in> set cs. \<not> forbidden c"
    using assms(6) by (auto simp: cs_def minute_candidate_def)
  have "length (filter counted cs) = card (set (map time_of (filter counted cs)))"
    using order strict_sorted_iff distinct_map_filter distinct_card
    by (metis length_map)
  also have "set (map time_of (filter counted cs)) = {e. eligible_minute spec cal e \<and> t < e}"
    unfolding cs_def filter_map set_map set_filter sched(2)
    by (auto simp: counted_minute eligible_minute_def image_iff)
  finally have count: "length (filter counted cs) = card {e. eligible_minute spec cal e \<and> t < e}" .
  have r: "resolve_trading_minutes spec t cal (length ys) = r"
    by (simp add: resolve_trading_minutes_def minutes_from_refines_pick p(1) cs_def r_def
        del: minute_schedule.simps)
  then have res: "resolve_horizon spec t cal = bind_result r (\<lambda>x. construct horizon_target_post_init
      \<lparr>ht_spec = spec, ht_as_of = t, ht_target = x, ht_elapsed_ns = x - t\<rparr>)"
    using resolve_horizon_placed [OF assms(1) _ assms(4) p] assms(3) by simp
  have short: "r = Inl minute_short_error \<longleftrightarrow> int (card {e. eligible_minute spec cal e \<and> t < e}) < hs_value spec"
    unfolding r_def count [symmetric]
    using pick_short [OF horizon_spec_ok_value [OF assms(2)] minute_errors_differ] free by blast
  show ?thesis
  proof (cases r)
    case (Inl e)
    then have "e = minute_short_error"
      using pick_cases [of minute_halt_error minute_short_error cs "hs_value spec"]
        pick_no_halt [OF minute_errors_differ free] by (auto simp: r_def)
    with Inl short res show ?thesis by simp
  next
    case (Inr x)
    then have "eligible_minute spec cal x" "t < x"
      using r resolve_trading_minutes_Inr [OF assms(1) p(1,2) horizon_spec_ok_value [OF assms(2)]] by simp_all
    then have "\<exists>tgt. resolve_horizon spec t cal = Inr tgt"
      using res Inr eligible_minute_range [OF assms(1)] assms(5) horizon_target_accepted [of t x spec] by simp
    moreover have "hs_value spec \<le> int (card {e. eligible_minute spec cal e \<and> t < e})"
      using short Inr by auto
    ultimately show ?thesis by simp
  qed
qed

section \<open>A worked calendar\<close>

text \<open>
  Two sessions of four and two minutes; the third minute of the first one (endpoint at minute 4) is halted.
\<close>

definition ex_calendar :: exchange_calendar where
  "ex_calendar = \<lparr>calendar_id = lit ''XNYS'', calendar_version = Identifier128 0 1,
     sessions = [\<lparr>session_id = lit ''d1'', session_open = MINUTE_NS, session_close = 5 * MINUTE_NS,
                  halt_intervals = [\<lparr>halt_start = 3 * MINUTE_NS, halt_end = 3 * MINUTE_NS + 1\<rparr>]\<rparr>,
                 \<lparr>session_id = lit ''d2'', session_open = 10 * MINUTE_NS, session_close = 12 * MINUTE_NS,
                  halt_intervals = []\<rparr>]\<rparr>"

definition ex_spec :: "forecast_horizon_unit \<Rightarrow> int \<Rightarrow> horizon_halt_policy \<Rightarrow> horizon_spec" where
  "ex_spec unit value policy = \<lparr>hs_label = lit ''x'', hs_unit = unit, hs_value = value,
     hs_halt_policy = policy,
     hs_session_endpoint = (if unit = TRADING_SESSIONS then REGULAR_SESSION_CLOSE else ENDPOINT_NOT_APPLICABLE),
     hs_calendar_version = Some (Identifier128 0 1), hs_schema_version = HORIZON_SCHEMA_VERSION\<rparr>"

lemma ex_calendar_ok: "calendar_ok ex_calendar"
  by (simp add: calendar_ok_def ex_calendar_def exchange_calendar_post_init_def
      identifier128_post_init_def trading_session_post_init_def halt_interval_post_init_def Let_def
      bounded_ascii_def timestamp_in_range_def lit_def MINUTE_NS_def MAX_INT64_def
      MAX_SESSION_ID_BYTES_def MAX_CALENDAR_ID_BYTES_def MAX_CALENDAR_SESSIONS_def)

lemma ex_spec_ok:
  assumes "unit \<noteq> ELAPSED_NANOSECONDS" and "0 < value" and "value \<le> 10000" and "policy \<noteq> HALT_NOT_APPLICABLE"
  shows "horizon_spec_post_init (ex_spec unit value policy) = None"
  using assms by (cases unit; cases policy)
    (simp_all add: horizon_spec_post_init_def Let_def ex_spec_def bounded_ascii_def lit_def
      label_pattern_def MAX_LABEL_BYTES_def MAX_HORIZON_VALUE_def)

lemma ex_spec_simps [simp]:
  "hs_unit (ex_spec unit value policy) = unit" "hs_value (ex_spec unit value policy) = value"
  "hs_halt_policy (ex_spec unit value policy) = policy"
  "hs_calendar_version (ex_spec unit value policy) = Some (calendar_version ex_calendar)"
  by (simp_all add: ex_spec_def ex_calendar_def)

lemma ex_resolve_minutes:
  "resolve_horizon (ex_spec TRADING_MINUTES 3 PAUSE) (2 * MINUTE_NS) ex_calendar =
     Inr \<lparr>ht_spec = ex_spec TRADING_MINUTES 3 PAUSE, ht_as_of = 2 * MINUTE_NS,
          ht_target = 11 * MINUTE_NS, ht_elapsed_ns = 9 * MINUTE_NS\<rparr>"
  by (simp add: resolve_horizon_def as_of_session_index_def timestamp_in_range_def raise_if_def
      resolve_trading_minutes_def ex_calendar_def MINUTE_NS_def MAX_INT64_def halted_minute_def
      overlaps_minute_def minute_loop.simps horizon_target_post_init_def)

lemma ex_resolve_sessions:
  "resolve_horizon (ex_spec TRADING_SESSIONS 1 PAUSE) (2 * MINUTE_NS) ex_calendar =
     Inr \<lparr>ht_spec = ex_spec TRADING_SESSIONS 1 PAUSE, ht_as_of = 2 * MINUTE_NS,
          ht_target = 12 * MINUTE_NS, ht_elapsed_ns = 10 * MINUTE_NS\<rparr>"
  by (simp add: resolve_horizon_def as_of_session_index_def timestamp_in_range_def raise_if_def
      resolve_trading_sessions_def ex_calendar_def MINUTE_NS_def MAX_INT64_def halted_minute_def
      overlaps_minute_def horizon_target_post_init_def)

lemma finite_minutes: "finite {e. eligible_minute spec cal e \<and> t < e \<and> e \<le> x}"
  by (rule finite_subset [of _ "{t..x}"]) auto

definition minute_spec :: "ustr \<Rightarrow> int \<Rightarrow> identifier128 \<Rightarrow> horizon_halt_policy \<Rightarrow> horizon_spec" where
  "minute_spec label value version policy =
     \<lparr>hs_label = label, hs_unit = TRADING_MINUTES, hs_value = value, hs_halt_policy = policy,
      hs_session_endpoint = ENDPOINT_NOT_APPLICABLE, hs_calendar_version = Some version,
      hs_schema_version = HORIZON_SCHEMA_VERSION\<rparr>"

definition session_spec :: "ustr \<Rightarrow> int \<Rightarrow> identifier128 \<Rightarrow> horizon_halt_policy \<Rightarrow> horizon_spec" where
  "session_spec label value version policy =
     \<lparr>hs_label = label, hs_unit = TRADING_SESSIONS, hs_value = value, hs_halt_policy = policy,
      hs_session_endpoint = REGULAR_SESSION_CLOSE, hs_calendar_version = Some version,
      hs_schema_version = HORIZON_SCHEMA_VERSION\<rparr>"

lemma spec_accepted:
  assumes "bounded_ascii l ''horizon label'' MAX_LABEL_BYTES = None" and "label_pattern l"
    and "0 < v" and "v \<le> 10000" and "policy \<in> {REJECT, PAUSE, COUNT_SCHEDULED}"
  shows "horizon_spec_post_init (minute_spec l v version policy) = None"
    and "horizon_spec_post_init (session_spec l v version policy) = None"
  using assms by (simp_all add: horizon_spec_post_init_def Let_def minute_spec_def session_spec_def
      MAX_HORIZON_VALUE_def)

lemma trading_specs_accepted:
  assumes "bounded_ascii l ''horizon label'' MAX_LABEL_BYTES = None" and "label_pattern l"
    and "0 < v" and "v \<le> 10000" and "policy \<in> {REJECT, PAUSE, COUNT_SCHEDULED}"
  shows "trading_minutes l v version policy = Inr (minute_spec l v version policy)"
    and "trading_sessions l v version policy = Inr (session_spec l v version policy)"
  using spec_accepted [OF assms, of version]
  by (simp_all add: trading_minutes_def trading_sessions_def minute_spec_def session_spec_def)

section \<open>Properties of horizon resolution\<close>

text \<open>
  Claim C7. Trading-minute horizons are exact. On a constructed calendar, \<open>resolve_horizon\<close> returns a target
  if and only if the versions agree, the as-of time is an eligible minute endpoint, and the target is an
  eligible minute endpoint after it such that exactly \<open>value\<close> eligible minutes lie in between (the target
  included); under REJECT moreover no minute in between is halted. The elapsed time is the difference.
\<close>

theorem trading_minute_target_exact:
  assumes "calendar_ok cal" and "horizon_spec_post_init spec = None" and "hs_unit spec = TRADING_MINUTES"
  shows "resolve_horizon spec t cal = Inr tgt \<longleftrightarrow>
     hs_calendar_version spec = Some (calendar_version cal) \<and> eligible_minute spec cal t \<and>
     (\<exists>x. tgt = \<lparr>ht_spec = spec, ht_as_of = t, ht_target = x, ht_elapsed_ns = x - t\<rparr> \<and>
       eligible_minute spec cal x \<and> t < x \<and>
       (hs_halt_policy spec = REJECT \<longrightarrow> (\<forall>e. t < e \<and> e \<le> x \<longrightarrow> \<not> halted_at cal e)) \<and>
       int (card {e. eligible_minute spec cal e \<and> t < e \<and> e \<le> x}) = hs_value spec)"
  using assms by (rule resolve_minutes_iff)

theorem trading_minute_target_exact_witness:
  "eligible_minute (ex_spec TRADING_MINUTES 3 PAUSE) ex_calendar (11 * MINUTE_NS) \<and>
   card {e. eligible_minute (ex_spec TRADING_MINUTES 3 PAUSE) ex_calendar e \<and> 2 * MINUTE_NS < e \<and>
     e \<le> 11 * MINUTE_NS} = 3"
  using trading_minute_target_exact [THEN iffD1, OF ex_calendar_ok ex_spec_ok _ ex_resolve_minutes] by simp

text \<open>
  Claim C31. Trading-session horizons are exact: the target is the close of an eligible session opening after
  the as-of time such that exactly \<open>value\<close> eligible sessions open after the as-of time and close by the
  target; under REJECT moreover none of the later sessions up to the target has a halt.
\<close>

theorem trading_session_target_exact:
  assumes "calendar_ok cal" and "horizon_spec_post_init spec = None" and "hs_unit spec = TRADING_SESSIONS"
  shows "resolve_horizon spec t cal = Inr tgt \<longleftrightarrow>
     hs_calendar_version spec = Some (calendar_version cal) \<and> eligible_minute spec cal t \<and>
     (\<exists>x. tgt = \<lparr>ht_spec = spec, ht_as_of = t, ht_target = x, ht_elapsed_ns = x - t\<rparr> \<and>
       (\<exists>s \<in> set (sessions cal). t < session_open s \<and> eligible_session spec s \<and> session_close s = x) \<and>
       (hs_halt_policy spec = REJECT \<longrightarrow>
          (\<forall>s \<in> set (sessions cal). t < session_open s \<and> session_close s \<le> x \<longrightarrow> halt_intervals s = [])) \<and>
       int (card {s \<in> set (sessions cal). t < session_open s \<and> eligible_session spec s \<and> session_close s \<le> x}) =
         hs_value spec)"
  using assms by (rule resolve_sessions_iff)

theorem trading_session_target_exact_witness:
  "card {s \<in> set (sessions ex_calendar). 2 * MINUTE_NS < session_open s \<and>
     eligible_session (ex_spec TRADING_SESSIONS 1 PAUSE) s \<and> session_close s \<le> 12 * MINUTE_NS} = 1"
  using trading_session_target_exact [THEN iffD1, OF ex_calendar_ok ex_spec_ok _ ex_resolve_sessions] by simp

text \<open>
  Claim C33. Trading-minute resolution terminates with the right outcome: when the versions agree, the as-of
  minute is eligible and the policy does not reject halts, a target is returned whenever the calendar still
  has at least \<open>value\<close> eligible minutes, and otherwise the code INSUFFICIENT_CALENDAR is raised, never
  another error.
\<close>

theorem trading_minute_outcome:
  assumes "calendar_ok cal" and "horizon_spec_post_init spec = None" and "hs_unit spec = TRADING_MINUTES"
    and "hs_calendar_version spec = Some (calendar_version cal)" and "eligible_minute spec cal t"
    and "hs_halt_policy spec \<noteq> REJECT"
  shows "if hs_value spec \<le> int (card {e. eligible_minute spec cal e \<and> t < e})
     then \<exists>tgt. resolve_horizon spec t cal = Inr tgt
     else \<exists>detail. resolve_horizon spec t cal = Inl (HorizonContractError INSUFFICIENT_CALENDAR detail)"
  using resolve_minutes_outcome [OF assms] by (auto simp: minute_short_error_def)

theorem trading_minute_outcome_witness:
  "\<exists>r. resolve_horizon (ex_spec TRADING_MINUTES 9 PAUSE) (2 * MINUTE_NS) ex_calendar = r \<and>
     (r \<in> range Inr \<or> (\<exists>detail. r = Inl (HorizonContractError INSUFFICIENT_CALENDAR detail)))"
proof -
  have "eligible_minute (ex_spec TRADING_MINUTES 9 PAUSE) ex_calendar (2 * MINUTE_NS)"
    by (simp add: eligible_minute_def ex_calendar_def on_minute_grid_def halted_minute_def
        overlaps_minute_def MINUTE_NS_def)
  then show ?thesis
    using trading_minute_outcome [OF ex_calendar_ok ex_spec_ok, of TRADING_MINUTES 9 PAUSE "2 * MINUTE_NS"]
    by (auto split: if_splits)
qed

text \<open>
  Every resolved target is a representable timestamp strictly after a positive as-of time, with the
  exact elapsed interval and the requesting specification, whatever the unit; and an elapsed horizon resolves
  if and only if the as-of time is positive and the sum still fits a signed 64-bit integer.
\<close>

theorem resolved_target_in_range:
  assumes "horizon_spec_post_init spec = None"
  shows "(\<forall>tgt. resolve_horizon spec t cal = Inr tgt \<longrightarrow>
       ht_spec tgt = spec \<and> ht_as_of tgt = t \<and> 0 < t \<and> t < ht_target tgt \<and>
       ht_target tgt \<le> 2 ^ 63 - 1 \<and> ht_elapsed_ns tgt = ht_target tgt - t) \<and>
     (hs_unit spec = ELAPSED_NANOSECONDS \<longrightarrow>
       ((\<exists>tgt. resolve_horizon spec t cal = Inr tgt) \<longleftrightarrow> 0 < t \<and> t + hs_value spec \<le> 2 ^ 63 - 1))"
  using horizon_spec_ok_value [OF assms]
  by (auto simp: resolve_horizon_def horizon_target_post_init_def timestamp_in_range_def MAX_INT64_def
      split: if_splits)

theorem resolved_target_in_range_witness:
  "\<exists>tgt. resolve_horizon (ex_spec TRADING_MINUTES 3 PAUSE) (2 * MINUTE_NS) ex_calendar = Inr tgt \<and>
     2 * MINUTE_NS < ht_target tgt \<and> ht_target tgt \<le> 2 ^ 63 - 1"
  using resolved_target_in_range [OF ex_spec_ok, of TRADING_MINUTES 3 PAUSE "2 * MINUTE_NS" ex_calendar]
    ex_resolve_minutes by simp

text \<open>
  Longer trading-minute horizons never end earlier: two specifications that differ only in their
  value, resolved from the same as-of time, have targets in the strict order of their values.
\<close>

theorem longer_horizon_later_target:
  assumes "calendar_ok cal" and "horizon_spec_post_init a = None" and "horizon_spec_post_init b = None"
    and "hs_unit a = TRADING_MINUTES" and "hs_unit b = TRADING_MINUTES"
    and "hs_halt_policy a = hs_halt_policy b" and "hs_value a < hs_value b"
    and "resolve_horizon a t cal = Inr ta" and "resolve_horizon b t cal = Inr tb"
  shows "ht_target ta < ht_target tb"
proof (rule ccontr)
  have same: "eligible_minute a cal = eligible_minute b cal"
    using assms(6) by (simp add: eligible_minute_def fun_eq_iff)
  assume "\<not> ht_target ta < ht_target tb"
  then have "card {e. eligible_minute b cal e \<and> t < e \<and> e \<le> ht_target tb} \<le>
      card {e. eligible_minute a cal e \<and> t < e \<and> e \<le> ht_target ta}"
    by (intro card_mono finite_minutes) (auto simp: same)
  then show False
    using assms(7-9) resolve_minutes_iff [OF assms(1,2,4)] resolve_minutes_iff [OF assms(1,3,5)]
    by fastforce
qed

text \<open>
  The twelve required horizons always construct: for every explicit trading halt policy the result
  has the twelve canonical labels in order, seven minute and five session horizons with the required values,
  each accepted by the constructor and bound to the given calendar version.
\<close>

theorem required_horizons_construct:
  assumes "policy \<in> {REJECT, PAUSE, COUNT_SCHEDULED}"
  shows "\<exists>specs. required_horizon_specs version policy = Inr specs \<and>
     map hs_label specs = REQUIRED_HORIZON_LABELS \<and>
     map hs_value specs = [5, 10, 15, 30, 60, 120, 300, 1, 5, 10, 21, 42] \<and>
     map hs_unit specs = replicate 7 TRADING_MINUTES @ replicate 5 TRADING_SESSIONS \<and>
     (\<forall>s \<in> set specs. horizon_spec_post_init s = None \<and> hs_calendar_version s = Some version)"
proof -
  have labels: "\<forall>l \<in> set REQUIRED_HORIZON_LABELS.
      bounded_ascii l ''horizon label'' MAX_LABEL_BYTES = None \<and> label_pattern l"
    by (simp add: REQUIRED_HORIZON_LABELS_def bounded_ascii_def lit_def label_pattern_def MAX_LABEL_BYTES_def)
  have accepted: "trading_minutes l v version policy = Inr (minute_spec l v version policy)"
    "trading_sessions l v version policy = Inr (session_spec l v version policy)"
    "horizon_spec_post_init (minute_spec l v version policy) = None"
    "horizon_spec_post_init (session_spec l v version policy) = None"
    if "l \<in> set REQUIRED_HORIZON_LABELS" and "0 < v" and "v \<le> 10000" for l v
    using trading_specs_accepted [of l v policy version] spec_accepted [of l v policy version]
      labels that assms by (simp_all del: insert_iff)
  have fields: "hs_label (minute_spec l v version policy) = l" "hs_label (session_spec l v version policy) = l"
    "hs_value (minute_spec l v version policy) = v" "hs_value (session_spec l v version policy) = v"
    "hs_unit (minute_spec l v version policy) = TRADING_MINUTES"
    "hs_unit (session_spec l v version policy) = TRADING_SESSIONS"
    "hs_calendar_version (minute_spec l v version policy) = Some version"
    "hs_calendar_version (session_spec l v version policy) = Some version" for l v
    by (simp_all add: minute_spec_def session_spec_def)
  show ?thesis
    unfolding required_horizon_specs_def
    by (simp add: accepted fields REQUIRED_HORIZON_LABELS_def REQUIRED_TRADING_MINUTES_def
        REQUIRED_TRADING_SESSIONS_def) (simp add: eval_nat_numeral)
qed

end
