(* ===== verification/Feature_Index.thy ===== *)
theory Feature_Index
  imports Minute Horizon
begin

text \<open>
  The inputs of the feature dataset builder, \<open>python/research/aegis_mx_research/feature_dataset.py\<close>: its errors and field
  checks, integer rounding, the point-in-time sector index, the advisory-event index with its pruned interval lookup,
  the in-memory canonical source and the chronological split plan.

  A canonical source (the \<open>CanonicalDatasetSource\<close> protocol) is its instrument identities together with what iterating
  over one instrument yields: the records, and the exception that ends the iteration, if one does.
\<close>

section \<open>Codes, errors and limits\<close>

datatype dataset_code =
    CORRUPT_CANONICAL_INPUT | CORPORATE_ACTION_CHANGED | DUPLICATE_MINUTE | FUTURE_EVENT_REVISION
  | FUTURE_REFERENCE | DATASET_INSUFFICIENT_CALENDAR | INSUFFICIENT_SPLIT_SESSIONS | DATASET_INTEGER_OVERFLOW
  | INVALID_CONFIGURATION | LABEL_FEATURE_OVERLAP | MISSING_CANONICAL_DATA | MISSING_TARGET_BAR
  | NON_CHRONOLOGICAL_INPUT | NON_CHRONOLOGICAL_SPLIT | NORMALIZATION_LEAKAGE | PURGE_EMBARGO_VIOLATION
  | STORAGE_LIMIT | TICK_GRID_CHANGED | UNRESOLVED_INSTRUMENT

fun dataset_code_value :: "dataset_code \<Rightarrow> ustr" where
  "dataset_code_value CORRUPT_CANONICAL_INPUT = lit ''CORRUPT_CANONICAL_INPUT''"
| "dataset_code_value CORPORATE_ACTION_CHANGED = lit ''CORPORATE_ACTION_CHANGED''"
| "dataset_code_value DUPLICATE_MINUTE = lit ''DUPLICATE_MINUTE''"
| "dataset_code_value FUTURE_EVENT_REVISION = lit ''FUTURE_EVENT_REVISION''"
| "dataset_code_value FUTURE_REFERENCE = lit ''FUTURE_REFERENCE''"
| "dataset_code_value DATASET_INSUFFICIENT_CALENDAR = lit ''INSUFFICIENT_CALENDAR''"
| "dataset_code_value INSUFFICIENT_SPLIT_SESSIONS = lit ''INSUFFICIENT_SPLIT_SESSIONS''"
| "dataset_code_value DATASET_INTEGER_OVERFLOW = lit ''INTEGER_OVERFLOW''"
| "dataset_code_value INVALID_CONFIGURATION = lit ''INVALID_CONFIGURATION''"
| "dataset_code_value LABEL_FEATURE_OVERLAP = lit ''LABEL_FEATURE_OVERLAP''"
| "dataset_code_value MISSING_CANONICAL_DATA = lit ''MISSING_CANONICAL_DATA''"
| "dataset_code_value MISSING_TARGET_BAR = lit ''MISSING_TARGET_BAR''"
| "dataset_code_value NON_CHRONOLOGICAL_INPUT = lit ''NON_CHRONOLOGICAL_INPUT''"
| "dataset_code_value NON_CHRONOLOGICAL_SPLIT = lit ''NON_CHRONOLOGICAL_SPLIT''"
| "dataset_code_value NORMALIZATION_LEAKAGE = lit ''NORMALIZATION_LEAKAGE''"
| "dataset_code_value PURGE_EMBARGO_VIOLATION = lit ''PURGE_EMBARGO_VIOLATION''"
| "dataset_code_value STORAGE_LIMIT = lit ''STORAGE_LIMIT''"
| "dataset_code_value TICK_GRID_CHANGED = lit ''TICK_GRID_CHANGED''"
| "dataset_code_value UNRESOLVED_INSTRUMENT = lit ''UNRESOLVED_INSTRUMENT''"

datatype dataset_error =
    DatasetBuildError (dataset_code: dataset_code) (dataset_detail: ustr)
  | Dataset_Horizon horizon_error
  | Dataset_PyError py_error

definition dataset_error :: "dataset_code \<Rightarrow> string \<Rightarrow> dataset_error" where
  "dataset_error code detail = DatasetBuildError code (lit detail)"

definition dataset_py :: "py_error + 'a \<Rightarrow> dataset_error + 'a" where
  "dataset_py r = (case r of Inl e \<Rightarrow> Inl (Dataset_PyError e) | Inr x \<Rightarrow> Inr x)"

definition PURGE_SESSIONS :: nat where "PURGE_SESSIONS = 42"
definition PPM_SCALE :: int where "PPM_SCALE = 1000000"
definition MAX_EVENTS :: nat where "MAX_EVENTS = 1000000"
definition MAX_EVENT_COVERAGE :: nat where "MAX_EVENT_COVERAGE = 32"
definition MAX_SECTOR_REVISIONS :: nat where "MAX_SECTOR_REVISIONS = 100000"
definition MINIMUM_USABLE_SPLIT_SESSIONS :: int where "MINIMUM_USABLE_SPLIT_SESSIONS = 3"

section \<open>Field checks and rounding\<close>

definition dataset_require_text :: "ustr \<Rightarrow> string \<Rightarrow> dataset_error option" where
  "dataset_require_text value field = first_error
     [raise_if (\<exists>c \<in> set value. 128 \<le> c) (dataset_error INVALID_CONFIGURATION (field @ '' is not ASCII'')),
      raise_if (value = [] \<or> 256 < length value \<or> 0 \<in> set value)
        (dataset_error INVALID_CONFIGURATION (field @ '' is invalid''))]"

definition dataset_require_sha256 :: "ustr \<Rightarrow> string \<Rightarrow> dataset_error option" where
  "dataset_require_sha256 value field = raise_if
     (length value \<noteq> 64 \<or> \<not> list_all is_hex_digit value \<or> value = replicate 64 48)
     (dataset_error INVALID_CONFIGURATION (field @ '' is not SHA-256''))"

definition checked_int64 :: "int \<Rightarrow> string \<Rightarrow> bool \<Rightarrow> dataset_error + int" where
  "checked_int64 value field nonnegative =
     (if \<not> ((if nonnegative then 0 else - MAX_INT64) \<le> value \<and> value \<le> MAX_INT64)
      then Inl (dataset_error DATASET_INTEGER_OVERFLOW (field @ '' exceeds int64''))
      else Inr value)"

definition divide_round_half_away :: "int \<Rightarrow> int \<Rightarrow> dataset_error + int" where
  "divide_round_half_away numerator denominator =
     (if denominator \<le> 0
      then Inl (dataset_error CORRUPT_CANONICAL_INPUT ''ratio denominator must be positive'')
      else let quotient = \<bar>numerator\<bar> div denominator;
               remainder = \<bar>numerator\<bar> mod denominator;
               magnitude = (if denominator \<le> remainder * 2 then quotient + 1 else quotient)
           in Inr (if 0 \<le> numerator then magnitude else - magnitude))"

definition return_ppm :: "int \<Rightarrow> int \<Rightarrow> dataset_error + int" where
  "return_ppm current_ticks prior_ticks =
     (if current_ticks \<le> 0 \<or> prior_ticks \<le> 0
      then Inl (dataset_error CORRUPT_CANONICAL_INPUT ''return prices must be positive ticks'')
      else bind_result (divide_round_half_away ((current_ticks - prior_ticks) * PPM_SCALE) prior_ticks)
        (\<lambda>value. checked_int64 value ''return_ppm'' False))"

definition mean_int :: "int list \<Rightarrow> dataset_error + int" where
  "mean_int observations =
     (if observations = [] then Inl (dataset_error INVALID_CONFIGURATION ''mean requires observations'')
      else divide_round_half_away (sum_list observations) (int (length observations)))"

text \<open>\<open>math.isqrt\<close>, two bits at a time.\<close>

function isqrt_nat :: "nat \<Rightarrow> nat" where
  "isqrt_nat n =
     (if n = 0 then 0
      else let r = 2 * isqrt_nat (n div 4) in if (r + 1) * (r + 1) \<le> n then r + 1 else r)"
  by pat_completeness auto
termination
  by (relation "measure (\<lambda>n. n)") auto

declare isqrt_nat.simps [simp del]

definition isqrt :: "int \<Rightarrow> int" where
  "isqrt n = int (isqrt_nat (nat n))"

section \<open>Sectors\<close>

record sector_revision =
  sec_revision_id :: ustr
  sec_instrument_id :: ustr
  sec_sector_id :: ustr
  sec_effective_from_ns :: int
  sec_effective_to_ns :: "int option"
  sec_available_at_ns :: int
  sec_version :: int
  sec_source_sha256 :: ustr

definition sector_revision_post_init :: "sector_revision \<Rightarrow> dataset_error option" where
  "sector_revision_post_init r = first_error
     [dataset_require_text (sec_revision_id r) ''revision_id'',
      dataset_require_text (sec_instrument_id r) ''instrument_id'',
      dataset_require_text (sec_sector_id r) ''sector_id'',
      raise_if (\<not> (0 < sec_effective_from_ns r \<and> sec_effective_from_ns r \<le> MAX_INT64))
        (dataset_error INVALID_CONFIGURATION ''effective_from_ns is invalid''),
      raise_if (\<not> (0 < sec_available_at_ns r \<and> sec_available_at_ns r \<le> MAX_INT64))
        (dataset_error INVALID_CONFIGURATION ''available_at_ns is invalid''),
      raise_if (case sec_effective_to_ns r of None \<Rightarrow> False
          | Some until \<Rightarrow> \<not> (sec_effective_from_ns r < until \<and> until \<le> MAX_INT64))
        (dataset_error INVALID_CONFIGURATION ''sector validity interval is invalid''),
      raise_if (sec_version r \<le> 0) (dataset_error INVALID_CONFIGURATION ''sector version must be positive''),
      dataset_require_sha256 (sec_source_sha256 r) ''sector source_sha256'']"

definition sector_applies :: "sector_revision \<Rightarrow> int \<Rightarrow> int \<Rightarrow> bool" where
  "sector_applies r event_time known_at \<longleftrightarrow>
     sec_available_at_ns r \<le> known_at \<and> sec_effective_from_ns r \<le> event_time \<and>
     (case sec_effective_to_ns r of None \<Rightarrow> True | Some until \<Rightarrow> event_time < until)"

record sector_index =
  si_by_instrument :: "(ustr \<times> sector_revision list) list"
  si_sha256 :: ustr

definition check_sector_group :: "ustr \<times> sector_revision list \<Rightarrow> dataset_error option" where
  "check_sector_group g =
     (case g of (instrument_id, revisions) \<Rightarrow>
        let ordered = sort_key sec_version revisions
        in raise_if (map sec_version ordered \<noteq> map int [1..<length ordered + 1] \<or>
             (\<exists>(previous, current) \<in> set (pairwise_list ordered).
                sec_available_at_ns current \<le> sec_available_at_ns previous))
           (DatasetBuildError FUTURE_REFERENCE
              (lit ''sector lineage for '' @ instrument_id @ lit '' is not contiguous'')))"

definition sector_json :: "sector_revision \<Rightarrow> json" where
  "sector_json r = JObj
     [(lit ''available_at_ns'', JInt (sec_available_at_ns r)),
      (lit ''effective_from_ns'', JInt (sec_effective_from_ns r)),
      (lit ''effective_to_ns'', optional_int (sec_effective_to_ns r)),
      (lit ''instrument_id'', JStr (sec_instrument_id r)),
      (lit ''revision_id'', JStr (sec_revision_id r)),
      (lit ''sector_id'', JStr (sec_sector_id r)),
      (lit ''source_sha256'', JStr (sec_source_sha256 r)),
      (lit ''version'', JInt (sec_version r))]"

definition sector_index_init :: "sector_revision list \<Rightarrow> dataset_error + sector_index" where
  "sector_index_init revisions =
     (if MAX_SECTOR_REVISIONS < length revisions
      then Inl (dataset_error INVALID_CONFIGURATION ''sector revision bound is exceeded'')
      else let grouped = group_by sec_instrument_id (\<lambda>r. r) revisions
           in case first_error (map check_sector_group grouped) of
                Some e \<Rightarrow> Inl e
              | None \<Rightarrow>
                  map_result (\<lambda>digest.
                    \<lparr>si_by_instrument = map (\<lambda>(i, rs). (i, sort_key sec_version rs)) grouped, si_sha256 = digest\<rparr>)
                  (dataset_py (json_digest (JArr (map sector_json
                     (sort_key (\<lambda>r. (sec_instrument_id r, sec_version r)) revisions))))))"

definition sector_at :: "sector_index \<Rightarrow> ustr \<Rightarrow> int \<Rightarrow> int \<Rightarrow> sector_revision option" where
  "sector_at index instrument_id event_time known_at =
     (let eligible = filter (\<lambda>r. sector_applies r event_time known_at)
            (group_of (si_by_instrument index) instrument_id)
      in if eligible = [] then None else Some (max_by sec_version eligible))"

section \<open>Advisory events\<close>

datatype feature_event_kind = NEWS | MACRO

fun event_kind_value :: "feature_event_kind \<Rightarrow> ustr" where
  "event_kind_value NEWS = lit ''NEWS''"
| "event_kind_value MACRO = lit ''MACRO''"

record event_coverage =
  ec_kind :: feature_event_kind
  ec_source_id :: ustr
  ec_start_time_ns :: int
  ec_end_time_ns :: int
  ec_source_snapshot_sha256 :: ustr

definition event_coverage_post_init :: "event_coverage \<Rightarrow> dataset_error option" where
  "event_coverage_post_init c = first_error
     [dataset_require_text (ec_source_id c) ''event coverage source_id'',
      raise_if (\<not> (0 < ec_start_time_ns c \<and> ec_start_time_ns c < ec_end_time_ns c \<and> ec_end_time_ns c \<le> MAX_INT64))
        (dataset_error INVALID_CONFIGURATION ''event coverage interval is invalid''),
      dataset_require_sha256 (ec_source_snapshot_sha256 c) ''event coverage source_snapshot_sha256'']"

definition coverage_covers :: "event_coverage \<Rightarrow> int \<Rightarrow> bool" where
  "coverage_covers c timestamp \<longleftrightarrow> ec_start_time_ns c \<le> timestamp \<and> timestamp < ec_end_time_ns c"

definition coverage_json :: "event_coverage \<Rightarrow> json" where
  "coverage_json c = JObj
     [(lit ''end_time_ns'', JInt (ec_end_time_ns c)),
      (lit ''kind'', JStr (event_kind_value (ec_kind c))),
      (lit ''source_id'', JStr (ec_source_id c)),
      (lit ''source_snapshot_sha256'', JStr (ec_source_snapshot_sha256 c)),
      (lit ''start_time_ns'', JInt (ec_start_time_ns c))]"

record feature_event =
  ev_record_id :: ustr
  ev_revision_id :: ustr
  ev_kind :: feature_event_kind
  ev_instrument_id :: "ustr option"
  ev_event_time_ns :: int
  ev_available_at_ns :: int
  ev_valid_until_ns :: int
  ev_source_sha256 :: ustr

definition feature_event_post_init :: "feature_event \<Rightarrow> dataset_error option" where
  "feature_event_post_init e = first_error
     ([dataset_require_text (ev_record_id e) ''record_id'', dataset_require_text (ev_revision_id e) ''revision_id''] @
      (case ev_instrument_id e of None \<Rightarrow> [] | Some i \<Rightarrow> [dataset_require_text i ''instrument_id'']) @
      [raise_if (\<not> (0 < ev_event_time_ns e \<and> ev_event_time_ns e < ev_valid_until_ns e \<and>
           ev_valid_until_ns e \<le> MAX_INT64 \<and>
           ev_event_time_ns e \<le> ev_available_at_ns e \<and> ev_available_at_ns e < ev_valid_until_ns e))
         (dataset_error INVALID_CONFIGURATION ''event time or validity is invalid''),
       dataset_require_sha256 (ev_source_sha256 e) ''event source_sha256''])"

text \<open>\<open>bisect.bisect_right\<close>: the binary search of the library.\<close>

function bisect_loop :: "int list \<Rightarrow> int \<Rightarrow> nat \<Rightarrow> nat \<Rightarrow> nat" where
  "bisect_loop xs x low high =
     (if low < high
      then let middle = (low + high) div 2
           in if x < xs ! middle then bisect_loop xs x low middle else bisect_loop xs x (middle + 1) high
      else low)"
  by pat_completeness auto
termination
  by (relation "measure (\<lambda>(xs, x, low, high). high - low)") auto

declare bisect_loop.simps [simp del]

definition bisect_right :: "int list \<Rightarrow> int \<Rightarrow> nat" where
  "bisect_right xs x = bisect_loop xs x 0 (length xs)"

record interval_index =
  ix_events :: "feature_event list"
  ix_starts :: "int list"
  ix_prefix_maximum_ends :: "int list"

fun prefix_maxima :: "int \<Rightarrow> int list \<Rightarrow> int list" where
  "prefix_maxima maximum_end [] = []"
| "prefix_maxima maximum_end (e # es) = max maximum_end e # prefix_maxima (max maximum_end e) es"

definition interval_index_init :: "feature_event list \<Rightarrow> interval_index" where
  "interval_index_init events =
     (let ordered = sort_key (\<lambda>e. (ev_event_time_ns e, ev_record_id e)) events
      in \<lparr>ix_events = ordered, ix_starts = map ev_event_time_ns ordered,
          ix_prefix_maximum_ends = prefix_maxima 0 (map ev_valid_until_ns ordered)\<rparr>)"

definition event_active :: "feature_event \<Rightarrow> int \<Rightarrow> bool" where
  "event_active e as_of \<longleftrightarrow> ev_available_at_ns e \<le> as_of \<and> as_of < ev_valid_until_ns e"

text \<open>The \<open>while\<close> loop of \<open>active\<close>, with \<open>Suc index\<close> for the \<open>index\<close> of the source.\<close>

fun active_loop :: "interval_index \<Rightarrow> int \<Rightarrow> nat \<Rightarrow> feature_event list" where
  "active_loop ix as_of 0 = []"
| "active_loop ix as_of (Suc index) =
     (if as_of < ix_prefix_maximum_ends ix ! index
      then (if event_active (ix_events ix ! index) as_of then [ix_events ix ! index] else []) @
           active_loop ix as_of index
      else [])"

definition interval_active :: "interval_index \<Rightarrow> int \<Rightarrow> feature_event list" where
  "interval_active ix as_of = active_loop ix as_of (bisect_right (ix_starts ix) as_of)"

record event_index =
  ei_news :: "(ustr \<times> interval_index) list"
  ei_macro :: interval_index
  ei_coverage :: "event_coverage list"
  ei_sha256 :: ustr
  ei_content_sha256 :: ustr

definition infer_coverage :: "feature_event list \<Rightarrow> feature_event_kind \<Rightarrow> dataset_error + event_coverage" where
  "infer_coverage of_kind kind =
     bind_result (dataset_py (json_digest (JArr (map (\<lambda>e. JStr (ev_source_sha256 e)) (sort_key ev_record_id of_kind)))))
       (\<lambda>digest. Prelude.construct event_coverage_post_init
         \<lparr>ec_kind = kind, ec_source_id = lit ''INFERRED_FROM_EVENTS'',
          ec_start_time_ns = Min (set (map ev_event_time_ns of_kind)),
          ec_end_time_ns = Max (set (map ev_valid_until_ns of_kind)),
          ec_source_snapshot_sha256 = digest\<rparr>)"

definition inferred_coverage :: "feature_event list \<Rightarrow> dataset_error + event_coverage list" where
  "inferred_coverage events =
     map_list_result (\<lambda>kind. infer_coverage (filter (\<lambda>e. ev_kind e = kind) events) kind)
       (filter (\<lambda>kind. \<exists>e \<in> set events. ev_kind e = kind) [NEWS, MACRO])"

definition event_json :: "feature_event \<Rightarrow> json" where
  "event_json e = JObj
     [(lit ''available_at_ns'', JInt (ev_available_at_ns e)),
      (lit ''event_time_ns'', JInt (ev_event_time_ns e)),
      (lit ''instrument_id'', optional_str (ev_instrument_id e)),
      (lit ''kind'', JStr (event_kind_value (ev_kind e))),
      (lit ''record_id'', JStr (ev_record_id e)),
      (lit ''revision_id'', JStr (ev_revision_id e)),
      (lit ''source_sha256'', JStr (ev_source_sha256 e)),
      (lit ''valid_until_ns'', JInt (ev_valid_until_ns e))]"

text \<open>News events that name no instrument are indexed nowhere.\<close>

definition instrument_news :: "feature_event list \<Rightarrow> (ustr \<times> feature_event list) list" where
  "instrument_news events =
     group_by (\<lambda>e. the (ev_instrument_id e)) (\<lambda>e. e)
       (filter (\<lambda>e. ev_kind e \<noteq> MACRO \<and> ev_instrument_id e \<noteq> None) events)"

definition event_index_init ::
    "feature_event list \<Rightarrow> event_coverage list option \<Rightarrow> ustr option \<Rightarrow> dataset_error + event_index" where
  "event_index_init events coverage authenticated =
     (if MAX_EVENTS < length events \<or> card (set (map ev_record_id events)) \<noteq> length events
      then Inl (dataset_error INVALID_CONFIGURATION ''event count or identity is invalid'')
      else
      bind_result (inferred_coverage events) (\<lambda>inferred.
      let supplied = (case coverage of None \<Rightarrow> inferred | Some c \<Rightarrow> c) in
      if MAX_EVENT_COVERAGE < length supplied
      then Inl (dataset_error INVALID_CONFIGURATION ''event coverage count exceeds its bound'')
      else
      let ordered = sort_key (\<lambda>c. (event_kind_value (ec_kind c), ec_source_id c, ec_start_time_ns c, ec_end_time_ns c))
            supplied in
      bind_result (dataset_py (json_digest (JObj
          [(lit ''coverage'', JArr (map coverage_json ordered)),
           (lit ''events'', JArr (map event_json (sort_key ev_record_id events)))]))) (\<lambda>content.
      case (case authenticated of None \<Rightarrow> None
              | Some digest \<Rightarrow> dataset_require_sha256 digest ''authenticated event snapshot SHA-256'') of
        Some e \<Rightarrow> Inl e
      | None \<Rightarrow> Inr
          \<lparr>ei_news = map (\<lambda>(i, es). (i, interval_index_init es)) (instrument_news events),
           ei_macro = interval_index_init (filter (\<lambda>e. ev_kind e = MACRO) events),
           ei_coverage = ordered,
           ei_sha256 = (case authenticated of None \<Rightarrow> content | Some digest \<Rightarrow> if digest = [] then content else digest),
           ei_content_sha256 = content\<rparr>)))"

record active_events =
  ae_news :: "bool option"
  ae_macro :: "bool option"
  ae_ids :: "ustr list"
  ae_available_at_ns :: int

definition kind_covered :: "event_index \<Rightarrow> feature_event_kind \<Rightarrow> int \<Rightarrow> bool" where
  "kind_covered index kind as_of \<longleftrightarrow> (\<exists>c \<in> set (ei_coverage index). ec_kind c = kind \<and> coverage_covers c as_of)"

definition event_index_active :: "event_index \<Rightarrow> ustr \<Rightarrow> int \<Rightarrow> active_events" where
  "event_index_active index instrument_id as_of =
     (let news_covered = kind_covered index NEWS as_of;
          macro_covered = kind_covered index MACRO as_of;
          news = (case map_of (ei_news index) instrument_id of
                    None \<Rightarrow> [] | Some ix \<Rightarrow> if news_covered then interval_active ix as_of else []);
          macro = (if macro_covered then interval_active (ei_macro index) as_of else []);
          selected = news @ macro
      in \<lparr>ae_news = (if news_covered then Some (news \<noteq> []) else None),
          ae_macro = (if macro_covered then Some (macro \<noteq> []) else None),
          ae_ids = sort (map ev_record_id selected),
          ae_available_at_ns = (if selected = [] then 0 else Max (set (map ev_available_at_ns selected)))\<rparr>)"

section \<open>Canonical sources\<close>

record canonical_source =
  src_instrument_ids :: "ustr list"
  src_iter_instrument :: "ustr \<Rightarrow> minute_record list \<times> dataset_error option"

record in_memory_source =
  ims_records :: "(ustr \<times> minute_record list) list"
  ims_record_count :: nat
  ims_source_partition_ids :: "ustr list"

definition order_minutes :: "ustr \<times> minute_record list \<Rightarrow> dataset_error + (ustr \<times> minute_record list)" where
  "order_minutes g =
     (case g of (instrument_id, records) \<Rightarrow>
        let ordered = sort_key cm_minute_end records
        in if \<not> distinct (map cm_minute_end ordered)
           then Inl (DatasetBuildError DUPLICATE_MINUTE (lit ''duplicate canonical minute for '' @ instrument_id))
           else Inr (instrument_id, ordered))"

definition in_memory_source_init ::
    "minute_record list \<Rightarrow> int \<Rightarrow> ustr list \<Rightarrow> dataset_error + in_memory_source" where
  "in_memory_source_init records maximum_records source_partition_ids =
     (if maximum_records \<le> 0
      then Inl (dataset_error INVALID_CONFIGURATION ''source record bound must be positive'')
      else if maximum_records < int (length records)
      then Inl (dataset_error STORAGE_LIMIT ''source record bound is exceeded'')
      else
      bind_result (map_list_result order_minutes (group_by cm_instrument_id (\<lambda>r. r) records)) (\<lambda>normalized.
      if source_partition_ids = [] \<or> \<not> distinct source_partition_ids
      then Inl (dataset_error INVALID_CONFIGURATION ''source partition identities are invalid'')
      else case first_error (map (\<lambda>identifier. dataset_require_text identifier ''source_partition_id'') source_partition_ids) of
        Some e \<Rightarrow> Inl e
      | None \<Rightarrow> Inr \<lparr>ims_records = normalized, ims_record_count = length records,
                    ims_source_partition_ids = sort source_partition_ids\<rparr>))"

definition as_canonical_source :: "in_memory_source \<Rightarrow> canonical_source" where
  "as_canonical_source s =
     \<lparr>src_instrument_ids = sort (map fst (ims_records s)),
      src_iter_instrument = (\<lambda>instrument_id. (group_of (ims_records s) instrument_id, None))\<rparr>"

section \<open>The split plan\<close>

record split_plan =
  sp_session_splits :: "(ustr \<times> ustr) list"
  sp_train_sessions :: "ustr list"
  sp_validation_sessions :: "ustr list"
  sp_test_sessions :: "ustr list"
  sp_first_purge_sessions :: "ustr list"
  sp_second_purge_sessions :: "ustr list"

definition TRAIN :: ustr where "TRAIN = lit ''TRAIN''"
definition VALIDATION :: ustr where "VALIDATION = lit ''VALIDATION''"
definition TEST :: ustr where "TEST = lit ''TEST''"

text \<open>\<open>xs[i:j]\<close> for \<open>0 \<le> i \<le> j\<close>.\<close>

definition slice :: "'a list \<Rightarrow> nat \<Rightarrow> nat \<Rightarrow> 'a list" where
  "slice xs i j = drop i (take j xs)"

text \<open>The sessions are distinct, so the three \<open>dict.fromkeys\<close> the assignments are merged from have no key in common.\<close>

definition build_split_plan :: "ustr list \<Rightarrow> dataset_error + split_plan" where
  "build_split_plan observed =
     (if \<not> distinct observed
      then Inl (dataset_error NON_CHRONOLOGICAL_SPLIT ''observed sessions repeat identity'')
      else let usable = int (length observed) - 2 * int PURGE_SESSIONS
      in if usable < MINIMUM_USABLE_SPLIT_SESSIONS
         then Inl (dataset_error INSUFFICIENT_SPLIT_SESSIONS ''at least 87 observed sessions are required'')
         else let train_count = nat (min (max 1 (usable * 70 div 100)) (usable - 2));
                  validation_count = nat (min (max 1 (usable * 15 div 100)) (usable - int train_count - 1));
                  test_count = nat usable - train_count - validation_count;
                  validation_start = train_count + PURGE_SESSIONS;
                  second_purge_start = validation_start + validation_count;
                  test_start = second_purge_start + PURGE_SESSIONS;
                  train = take train_count observed;
                  first_purge = slice observed train_count validation_start;
                  validation = slice observed validation_start second_purge_start;
                  second_purge = slice observed second_purge_start test_start;
                  test = slice observed test_start (test_start + test_count)
              in Inr \<lparr>sp_session_splits = map (\<lambda>s. (s, TRAIN)) train @ map (\<lambda>s. (s, VALIDATION)) validation @
                        map (\<lambda>s. (s, TEST)) test,
                      sp_train_sessions = train, sp_validation_sessions = validation, sp_test_sessions = test,
                      sp_first_purge_sessions = first_purge, sp_second_purge_sessions = second_purge\<rparr>)"

end
