(* ===== verification/Feature_Dataset.thy ===== *)
theory Feature_Dataset
  imports Feature_Index
begin

text \<open>
  The feature dataset builder of \<open>python/research/aegis_mx_research/feature_dataset.py\<close>: labels, samples, session
  summaries, normalization statistics, label coverage, the leakage scan and \<open>FeatureDatasetBuilder\<close>.

  \<^item> Generators are the lists they yield; an exception on the way is the result of the whole iteration.
  \<^item> The builder's dictionary of horizon targets per endpoint is explicit state (\<open>target_cache\<close>), threaded through
    \<open>horizon_targets\<close>, \<open>build_labels\<close> and \<open>iter_samples\<close>.
  \<^item> A running SHA-256 is the bytes fed to it so far, digested when the summary is frozen.
\<close>

section \<open>Constants\<close>

definition FEATURE_NAMES :: "ustr list" where
  "FEATURE_NAMES = map lit
     [''return_1m_ppm'', ''return_5m_ppm'', ''return_15m_ppm'', ''return_30m_ppm'', ''return_60m_ppm'',
      ''volume_shares'', ''relative_volume_20m_ppm'', ''realized_volatility_30m_ppm'', ''high_low_range_ppm'',
      ''intraday_gap_ppm'', ''minute_of_session'', ''session_position_ppm'', ''market_return_1m_ppm'',
      ''market_relative_return_1m_ppm'', ''sector_return_1m_ppm'', ''sector_relative_return_1m_ppm'',
      ''rolling_session_return_5d_ppm'', ''rolling_session_volume_5d_shares'', ''news_event_flag'',
      ''macro_event_flag'', ''data_quality_valid_flag'', ''data_quality_reason_count'']"

definition RETURN_WINDOWS :: "int list" where "RETURN_WINDOWS = [1, 5, 15, 30, 60]"
definition RELATIVE_VOLUME_WINDOW :: nat where "RELATIVE_VOLUME_WINDOW = 20"
definition REALIZED_VOLATILITY_WINDOW :: nat where "REALIZED_VOLATILITY_WINDOW = 30"
definition ROLLING_SESSION_WINDOW :: nat where "ROLLING_SESSION_WINDOW = 5"
definition MAX_AGGREGATE_POINTS :: nat where "MAX_AGGREGATE_POINTS = 5000000"
definition DATASET_SEED :: int where "DATASET_SEED = 20260831"
definition FEATURE_RECORD_SCHEMA_VERSION :: ustr where "FEATURE_RECORD_SCHEMA_VERSION = lit ''1.0.0''"
definition SESSION_SUMMARY_SCHEMA_VERSION :: ustr where "SESSION_SUMMARY_SCHEMA_VERSION = lit ''1.0.0''"

datatype feature_validity = FEATURE_VALID | FEATURE_DEGRADED | FEATURE_WARMUP

datatype label_validity = LABEL_VALID | LABEL_MISSING | LABEL_INVALID

fun label_validity_value :: "label_validity \<Rightarrow> ustr" where
  "label_validity_value LABEL_VALID = lit ''VALID''"
| "label_validity_value LABEL_MISSING = lit ''MISSING''"
| "label_validity_value LABEL_INVALID = lit ''INVALID''"

section \<open>Labels and samples\<close>

record feature_label =
  fl_horizon :: ustr
  fl_target_time_ns :: "int option"
  fl_return_ppm :: "int option"
  fl_direction :: "int option"
  fl_future_price_ticks :: "int option"
  fl_corporate_action_version :: ustr
  fl_validity :: label_validity
  fl_missing_reason :: "ustr option"

definition feature_label_post_init :: "feature_label \<Rightarrow> dataset_error option" where
  "feature_label_post_init l = first_error
     [raise_if (fl_horizon l \<notin> set REQUIRED_HORIZON_LABELS)
        (dataset_error INVALID_CONFIGURATION ''unknown label horizon''),
      (if fl_validity l = LABEL_VALID
       then raise_if (fl_target_time_ns l = None \<or> fl_return_ppm l = None \<or> fl_direction l = None \<or>
                fl_future_price_ticks l = None \<or> fl_direction l \<notin> {Some (- 1), Some 0, Some 1} \<or>
                fl_missing_reason l \<noteq> None)
              (dataset_error CORRUPT_CANONICAL_INPUT ''valid label is incomplete'')
       else raise_if (fl_return_ppm l \<noteq> None \<or> fl_direction l \<noteq> None \<or> fl_future_price_ticks l \<noteq> None \<or>
                fl_missing_reason l = None)
              (dataset_error CORRUPT_CANONICAL_INPUT ''non-valid label carries a target value or lacks a reason'')),
      dataset_require_sha256 (fl_corporate_action_version l) ''corporate_action_version'']"

record feature_sample =
  fs_sample_id :: ustr
  fs_split :: ustr
  fs_instrument_id :: ustr
  fs_source_ticker :: ustr
  fs_session_id :: ustr
  fs_trading_date :: ustr
  fs_as_of_ns :: int
  fs_knowledge_cutoff_ns :: int
  fs_feature_start_ns :: int
  fs_feature_end_ns :: int
  fs_raw_features :: "int option list"
  fs_normalized_features_ppm :: "int option list"
  fs_feature_validity :: feature_validity
  fs_feature_reason_codes :: "ustr list"
  fs_advisory_event_ids :: "ustr list"
  fs_max_event_availability_ns :: int
  fs_source_record_sha256 :: ustr
  fs_labels :: "feature_label list"
  fs_schema_version :: ustr

text \<open>\<open>cast("int", label.target_exchange_time_ns)\<close> is only compared for valid labels, which carry a target.\<close>

definition label_overlaps :: "int \<Rightarrow> feature_label \<Rightarrow> bool" where
  "label_overlaps feature_end l \<longleftrightarrow> fl_validity l = LABEL_VALID \<and> the (fl_target_time_ns l) \<le> feature_end"

definition feature_sample_post_init :: "feature_sample \<Rightarrow> dataset_error option" where
  "feature_sample_post_init s = first_error
     [raise_if (fs_split s \<notin> {TRAIN, VALIDATION, TEST})
        (dataset_error NON_CHRONOLOGICAL_SPLIT ''sample split is invalid''),
      raise_if (length (fs_raw_features s) \<noteq> length FEATURE_NAMES \<or>
                length (fs_normalized_features_ppm s) \<noteq> length FEATURE_NAMES)
        (dataset_error CORRUPT_CANONICAL_INPUT ''feature vector does not match its schema''),
      raise_if (map fl_horizon (fs_labels s) \<noteq> REQUIRED_HORIZON_LABELS)
        (dataset_error CORRUPT_CANONICAL_INPUT ''label vector is not in canonical horizon order''),
      raise_if (\<exists>l \<in> set (fs_labels s). label_overlaps (fs_feature_end_ns s) l)
        (dataset_error LABEL_FEATURE_OVERLAP ''a label target overlaps its feature interval''),
      raise_if (\<not> (0 < fs_feature_start_ns s \<and> fs_feature_start_ns s \<le> fs_feature_end_ns s \<and>
                   fs_feature_end_ns s = fs_as_of_ns s \<and> fs_as_of_ns s \<le> MAX_INT64))
        (dataset_error LABEL_FEATURE_OVERLAP ''feature interval is inconsistent with its cutoff''),
      raise_if (fs_knowledge_cutoff_ns s < fs_max_event_availability_ns s)
        (dataset_error FUTURE_EVENT_REVISION ''feature row uses a future event revision''),
      dataset_require_sha256 (fs_sample_id s) ''sample_id'',
      dataset_require_sha256 (fs_source_record_sha256 s) ''source_record_sha256'']"

section \<open>Session summaries\<close>

record session_summary =
  ss_instrument_id :: ustr
  ss_source_ticker :: ustr
  ss_session_id :: ustr
  ss_trading_date :: ustr
  ss_open_ticks :: int
  ss_high_ticks :: int
  ss_low_ticks :: int
  ss_close_ticks :: int
  ss_volume_shares :: int
  ss_observed_minutes :: int
  ss_expected_minutes :: int
  ss_data_quality_state :: feature_validity
  ss_source_record_sequence_sha256 :: ustr
  ss_schema_version :: ustr

record mutable_summary =
  ms_instrument_id :: ustr
  ms_source_ticker :: ustr
  ms_session_id :: ustr
  ms_trading_date :: ustr
  ms_open_ticks :: int
  ms_high_ticks :: int
  ms_low_ticks :: int
  ms_close_ticks :: int
  ms_volume_shares :: int
  ms_observed_minutes :: int
  ms_expected_minutes :: int
  ms_degraded :: bool
  ms_sequence :: bytes

definition record_hash_bytes :: "minute_record \<Rightarrow> dataset_error + bytes" where
  "record_hash_bytes r = (case bytes_fromhex (cm_record_sha256 r) of
     None \<Rightarrow> Inl (Dataset_PyError (ValueError ''non-hexadecimal number found in fromhex() arg''))
   | Some bs \<Rightarrow> Inr bs)"

definition summary_start :: "minute_record \<Rightarrow> dataset_error + mutable_summary" where
  "summary_start r = map_result (\<lambda>hash.
     \<lparr>ms_instrument_id = cm_instrument_id r, ms_source_ticker = cm_source_ticker r, ms_session_id = cm_session_id r,
      ms_trading_date = isoformat (cm_trading_date r), ms_open_ticks = cm_open_ticks r,
      ms_high_ticks = cm_high_ticks r, ms_low_ticks = cm_low_ticks r, ms_close_ticks = cm_close_ticks r,
      ms_volume_shares = cm_volume_shares r, ms_observed_minutes = 1,
      ms_expected_minutes = (cm_session_close r - cm_session_open r) div MINUTE_NS,
      ms_degraded = (cm_data_quality_state r = QUALITY_DEGRADED), ms_sequence = hash\<rparr>) (record_hash_bytes r)"

definition summary_add :: "minute_record \<Rightarrow> mutable_summary \<Rightarrow> dataset_error + mutable_summary" where
  "summary_add r m =
     bind_result (checked_int64 (ms_volume_shares m + cm_volume_shares r) ''session volume'' True) (\<lambda>volume.
     map_result (\<lambda>hash. m\<lparr>ms_high_ticks := max (ms_high_ticks m) (cm_high_ticks r),
         ms_low_ticks := min (ms_low_ticks m) (cm_low_ticks r),
         ms_close_ticks := cm_close_ticks r,
         ms_volume_shares := volume,
         ms_observed_minutes := ms_observed_minutes m + 1,
         ms_degraded := (ms_degraded m \<or> cm_data_quality_state r = QUALITY_DEGRADED),
         ms_sequence := ms_sequence m @ hash\<rparr>) (record_hash_bytes r))"

definition summary_freeze :: "mutable_summary \<Rightarrow> session_summary" where
  "summary_freeze m =
     \<lparr>ss_instrument_id = ms_instrument_id m, ss_source_ticker = ms_source_ticker m, ss_session_id = ms_session_id m,
      ss_trading_date = ms_trading_date m, ss_open_ticks = ms_open_ticks m, ss_high_ticks = ms_high_ticks m,
      ss_low_ticks = ms_low_ticks m, ss_close_ticks = ms_close_ticks m, ss_volume_shares = ms_volume_shares m,
      ss_observed_minutes = ms_observed_minutes m, ss_expected_minutes = ms_expected_minutes m,
      ss_data_quality_state =
        (if \<not> ms_degraded m \<and> ms_observed_minutes m = ms_expected_minutes m then FEATURE_VALID else FEATURE_DEGRADED),
      ss_source_record_sequence_sha256 = bytes_hex (sha256 (ms_sequence m)),
      ss_schema_version = SESSION_SUMMARY_SCHEMA_VERSION\<rparr>"

text \<open>The loop of \<open>_summaries_for_records\<close> and \<open>session_summaries\<close>, over the open summary and the frozen ones.\<close>

definition summary_step ::
    "minute_record \<Rightarrow> mutable_summary option \<times> session_summary list \<Rightarrow>
     dataset_error + (mutable_summary option \<times> session_summary list)" where
  "summary_step r st =
     (case st of (current, summaries) \<Rightarrow>
        case current of
          None \<Rightarrow> map_result (\<lambda>m. (Some m, summaries)) (summary_start r)
        | Some m \<Rightarrow>
            if ms_session_id m \<noteq> cm_session_id r
            then map_result (\<lambda>m'. (Some m', summaries @ [summary_freeze m])) (summary_start r)
            else map_result (\<lambda>m'. (Some m', summaries)) (summary_add r m))"

definition summaries_for_records :: "minute_record list \<Rightarrow> dataset_error + session_summary list" where
  "summaries_for_records records =
     map_result (\<lambda>(current, summaries).
        case current of None \<Rightarrow> summaries | Some m \<Rightarrow> summaries @ [summary_freeze m])
       (fold_result summary_step records (None, []))"

section \<open>Normalization\<close>

record normalization_stat =
  ns_feature_name :: ustr
  ns_count :: int
  ns_total :: int
  ns_sum_squares :: int
  ns_maximum_fit_ns :: int

definition stat_normalize :: "normalization_stat \<Rightarrow> int option \<Rightarrow> dataset_error + int option" where
  "stat_normalize s value =
     (case value of
        None \<Rightarrow> Inr None
      | Some v \<Rightarrow>
          if ns_count s \<le> 0 then Inr None
          else let centered = v * ns_count s - ns_total s;
                   variance_numerator = ns_sum_squares s * ns_count s - ns_total s * ns_total s
               in if variance_numerator \<le> 0 then Inr (Some 0)
                  else bind_result (divide_round_half_away (centered * PPM_SCALE) (isqrt variance_numerator))
                    (\<lambda>z. map_result Some (checked_int64 z ''normalized_feature_ppm'' False)))"

record stat_accumulator =
  sa_count :: int
  sa_total :: int
  sa_sum_squares :: int
  sa_maximum_time_ns :: int

definition stat_empty :: stat_accumulator where
  "stat_empty = \<lparr>sa_count = 0, sa_total = 0, sa_sum_squares = 0, sa_maximum_time_ns = 0\<rparr>"

definition stat_add :: "int \<Rightarrow> stat_accumulator \<Rightarrow> int option \<Rightarrow> stat_accumulator" where
  "stat_add as_of a value =
     (case value of
        None \<Rightarrow> a
      | Some v \<Rightarrow> \<lparr>sa_count = sa_count a + 1, sa_total = sa_total a + v, sa_sum_squares = sa_sum_squares a + v * v,
                   sa_maximum_time_ns = max (sa_maximum_time_ns a) as_of\<rparr>)"

text \<open>\<open>zip(..., strict=True)\<close> over the accumulators and one feature vector.\<close>

definition add_features ::
    "int \<Rightarrow> int option list \<Rightarrow> stat_accumulator list \<Rightarrow> dataset_error + stat_accumulator list" where
  "add_features as_of raw accumulators =
     (if length accumulators \<noteq> length raw
      then Inl (Dataset_PyError (ValueError ''zip() argument 2 is not as long as argument 1''))
      else Inr (map2 (stat_add as_of) accumulators raw))"

definition freeze_normalization :: "stat_accumulator list \<Rightarrow> normalization_stat list" where
  "freeze_normalization accumulators =
     map2 (\<lambda>name a. \<lparr>ns_feature_name = name, ns_count = sa_count a, ns_total = sa_total a,
       ns_sum_squares = sa_sum_squares a, ns_maximum_fit_ns = sa_maximum_time_ns a\<rparr>) FEATURE_NAMES accumulators"

definition fit_normalization :: "feature_sample list \<Rightarrow> dataset_error + normalization_stat list" where
  "fit_normalization samples = map_result freeze_normalization
     (fold_result (\<lambda>s accumulators.
         if fs_split s \<noteq> TRAIN
         then Inl (dataset_error NORMALIZATION_LEAKAGE ''normalization input includes a non-TRAIN row'')
         else add_features (fs_as_of_ns s) (fs_raw_features s) accumulators)
       samples (map (\<lambda>_. stat_empty) FEATURE_NAMES))"

section \<open>The leakage scan\<close>

record dataset_leakage_report =
  lr_checked_samples :: nat
  lr_violations :: "ustr list"
  lr_status :: ustr

definition sample_violations :: "split_plan \<Rightarrow> feature_sample \<Rightarrow> dataset_code list" where
  "sample_violations plan s =
     (if map_of (sp_session_splits plan) (fs_session_id s) \<noteq> Some (fs_split s) then [NON_CHRONOLOGICAL_SPLIT] else []) @
     (if fs_feature_end_ns s \<noteq> fs_as_of_ns s then [LABEL_FEATURE_OVERLAP] else []) @
     (if fs_knowledge_cutoff_ns s < fs_max_event_availability_ns s then [FUTURE_EVENT_REVISION] else []) @
     concat (map (\<lambda>l. if label_overlaps (fs_feature_end_ns s) l then [LABEL_FEATURE_OVERLAP] else []) (fs_labels s))"

definition train_cutoff_session :: "split_plan \<Rightarrow> ustr" where
  "train_cutoff_session plan = (if sp_train_sessions plan = [] then [] else last (sp_train_sessions plan))"

definition train_cutoff :: "split_plan \<Rightarrow> feature_sample list \<Rightarrow> int" where
  "train_cutoff plan samples =
     fold (\<lambda>s cutoff. if fs_session_id s = train_cutoff_session plan then max cutoff (fs_as_of_ns s) else cutoff) samples 0"

definition validate_leakage ::
    "feature_sample list \<Rightarrow> split_plan \<Rightarrow> normalization_stat list \<Rightarrow> dataset_leakage_report" where
  "validate_leakage samples plan normalization =
     (let violations = concat (map (sample_violations plan) samples) @
            (if length (sp_first_purge_sessions plan) \<noteq> PURGE_SESSIONS \<or>
                length (sp_second_purge_sessions plan) \<noteq> PURGE_SESSIONS
             then [PURGE_EMBARGO_VIOLATION] else []) @
            (if \<exists>stat \<in> set normalization. train_cutoff plan samples < ns_maximum_fit_ns stat
             then [NORMALIZATION_LEAKAGE] else []);
          unique = sort (remdups (map dataset_code_value violations))
      in \<lparr>lr_checked_samples = length samples, lr_violations = unique,
          lr_status = (if unique = [] then lit ''PASS'' else lit ''REJECTED'')\<rparr>)"

section \<open>Label coverage\<close>

record coverage_counts =
  cc_instrument_id :: "ustr option"
  cc_resolution_code :: ustr
  cc_samples :: nat
  cc_valid :: nat
  cc_missing :: nat
  cc_invalid :: nat
  cc_reason_counts :: "(ustr \<times> nat) list"

record label_coverage =
  lc_symbol :: ustr
  lc_instrument_id :: "ustr option"
  lc_resolution_code :: ustr
  lc_horizon :: ustr
  lc_samples :: nat
  lc_valid :: nat
  lc_missing :: nat
  lc_invalid :: nat
  lc_reason_counts :: "(ustr \<times> nat) list"

record coverage_accumulator =
  ca_entry_by_instrument :: "(ustr \<times> universe_entry) list"
  ca_counts :: "((ustr \<times> ustr) \<times> coverage_counts) list"

fun resolution_code_name :: "instrument_resolution_code \<Rightarrow> ustr" where
  "resolution_code_name RESOLVED = lit ''RESOLVED''"
| "resolution_code_name UNSUPPORTED = lit ''UNSUPPORTED''"
| "resolution_code_name AMBIGUOUS_REFERENCE = lit ''AMBIGUOUS_REFERENCE''"
| "resolution_code_name RECENTLY_LISTED = lit ''RECENTLY_LISTED''"
| "resolution_code_name MISSING_REFERENCE_DATA = lit ''MISSING_REFERENCE_DATA''"
| "resolution_code_name DELISTED = lit ''DELISTED''"

definition initial_counts :: "universe_entry \<Rightarrow> coverage_counts" where
  "initial_counts e =
     \<lparr>cc_instrument_id = map_option identifier_hex (entry_instrument_id e),
      cc_resolution_code = resolution_code_name (resolution_code e),
      cc_samples = 0, cc_valid = 0, cc_missing = 0, cc_invalid = 0,
      cc_reason_counts =
        [(if entry_instrument_id e \<noteq> None then dataset_code_value MISSING_CANONICAL_DATA
          else resolution_code_name (resolution_code e), 1)]\<rparr>"

definition coverage_init :: "universe_snapshot \<Rightarrow> coverage_accumulator" where
  "coverage_init universe =
     \<lparr>ca_entry_by_instrument = fold (\<lambda>e d. case entry_instrument_id e of
          None \<Rightarrow> d | Some i \<Rightarrow> AList.update (identifier_hex i) e d) (us_ordered_entries universe) [],
      ca_counts = fold (\<lambda>e d. fold (\<lambda>h. AList.update (entry_symbol e, h) (initial_counts e)) REQUIRED_HORIZON_LABELS d)
          (us_ordered_entries universe) []\<rparr>"

definition count_reason :: "ustr \<Rightarrow> (ustr \<times> nat) list \<Rightarrow> (ustr \<times> nat) list" where
  "count_reason reason counts =
     AList.update reason ((case map_of counts reason of None \<Rightarrow> 0 | Some n \<Rightarrow> n) + 1) counts"

definition count_label :: "feature_label \<Rightarrow> coverage_counts \<Rightarrow> coverage_counts" where
  "count_label l c =
     (let samples = cc_samples c + 1;
          reasons = (if samples = 1 then [] else cc_reason_counts c)
      in c\<lparr>cc_samples := samples,
          cc_valid := cc_valid c + (if fl_validity l = LABEL_VALID then 1 else 0),
          cc_missing := cc_missing c + (if fl_validity l = LABEL_MISSING then 1 else 0),
          cc_invalid := cc_invalid c + (if fl_validity l = LABEL_INVALID then 1 else 0),
          cc_reason_counts := (case fl_missing_reason l of None \<Rightarrow> reasons | Some r \<Rightarrow> count_reason r reasons)\<rparr>)"

definition coverage_add_label ::
    "ustr \<Rightarrow> feature_label \<Rightarrow> ((ustr \<times> ustr) \<times> coverage_counts) list \<Rightarrow>
     dataset_error + ((ustr \<times> ustr) \<times> coverage_counts) list" where
  "coverage_add_label symbol l counts =
     (case map_of counts (symbol, fl_horizon l) of
        None \<Rightarrow> Inl (Dataset_PyError KeyError)
      | Some c \<Rightarrow> Inr (AList.update (symbol, fl_horizon l) (count_label l c) counts))"

definition coverage_add :: "feature_sample \<Rightarrow> coverage_accumulator \<Rightarrow> dataset_error + coverage_accumulator" where
  "coverage_add s acc =
     (case map_of (ca_entry_by_instrument acc) (fs_instrument_id s) of
        None \<Rightarrow> Inl (dataset_error UNRESOLVED_INSTRUMENT ''sample instrument is outside the universe'')
      | Some e \<Rightarrow> map_result (\<lambda>counts. acc\<lparr>ca_counts := counts\<rparr>)
          (fold_result (coverage_add_label (entry_symbol e)) (fs_labels s) (ca_counts acc)))"

definition freeze_counts :: "ustr \<Rightarrow> ustr \<Rightarrow> coverage_counts \<Rightarrow> label_coverage" where
  "freeze_counts symbol horizon c =
     \<lparr>lc_symbol = symbol, lc_instrument_id = cc_instrument_id c, lc_resolution_code = cc_resolution_code c,
      lc_horizon = horizon, lc_samples = cc_samples c, lc_valid = cc_valid c, lc_missing = cc_missing c,
      lc_invalid = cc_invalid c, lc_reason_counts = sort (cc_reason_counts c)\<rparr>"

definition coverage_freeze :: "universe_snapshot \<Rightarrow> coverage_accumulator \<Rightarrow> label_coverage list" where
  "coverage_freeze universe acc =
     concat (map (\<lambda>e. map (\<lambda>h. freeze_counts (entry_symbol e) h (the (map_of (ca_counts acc) (entry_symbol e, h))))
       REQUIRED_HORIZON_LABELS) (us_ordered_entries universe))"

definition build_label_coverage ::
    "universe_snapshot \<Rightarrow> feature_sample list \<Rightarrow> dataset_error + label_coverage list" where
  "build_label_coverage universe samples =
     map_result (coverage_freeze universe) (fold_result coverage_add samples (coverage_init universe))"

section \<open>The builder\<close>

record feature_builder =
  fb_universe :: universe_snapshot
  fb_calendar :: exchange_calendar
  fb_sectors :: sector_index
  fb_events :: event_index
  fb_horizons :: "horizon_spec list"
  fb_maximum_records :: int
  fb_session_by_id :: "(ustr \<times> trading_session) list"
  fb_resolved :: "(ustr \<times> universe_entry) list"

definition builder_init ::
    "universe_snapshot \<Rightarrow> exchange_calendar \<Rightarrow> sector_index option \<Rightarrow> event_index option \<Rightarrow> int \<Rightarrow>
     dataset_error + feature_builder" where
  "builder_init universe calendar sectors events maximum_records_per_instrument =
     (if maximum_records_per_instrument \<le> 0
      then Inl (dataset_error INVALID_CONFIGURATION ''per-instrument record bound must be positive'')
      else
      bind_result (case sectors of None \<Rightarrow> sector_index_init [] | Some s \<Rightarrow> Inr s) (\<lambda>sectors.
      bind_result (case events of None \<Rightarrow> event_index_init [] None None | Some e \<Rightarrow> Inr e) (\<lambda>events.
      case required_horizon_specs (calendar_version calendar) PAUSE of
        Inl e \<Rightarrow> Inl (Dataset_Horizon e)
      | Inr horizons \<Rightarrow> Inr
          \<lparr>fb_universe = universe, fb_calendar = calendar, fb_sectors = sectors, fb_events = events,
           fb_horizons = horizons, fb_maximum_records = maximum_records_per_instrument,
           fb_session_by_id = collect_last session_id (sessions calendar),
           fb_resolved = collect_last (\<lambda>e. identifier_hex (the (entry_instrument_id e)))
             (filter (\<lambda>e. resolution_code e = RESOLVED \<and> entry_instrument_id e \<noteq> None)
               (us_ordered_entries universe))\<rparr>)))"

definition record_conflict :: "feature_builder \<Rightarrow> minute_record \<Rightarrow> dataset_error + bool" where
  "record_conflict b r =
     (case map_of (fb_session_by_id b) (cm_session_id r) of
        None \<Rightarrow> Inr True
      | Some session \<Rightarrow>
          if cm_session_open r \<noteq> session_open session \<or> cm_session_close r \<noteq> session_close session \<or>
             \<not> (session_open session < cm_minute_end r \<and> cm_minute_end r \<le> session_close session) \<or>
             cm_minute_start r + MINUTE_NS \<noteq> cm_minute_end r \<or>
             cm_source_availability_time_ns r < cm_minute_end r \<or>
             cm_local_receipt_time_ns r < cm_source_availability_time_ns r \<or>
             cm_local_processing_time_ns r < cm_local_receipt_time_ns r \<or>
             (case cm_source_publication_time_ns r of None \<Rightarrow> False
                | Some t \<Rightarrow> cm_source_availability_time_ns r < t)
          then Inr True
          else map_result (\<lambda>digest. digest \<noteq> cm_record_sha256 r) (dataset_py (record_digest r)))"

definition admit_record ::
    "feature_builder \<Rightarrow> ustr \<Rightarrow> minute_record \<Rightarrow> int \<times> int set \<times> minute_record list \<Rightarrow>
     dataset_error + (int \<times> int set \<times> minute_record list)" where
  "admit_record b instrument_id r st =
     (case st of (previous, endpoints, records) \<Rightarrow>
        if fb_maximum_records b \<le> int (length records)
        then Inl (dataset_error STORAGE_LIMIT ''per-instrument canonical record bound is exceeded'')
        else if cm_instrument_id r \<noteq> instrument_id
        then Inl (dataset_error CORRUPT_CANONICAL_INPUT ''source emitted the wrong instrument'')
        else if cm_minute_end r \<in> endpoints
        then Inl (dataset_error DUPLICATE_MINUTE ''canonical minute repeats'')
        else if cm_minute_end r \<le> previous
        then Inl (dataset_error NON_CHRONOLOGICAL_INPUT ''canonical minutes are not chronological'')
        else bind_result (record_conflict b r) (\<lambda>conflict.
          if conflict
          then Inl (dataset_error CORRUPT_CANONICAL_INPUT ''canonical row conflicts with calendar or record hash'')
          else Inr (cm_minute_end r, insert (cm_minute_end r) endpoints, records @ [r])))"

definition builder_records ::
    "feature_builder \<Rightarrow> canonical_source \<Rightarrow> ustr \<Rightarrow> dataset_error + minute_record list" where
  "builder_records b source instrument_id =
     (case src_iter_instrument source instrument_id of (emitted, failure) \<Rightarrow>
        bind_result (fold_result (admit_record b instrument_id) emitted (0, {}, [])) (\<lambda>(previous, endpoints, records).
          case failure of None \<Rightarrow> Inr records | Some e \<Rightarrow> Inl e))"

definition observe_instrument ::
    "feature_builder \<Rightarrow> canonical_source \<Rightarrow> ustr \<Rightarrow> ustr set \<Rightarrow> dataset_error + ustr set" where
  "observe_instrument b source instrument_id observed =
     (if map_of (fb_resolved b) instrument_id = None
      then Inl (dataset_error UNRESOLVED_INSTRUMENT ''canonical source includes an instrument outside the universe'')
      else map_result (\<lambda>records. observed \<union> set (map cm_session_id records)) (builder_records b source instrument_id))"

definition observed_sessions :: "feature_builder \<Rightarrow> canonical_source \<Rightarrow> dataset_error + ustr list" where
  "observed_sessions b source =
     map_result (\<lambda>observed. filter (\<lambda>s. s \<in> observed) (map session_id (sessions (fb_calendar b))))
       (fold_result (observe_instrument b source) (src_instrument_ids source) {})"

definition builder_session_summaries ::
    "feature_builder \<Rightarrow> canonical_source \<Rightarrow> dataset_error + session_summary list" where
  "builder_session_summaries b source =
     map_result concat (map_list_result
       (\<lambda>instrument_id. bind_result (builder_records b source instrument_id) summaries_for_records)
       (src_instrument_ids source))"

section \<open>Cross-sectional aggregates\<close>

record aggregate_point =
  ap_market_return_ppm :: "int option"
  ap_sector_returns_ppm :: "(ustr \<times> int) list"
  ap_market_available_at_ns :: int
  ap_sector_available_at_ns :: "(ustr \<times> int) list"

type_synonym aggregate_sums = "int \<times> int \<times> int"

definition add_point :: "'k \<Rightarrow> int \<Rightarrow> int \<Rightarrow> ('k \<times> aggregate_sums) list \<Rightarrow> ('k \<times> aggregate_sums) list" where
  "add_point k value available d =
     (case (case map_of d k of None \<Rightarrow> (0, 0, 0) | Some point \<Rightarrow> point) of (amount, n, latest) \<Rightarrow>
        AList.update k (amount + value, n + 1, max latest available) d)"

type_synonym aggregate_state =
  "minute_record option \<times> (int \<times> aggregate_sums) list \<times> ((int \<times> ustr) \<times> aggregate_sums) list"

definition aggregate_record ::
    "feature_builder \<Rightarrow> ustr \<Rightarrow> minute_record \<Rightarrow> aggregate_state \<Rightarrow> dataset_error + aggregate_state" where
  "aggregate_record b instrument_id r st =
     (case st of (previous, market, sector) \<Rightarrow>
        case previous of
          None \<Rightarrow> Inr (Some r, market, sector)
        | Some p \<Rightarrow>
            if cm_session_id p = cm_session_id r \<and> cm_minute_end p + MINUTE_NS = cm_minute_end r
            then bind_result (return_ppm (cm_close_ticks r) (cm_close_ticks p)) (\<lambda>value.
              let market' = add_point (cm_minute_end r) value (cm_local_processing_time_ns r) market
              in case sector_at (fb_sectors b) instrument_id (cm_minute_end r) (cm_minute_end r) of
                   None \<Rightarrow> Inr (Some r, market', sector)
                 | Some revision \<Rightarrow> Inr (Some r, market',
                     add_point (cm_minute_end r, sec_sector_id revision) value (cm_local_processing_time_ns r) sector))
            else Inr (Some r, market, sector))"

definition aggregate_instrument ::
    "feature_builder \<Rightarrow> canonical_source \<Rightarrow> ustr \<Rightarrow>
     (int \<times> aggregate_sums) list \<times> ((int \<times> ustr) \<times> aggregate_sums) list \<Rightarrow>
     dataset_error + ((int \<times> aggregate_sums) list \<times> ((int \<times> ustr) \<times> aggregate_sums) list)" where
  "aggregate_instrument b source instrument_id points =
     bind_result (builder_records b source instrument_id) (\<lambda>records.
       map_result snd (fold_result (aggregate_record b instrument_id) records (None, points)))"

definition sector_point ::
    "(int \<times> ustr) \<times> aggregate_sums \<Rightarrow> dataset_error + ((int \<times> ustr) \<times> (int \<times> int))" where
  "sector_point p =
     (case p of (key, amount, n, available) \<Rightarrow>
        map_result (\<lambda>mean. (key, mean, available)) (divide_round_half_away amount n))"

definition points_at :: "((int \<times> ustr) \<times> 'v) list \<Rightarrow> int \<Rightarrow> (ustr \<times> 'v) list" where
  "points_at points endpoint = map (\<lambda>((e, sector_id), v). (sector_id, v)) (filter (\<lambda>((e, _), _). e = endpoint) points)"

definition market_point ::
    "((int \<times> ustr) \<times> (int \<times> int)) list \<Rightarrow> int \<times> aggregate_sums \<Rightarrow> dataset_error + (int \<times> aggregate_point)" where
  "market_point sector_points p =
     (case p of (endpoint, amount, n, available) \<Rightarrow>
        map_result (\<lambda>mean. (endpoint,
          \<lparr>ap_market_return_ppm = Some mean,
           ap_sector_returns_ppm = map (\<lambda>(s, m, a). (s, m)) (points_at sector_points endpoint),
           ap_market_available_at_ns = available,
           ap_sector_available_at_ns = map (\<lambda>(s, m, a). (s, a)) (points_at sector_points endpoint)\<rparr>))
          (divide_round_half_away amount n))"

definition cross_sectional_aggregates ::
    "feature_builder \<Rightarrow> canonical_source \<Rightarrow> dataset_error + (int \<times> aggregate_point) list" where
  "cross_sectional_aggregates b source =
     bind_result (fold_result (aggregate_instrument b source) (src_instrument_ids source) ([], [])) (\<lambda>(market, sector).
       if MAX_AGGREGATE_POINTS < length market + length sector
       then Inl (dataset_error STORAGE_LIMIT ''cross-sectional aggregate point bound is exceeded'')
       else bind_result (map_list_result sector_point sector) (\<lambda>sector_points.
         map_list_result (market_point sector_points) market))"

section \<open>Building labels\<close>

definition corporate_action_version :: "minute_record \<Rightarrow> dataset_error + ustr" where
  "corporate_action_version r = dataset_py (json_digest (JObj
     [(lit ''as_of_exchange_time_ns'', JInt (cm_minute_end r)),
      (lit ''corporate_action_ids'', JArr (map JStr (sort (cm_corporate_action_ids r)))),
      (lit ''instrument_revision_id'', JStr (cm_instrument_revision_id r)),
      (lit ''tick_revision_id'', JStr (cm_tick_revision_id r))]))"

type_synonym horizon_resolution = "int option \<times> ustr option"

type_synonym target_cache = "(int \<times> horizon_resolution list) list"

fun horizon_code_name :: "horizon_error_code \<Rightarrow> ustr" where
  "horizon_code_name INVALID_SPEC = lit ''INVALID_SPEC''"
| "horizon_code_name INVALID_CALENDAR = lit ''INVALID_CALENDAR''"
| "horizon_code_name INVALID_SESSION = lit ''INVALID_SESSION''"
| "horizon_code_name INVALID_HALT = lit ''INVALID_HALT''"
| "horizon_code_name CALENDAR_VERSION_MISMATCH = lit ''CALENDAR_VERSION_MISMATCH''"
| "horizon_code_name INVALID_AS_OF_TIME = lit ''INVALID_AS_OF_TIME''"
| "horizon_code_name HALT_ENCOUNTERED = lit ''HALT_ENCOUNTERED''"
| "horizon_code_name INSUFFICIENT_CALENDAR = lit ''INSUFFICIENT_CALENDAR''"
| "horizon_code_name TIMESTAMP_OVERFLOW = lit ''TIMESTAMP_OVERFLOW''"

definition resolution_of :: "exchange_calendar \<Rightarrow> int \<Rightarrow> horizon_spec \<Rightarrow> horizon_resolution" where
  "resolution_of calendar as_of horizon =
     (case resolve_horizon horizon as_of calendar of
        Inl e \<Rightarrow> (None, Some (horizon_code_name (horizon_code e)))
      | Inr target \<Rightarrow> (Some (ht_target target), None))"

definition horizon_targets ::
    "feature_builder \<Rightarrow> int \<Rightarrow> target_cache \<Rightarrow> dataset_error + (horizon_resolution list \<times> target_cache)" where
  "horizon_targets b as_of cache =
     (case map_of cache as_of of
        Some cached \<Rightarrow> Inr (cached, cache)
      | None \<Rightarrow>
          if MAX_AGGREGATE_POINTS \<le> length cache
          then Inl (dataset_error STORAGE_LIMIT ''horizon target cache point bound is exceeded'')
          else let result = map (resolution_of (fb_calendar b) as_of) (fb_horizons b)
               in Inr (result, cache @ [(as_of, result)]))"

definition missing_label :: "ustr \<Rightarrow> int option \<Rightarrow> ustr \<Rightarrow> label_validity \<Rightarrow> ustr \<Rightarrow> feature_label" where
  "missing_label horizon target action_version validity reason =
     \<lparr>fl_horizon = horizon, fl_target_time_ns = target, fl_return_ppm = None, fl_direction = None,
      fl_future_price_ticks = None, fl_corporate_action_version = action_version, fl_validity = validity,
      fl_missing_reason = Some reason\<rparr>"

definition change_reason :: "minute_record \<Rightarrow> minute_record \<Rightarrow> dataset_code option" where
  "change_reason r target =
     (if cm_tick_revision_id target \<noteq> cm_tick_revision_id r \<or> cm_tick_value_nanos target \<noteq> cm_tick_value_nanos r
      then Some TICK_GRID_CHANGED
      else if cm_corporate_action_ids target \<noteq> cm_corporate_action_ids r
      then Some CORPORATE_ACTION_CHANGED else None)"

definition build_label ::
    "minute_record \<Rightarrow> (int \<rightharpoonup> minute_record) \<Rightarrow> ustr \<Rightarrow> horizon_spec \<times> horizon_resolution \<Rightarrow> dataset_error + feature_label" where
  "build_label r by_endpoint action_version hr =
     (case hr of (horizon, target_time, resolution_error) \<Rightarrow>
        case resolution_error of
          Some reason \<Rightarrow> Prelude.construct feature_label_post_init
            (missing_label (hs_label horizon) None action_version LABEL_MISSING reason)
        | None \<Rightarrow>
          (case target_time of
             None \<Rightarrow> Inl (dataset_error CORRUPT_CANONICAL_INPUT ''cached horizon target has no timestamp or error'')
           | Some target_ns \<Rightarrow>
             (case by_endpoint target_ns of
                None \<Rightarrow> Prelude.construct feature_label_post_init
                  (missing_label (hs_label horizon) (Some target_ns) action_version LABEL_MISSING
                    (dataset_code_value MISSING_TARGET_BAR))
              | Some target \<Rightarrow>
                (case change_reason r target of
                   Some code \<Rightarrow> Prelude.construct feature_label_post_init
                     (missing_label (hs_label horizon) (Some target_ns) action_version LABEL_INVALID
                       (dataset_code_value code))
                 | None \<Rightarrow> bind_result (return_ppm (cm_close_ticks target) (cm_close_ticks r)) (\<lambda>value.
                     Prelude.construct feature_label_post_init
                       \<lparr>fl_horizon = hs_label horizon, fl_target_time_ns = Some target_ns, fl_return_ppm = Some value,
                        fl_direction = Some (if 0 < value then 1 else if value < 0 then - 1 else 0),
                        fl_future_price_ticks = Some (cm_close_ticks target),
                        fl_corporate_action_version = action_version, fl_validity = LABEL_VALID,
                        fl_missing_reason = None\<rparr>)))))"

definition build_labels ::
    "feature_builder \<Rightarrow> minute_record \<Rightarrow> (int \<rightharpoonup> minute_record) \<Rightarrow> target_cache \<Rightarrow>
     dataset_error + (feature_label list \<times> target_cache)" where
  "build_labels b r by_endpoint cache =
     bind_result (corporate_action_version r) (\<lambda>action_version.
     bind_result (horizon_targets b (cm_minute_end r) cache) (\<lambda>(targets, cache').
     if length (fb_horizons b) \<noteq> length targets
     then Inl (Dataset_PyError (ValueError ''zip() argument 2 is not as long as argument 1''))
     else map_result (\<lambda>labels. (labels, cache'))
       (map_list_result (build_label r by_endpoint action_version) (zip (fb_horizons b) targets))))"

section \<open>Feature values\<close>

definition window_return ::
    "minute_record \<Rightarrow> (int \<rightharpoonup> minute_record) \<Rightarrow> int \<Rightarrow> dataset_error + int option" where
  "window_return r by_endpoint minutes =
     (case by_endpoint (cm_minute_end r - minutes * MINUTE_NS) of
        None \<Rightarrow> Inr None
      | Some prior \<Rightarrow>
          if cm_session_id prior \<noteq> cm_session_id r then Inr None
          else map_result Some (return_ppm (cm_close_ticks r) (cm_close_ticks prior)))"

text \<open>
  The \<open>for\<close> loop over the last thirty minutes: \<open>offsets\<close> still to visit, the last bar visited, and the volumes and
  squared returns collected so far.
\<close>

fun rolling_loop ::
    "minute_record \<Rightarrow> (int \<rightharpoonup> minute_record) \<Rightarrow> nat list \<Rightarrow> minute_record \<Rightarrow> int list \<Rightarrow> int list \<Rightarrow>
     dataset_error + (int list \<times> int list)" where
  "rolling_loop r by_endpoint [] prior volumes squares = Inr (volumes, squares)"
| "rolling_loop r by_endpoint (offset # offsets) prior volumes squares =
     (case by_endpoint (cm_minute_end r - int offset * MINUTE_NS) of
        None \<Rightarrow> Inr (volumes, squares)
      | Some candidate \<Rightarrow>
          if cm_session_id candidate \<noteq> cm_session_id r then Inr (volumes, squares)
          else bind_result (return_ppm (cm_close_ticks prior) (cm_close_ticks candidate)) (\<lambda>one_minute_return.
            rolling_loop r by_endpoint offsets candidate
              (if offset \<le> RELATIVE_VOLUME_WINDOW then volumes @ [cm_volume_shares candidate] else volumes)
              (squares @ [one_minute_return * one_minute_return])))"

definition relative_volume :: "minute_record \<Rightarrow> int list \<Rightarrow> dataset_error + int option" where
  "relative_volume r volumes =
     (if volumes = [] then Inr None
      else bind_result (mean_int volumes) (\<lambda>mean.
        if mean = 0 then Inr None
        else map_result Some (divide_round_half_away (cm_volume_shares r * PPM_SCALE) mean)))"

definition realized_volatility :: "int list \<Rightarrow> dataset_error + int option" where
  "realized_volatility squares =
     (if squares = [] then Inr None else map_result (\<lambda>mean. Some (isqrt mean)) (mean_int squares))"

definition last_n :: "nat \<Rightarrow> 'a list \<Rightarrow> 'a list" where
  "last_n n xs = drop (length xs - n) xs"

definition intraday_gap :: "minute_record \<Rightarrow> session_summary list \<Rightarrow> dataset_error + int option" where
  "intraday_gap r prior =
     (if prior = [] then Inr None
      else map_result Some (return_ppm (cm_open_ticks r) (ss_close_ticks (last prior))))"

definition rolling_return :: "session_summary list \<Rightarrow> dataset_error + int option" where
  "rolling_return rolling =
     (if length rolling < ROLLING_SESSION_WINDOW then Inr None
      else bind_result (map_list_result (\<lambda>s. return_ppm (ss_close_ticks s) (ss_open_ticks s)) rolling)
        (\<lambda>returns. map_result Some (mean_int returns)))"

definition rolling_volume :: "session_summary list \<Rightarrow> dataset_error + int option" where
  "rolling_volume rolling =
     (if length rolling < ROLLING_SESSION_WINDOW then Inr None
      else map_result Some (mean_int (map ss_volume_shares rolling)))"

definition market_return :: "minute_record \<Rightarrow> aggregate_point option \<Rightarrow> int option" where
  "market_return r aggregate =
     (case aggregate of
        None \<Rightarrow> None
      | Some point \<Rightarrow>
          if cm_local_processing_time_ns r < ap_market_available_at_ns point then None
          else ap_market_return_ppm point)"

definition sector_return ::
    "feature_builder \<Rightarrow> minute_record \<Rightarrow> aggregate_point option \<Rightarrow> int option" where
  "sector_return b r aggregate =
     (case (aggregate, sector_at (fb_sectors b) (cm_instrument_id r) (cm_minute_end r) (cm_minute_end r)) of
        (Some point, Some revision) \<Rightarrow>
          if cm_local_processing_time_ns r <
             (case map_of (ap_sector_available_at_ns point) (sec_sector_id revision) of None \<Rightarrow> MAX_INT64 | Some t \<Rightarrow> t)
          then None
          else map_of (ap_sector_returns_ppm point) (sec_sector_id revision)
      | _ \<Rightarrow> None)"

definition relative_to :: "int option \<Rightarrow> int option \<Rightarrow> int option" where
  "relative_to own reference =
     (case (own, reference) of (Some x, Some y) \<Rightarrow> Some (x - y) | _ \<Rightarrow> None)"

definition flag_value :: "bool option \<Rightarrow> int option" where
  "flag_value flag = map_option (\<lambda>b. if b then 1 else 0) flag"

record feature_row =
  fr_features :: "int option list"
  fr_validity :: feature_validity
  fr_reasons :: "ustr list"
  fr_event_ids :: "ustr list"
  fr_event_availability_ns :: int

definition feature_values ::
    "feature_builder \<Rightarrow> minute_record \<Rightarrow> (int \<rightharpoonup> minute_record) \<Rightarrow> session_summary list \<Rightarrow>
     (int \<times> aggregate_point) list \<Rightarrow> dataset_error + feature_row" where
  "feature_values b r by_endpoint prior aggregates =
     (let session_minute = (cm_minute_end r - cm_session_open r) div MINUTE_NS in
      bind_result (map_list_result (window_return r by_endpoint) RETURN_WINDOWS) (\<lambda>returns.
      bind_result (rolling_loop r by_endpoint [1..<REALIZED_VOLATILITY_WINDOW + 1] r [] []) (\<lambda>(volumes, squares).
      bind_result (relative_volume r volumes) (\<lambda>volume.
      bind_result (realized_volatility squares) (\<lambda>volatility.
      bind_result (divide_round_half_away ((cm_high_ticks r - cm_low_ticks r) * PPM_SCALE) (cm_low_ticks r)) (\<lambda>high_low.
      bind_result (intraday_gap r prior) (\<lambda>gap.
      let rolling = last_n ROLLING_SESSION_WINDOW prior in
      bind_result (rolling_return rolling) (\<lambda>rolling_ret.
      bind_result (rolling_volume rolling) (\<lambda>rolling_vol.
      let aggregate = map_of aggregates (cm_minute_end r);
          market = market_return r aggregate;
          own = hd returns;
          sector = sector_return b r aggregate;
          reasons = cm_data_quality_reasons r @
            (if market = None then [lit ''MARKET_AGGREGATE_UNAVAILABLE''] else []) @
            (if sector = None then [lit ''SECTOR_AGGREGATE_UNAVAILABLE''] else []);
          active = event_index_active (fb_events b) (cm_instrument_id r) (cm_minute_end r);
          expected_minutes = (cm_session_close r - cm_session_open r) div MINUTE_NS in
      bind_result (divide_round_half_away (session_minute * PPM_SCALE) expected_minutes) (\<lambda>position.
      let features = returns @
            [Some (cm_volume_shares r), volume, volatility, Some high_low, gap, Some session_minute, Some position,
             market, relative_to own market, sector, relative_to own sector, rolling_ret, rolling_vol,
             flag_value (ae_news active), flag_value (ae_macro active),
             Some (if cm_data_quality_state r = QUALITY_VALID then 1 else 0),
             Some (int (length (cm_data_quality_reasons r)))];
          warmup = (None \<in> set returns \<or> volume = None \<or> volatility = None) in
      Inr \<lparr>fr_features = features,
           fr_validity = (if warmup then FEATURE_WARMUP
             else if cm_data_quality_state r = QUALITY_DEGRADED \<or> reasons \<noteq> [] then FEATURE_DEGRADED
             else FEATURE_VALID),
           fr_reasons = sort (remdups (reasons @ (if warmup then [lit ''ROLLING_WINDOW_WARMUP''] else []))),
           fr_event_ids = ae_ids active,
           fr_event_availability_ns = ae_available_at_ns active\<rparr>))))))))))"

section \<open>Samples and fitting\<close>

fun prior_summaries ::
    "(ustr \<rightharpoonup> session_summary) \<Rightarrow> trading_session list \<Rightarrow> session_summary list \<Rightarrow> (ustr \<times> session_summary list) list" where
  "prior_summaries by_session [] accumulated = []"
| "prior_summaries by_session (s # ss) accumulated =
     (session_id s, accumulated) #
     prior_summaries by_session ss
       (case by_session (session_id s) of None \<Rightarrow> accumulated | Some summary \<Rightarrow> accumulated @ [summary])"

record instrument_context =
  ic_records :: "minute_record list"
  ic_by_endpoint :: "int \<rightharpoonup> minute_record"
  ic_prior :: "(ustr \<times> session_summary list) list"

definition build_context ::
    "feature_builder \<Rightarrow> canonical_source \<Rightarrow> ustr \<Rightarrow> dataset_error + instrument_context" where
  "build_context b source instrument_id =
     bind_result (builder_records b source instrument_id) (\<lambda>records.
     map_result (\<lambda>summaries.
       \<lparr>ic_records = records,
        ic_by_endpoint = map_of (collect_last cm_minute_end records),
        ic_prior = prior_summaries (map_of (collect_last ss_session_id summaries)) (sessions (fb_calendar b)) []\<rparr>)
       (summaries_for_records records))"

definition prior_of :: "instrument_context \<Rightarrow> ustr \<Rightarrow> dataset_error + session_summary list" where
  "prior_of ctx session = (case map_of (ic_prior ctx) session of
     None \<Rightarrow> Inl (Dataset_PyError KeyError) | Some prior \<Rightarrow> Inr prior)"

definition normalize_features ::
    "normalization_stat list option \<Rightarrow> int option list \<Rightarrow> dataset_error + int option list" where
  "normalize_features normalization raw =
     (case normalization of
        None \<Rightarrow> Inr (map (\<lambda>_. None) FEATURE_NAMES)
      | Some stats \<Rightarrow>
          if length stats \<noteq> length raw
          then Inl (Dataset_PyError (ValueError ''zip() argument 2 is not as long as argument 1''))
          else map_list_result (\<lambda>(stat, value). stat_normalize stat value) (zip stats raw))"

definition feature_start ::
    "feature_builder \<Rightarrow> minute_record \<Rightarrow> session_summary list \<Rightarrow> dataset_error + int" where
  "feature_start b r prior =
     (let earliest = max (cm_session_open r) (cm_minute_end r - 60 * MINUTE_NS)
      in if length prior < ROLLING_SESSION_WINDOW then Inr earliest
         else case map_of (fb_session_by_id b) (ss_session_id (prior ! (length prior - ROLLING_SESSION_WINDOW))) of
           None \<Rightarrow> Inl (Dataset_PyError KeyError)
         | Some session \<Rightarrow> Inr (min earliest (session_open session)))"

definition label_identity :: "feature_label \<Rightarrow> json" where
  "label_identity l = JObj
     [(lit ''corporate_action_version'', JStr (fl_corporate_action_version l)),
      (lit ''future_price_ticks'', optional_int (fl_future_price_ticks l)),
      (lit ''horizon'', JStr (fl_horizon l)),
      (lit ''missing_reason'', optional_str (fl_missing_reason l)),
      (lit ''return_ppm'', optional_int (fl_return_ppm l)),
      (lit ''target_exchange_time_ns'', optional_int (fl_target_time_ns l)),
      (lit ''validity'', JStr (label_validity_value (fl_validity l)))]"

definition sample_identity :: "ustr \<Rightarrow> ustr \<Rightarrow> minute_record \<Rightarrow> feature_label list \<Rightarrow> json" where
  "sample_identity instrument_id split r labels = JObj
     [(lit ''as_of_exchange_time_ns'', JInt (cm_minute_end r)),
      (lit ''dataset_seed'', JInt DATASET_SEED),
      (lit ''instrument_id'', JStr instrument_id),
      (lit ''labels'', JArr (map label_identity labels)),
      (lit ''source_record_sha256'', JStr (cm_record_sha256 r)),
      (lit ''split'', JStr split)]"

definition build_sample ::
    "feature_builder \<Rightarrow> universe_entry \<Rightarrow> ustr \<Rightarrow> instrument_context \<Rightarrow> (int \<times> aggregate_point) list \<Rightarrow>
     normalization_stat list option \<Rightarrow> minute_record \<Rightarrow> ustr \<Rightarrow> target_cache \<Rightarrow>
     dataset_error + (feature_sample \<times> target_cache)" where
  "build_sample b entry instrument_id ctx aggregates normalization r split cache =
     bind_result (prior_of ctx (cm_session_id r)) (\<lambda>prior.
     bind_result (feature_values b r (ic_by_endpoint ctx) prior aggregates) (\<lambda>row.
     bind_result (normalize_features normalization (fr_features row)) (\<lambda>normalized.
     bind_result (build_labels b r (ic_by_endpoint ctx) cache) (\<lambda>(labels, cache').
     bind_result (feature_start b r prior) (\<lambda>earliest.
     bind_result (dataset_py (json_digest (sample_identity instrument_id split r labels))) (\<lambda>sample_id.
     map_result (\<lambda>sample. (sample, cache')) (Prelude.construct feature_sample_post_init
       \<lparr>fs_sample_id = sample_id, fs_split = split, fs_instrument_id = instrument_id,
        fs_source_ticker = entry_symbol entry, fs_session_id = cm_session_id r,
        fs_trading_date = isoformat (cm_trading_date r), fs_as_of_ns = cm_minute_end r,
        fs_knowledge_cutoff_ns = cm_minute_end r, fs_feature_start_ns = earliest,
        fs_feature_end_ns = cm_minute_end r, fs_raw_features = fr_features row,
        fs_normalized_features_ppm = normalized, fs_feature_validity = fr_validity row,
        fs_feature_reason_codes = fr_reasons row, fs_advisory_event_ids = fr_event_ids row,
        fs_max_event_availability_ns = fr_event_availability_ns row,
        fs_source_record_sha256 = cm_record_sha256 r, fs_labels = labels,
        fs_schema_version = FEATURE_RECORD_SCHEMA_VERSION\<rparr>)))))))"

type_synonym sample_state = "feature_sample list \<times> target_cache"

definition sample_record ::
    "feature_builder \<Rightarrow> split_plan \<Rightarrow> universe_entry \<Rightarrow> ustr \<Rightarrow> instrument_context \<Rightarrow> (int \<times> aggregate_point) list \<Rightarrow>
     normalization_stat list option \<Rightarrow> minute_record \<Rightarrow> sample_state \<Rightarrow> dataset_error + sample_state" where
  "sample_record b plan entry instrument_id ctx aggregates normalization r st =
     (case map_of (sp_session_splits plan) (cm_session_id r) of
        None \<Rightarrow> Inr st
      | Some split \<Rightarrow> (case st of (samples, cache) \<Rightarrow>
          map_result (\<lambda>(sample, cache'). (samples @ [sample], cache'))
            (build_sample b entry instrument_id ctx aggregates normalization r split cache)))"

definition sample_instrument ::
    "feature_builder \<Rightarrow> canonical_source \<Rightarrow> split_plan \<Rightarrow> (int \<times> aggregate_point) list \<Rightarrow>
     normalization_stat list option \<Rightarrow> ustr \<Rightarrow> sample_state \<Rightarrow> dataset_error + sample_state" where
  "sample_instrument b source plan aggregates normalization instrument_id st =
     (case map_of (fb_resolved b) instrument_id of
        None \<Rightarrow> Inl (dataset_error UNRESOLVED_INSTRUMENT ''source instrument is not resolved in the universe'')
      | Some entry \<Rightarrow> bind_result (build_context b source instrument_id) (\<lambda>ctx.
          fold_result (sample_record b plan entry instrument_id ctx aggregates normalization) (ic_records ctx) st))"

definition iter_samples ::
    "feature_builder \<Rightarrow> canonical_source \<Rightarrow> split_plan \<Rightarrow> (int \<times> aggregate_point) list \<Rightarrow>
     normalization_stat list option \<Rightarrow> target_cache \<Rightarrow> dataset_error + sample_state" where
  "iter_samples b source plan aggregates normalization cache =
     (if (case normalization of None \<Rightarrow> False | Some stats \<Rightarrow> map ns_feature_name stats \<noteq> FEATURE_NAMES)
      then Inl (dataset_error INVALID_CONFIGURATION ''normalization feature order is incompatible'')
      else fold_result (sample_instrument b source plan aggregates normalization) (src_instrument_ids source) ([], cache))"

definition fit_record ::
    "feature_builder \<Rightarrow> split_plan \<Rightarrow> instrument_context \<Rightarrow> (int \<times> aggregate_point) list \<Rightarrow> minute_record \<Rightarrow>
     stat_accumulator list \<Rightarrow> dataset_error + stat_accumulator list" where
  "fit_record b plan ctx aggregates r accumulators =
     (if map_of (sp_session_splits plan) (cm_session_id r) \<noteq> Some TRAIN then Inr accumulators
      else bind_result (prior_of ctx (cm_session_id r)) (\<lambda>prior.
        bind_result (feature_values b r (ic_by_endpoint ctx) prior aggregates) (\<lambda>row.
          add_features (cm_minute_end r) (fr_features row) accumulators)))"

definition fit_instrument ::
    "feature_builder \<Rightarrow> canonical_source \<Rightarrow> split_plan \<Rightarrow> (int \<times> aggregate_point) list \<Rightarrow> ustr \<Rightarrow>
     stat_accumulator list \<Rightarrow> dataset_error + stat_accumulator list" where
  "fit_instrument b source plan aggregates instrument_id accumulators =
     (if map_of (fb_resolved b) instrument_id = None
      then Inl (dataset_error UNRESOLVED_INSTRUMENT ''source instrument is not resolved in the universe'')
      else bind_result (build_context b source instrument_id) (\<lambda>ctx.
        fold_result (fit_record b plan ctx aggregates) (ic_records ctx) accumulators))"

definition builder_fit ::
    "feature_builder \<Rightarrow> canonical_source \<Rightarrow> split_plan \<Rightarrow> (int \<times> aggregate_point) list \<Rightarrow>
     dataset_error + normalization_stat list" where
  "builder_fit b source plan aggregates = map_result freeze_normalization
     (fold_result (fit_instrument b source plan aggregates) (src_instrument_ids source)
       (map (\<lambda>_. stat_empty) FEATURE_NAMES))"

end
