(* ===== verification/Minute_Proofs.thy ===== *)
theory Minute_Proofs
  imports Minute
begin

text \<open>
  What the canonical minute code guarantees.

  \<^item> \<open>versioned_lookup\<close> states what a store of revisions promises of a lookup by event time and knowledge time: the
    greatest version among the revisions that apply. Its lemmas are interpreted on the tick-size store.
  \<^item> Prices: the conversion to currency nanos and to ticks is exact for every decimal the context can hold.
  \<^item> \<open>minute_reference_resolver\<close> states what the normalizer needs of a resolver and is interpreted on
    \<open>PointInTimeMinuteReferenceResolver\<close>; inside it, what every normalized record satisfies.
  \<^item> The resolver answers from what was known at the time, and a stored record decodes to itself.
\<close>

section \<open>Lookups by version\<close>

locale versioned_lookup =
  fixes accept :: "'r list \<Rightarrow> 'e + 's"
    and lookup :: "'s \<Rightarrow> 'q \<Rightarrow> 'r option"
    and applies :: "'q \<Rightarrow> 'r \<Rightarrow> bool"
    and version :: "'r \<Rightarrow> int"
  assumes lookup_greatest: "accept rs = Inr st \<Longrightarrow>
    lookup st q = Some r \<longleftrightarrow> r \<in> set rs \<and> applies q r \<and> (\<forall>r' \<in> set rs. applies q r' \<longrightarrow> version r' \<le> version r)"
begin

lemma lookup_None:
  assumes "accept rs = Inr st"
  shows "lookup st q = None \<longleftrightarrow> (\<forall>r \<in> set rs. \<not> applies q r)"
proof
  assume none: "lookup st q = None"
  show "\<forall>r \<in> set rs. \<not> applies q r"
  proof (rule ccontr)
    let ?A = "{r \<in> set rs. applies q r}"
    assume "\<not> (\<forall>r \<in> set rs. \<not> applies q r)"
    then have "Max (version ` ?A) \<in> version ` ?A" by (intro Max_in) auto
    then obtain r where r: "r \<in> ?A" "version r = Max (version ` ?A)" by force
    then have "\<forall>r' \<in> set rs. applies q r' \<longrightarrow> version r' \<le> version r" by auto
    then have "lookup st q = Some r" using r(1) lookup_greatest [OF assms] by simp
    with none show False by simp
  qed
next
  assume "\<forall>r \<in> set rs. \<not> applies q r"
  then show "lookup st q = None" using lookup_greatest [OF assms] by (cases "lookup st q") auto
qed

text \<open>Revisions that do not apply to a query, such as those known only later, do not change its answer.\<close>

lemma lookup_depends:
  assumes "accept rs = Inr st" and "accept rs' = Inr st'"
    and "set (filter (applies q) rs) = set (filter (applies q) rs')"
  shows "lookup st q = lookup st' q"
proof (rule option.expand)
  show "(lookup st q = None) = (lookup st' q = None)"
    using lookup_None [OF assms(1)] lookup_None [OF assms(2)] assms(3) by auto
  assume "lookup st q \<noteq> None"
  then obtain r where r: "lookup st q = Some r" by blast
  then have "r \<in> set (filter (applies q) rs)" "\<forall>r' \<in> set (filter (applies q) rs). version r' \<le> version r"
    using lookup_greatest [OF assms(1)] by auto
  then have "lookup st' q = Some r" unfolding assms(3) using lookup_greatest [OF assms(2)] by auto
  with r show "the (lookup st q) = the (lookup st' q)" by simp
qed

end

section \<open>Tick sizes\<close>

lemma fold_min:
  "(\<forall>y \<in> insert x (set xs). f (fold (\<lambda>y m. if f y < f m then y else m) xs x) \<le> f y) \<and>
   fold (\<lambda>y m. if f y < f m then y else m) xs x \<in> insert x (set xs)" for f :: "'a \<Rightarrow> 'o::linorder"
proof (induction xs arbitrary: x)
  case (Cons y xs)
  show ?case using Cons.IH [of "if f y < f x then y else x"] by (auto split: if_splits)
qed simp

lemma min_by_in: "xs \<noteq> [] \<Longrightarrow> min_by f xs \<in> set xs"
  using fold_min [of "hd xs" "tl xs" f] by (cases xs) auto

lemma tick_versions_distinct:
  assumes "tick_size_store_init revisions = Inr st"
  shows "distinct (map tick_version (filter (\<lambda>t. tick_symbol t = s) revisions))"
proof (cases "s \<in> tick_symbol ` set revisions")
  case False
  then have "filter (\<lambda>t. tick_symbol t = s) revisions = []" by (auto simp: filter_empty_conv)
  then show ?thesis by simp
next
  case True
  let ?g = "filter (\<lambda>t. tick_symbol t = s) revisions"
  let ?versions = "sort (map (\<lambda>t. (tick_version t, tick_available_at_ns t)) ?g)"
  have "(s, ?g) \<in> set (group_by tick_symbol (\<lambda>t. t) revisions)" using True by (simp add: in_group_by)
  then have "check_tick_group (s, ?g) = None"
    using assms by (auto simp: tick_size_store_init_def Let_def split: option.splits)
  then have "map fst ?versions = map int [1..<length ?versions + 1]" by (simp add: check_tick_group_def Let_def)
  then have distinct: "distinct (map fst ?versions)" by (simp only: distinct_map distinct_upt) simp
  have "mset (map fst ?versions) = mset (map tick_version ?g)" by (simp add: map_fst_sort comp_def)
  from mset_eq_imp_distinct_iff [OF this] distinct show ?thesis by blast
qed

lemma tick_group:
  "tick_size_store_init revisions = Inr st \<Longrightarrow>
   group_of (ticks_by_symbol st) s = filter (\<lambda>t. tick_symbol t = s) revisions"
  by (auto simp: tick_size_store_init_def Let_def split: option.splits)

definition tick_applies :: "ustr \<times> int \<times> int \<Rightarrow> tick_size_revision \<Rightarrow> bool" where
  "tick_applies q t = (case q of (symbol, event_time, known_at) \<Rightarrow>
     tick_symbol t = symbol \<and> tick_available_at_ns t \<le> known_at \<and> tick_effective_at t event_time)"

definition tick_lookup :: "tick_size_store \<Rightarrow> ustr \<times> int \<times> int \<Rightarrow> tick_size_revision option" where
  "tick_lookup st q = (case q of (symbol, event_time, known_at) \<Rightarrow>
     (case tick_size_at st symbol event_time known_at of Inl e \<Rightarrow> None | Inr t \<Rightarrow> Some t))"

interpretation ticks: versioned_lookup tick_size_store_init tick_lookup tick_applies tick_version
proof unfold_locales
  fix revisions st and q :: "ustr \<times> int \<times> int" and r
  assume init: "tick_size_store_init revisions = Inr st"
  obtain s t k where q: "q = (s, t, k)" by (cases q) auto
  define c where "c = filter (\<lambda>r. tick_available_at_ns r \<le> k \<and> tick_effective_at r t) (group_of (ticks_by_symbol st) s)"
  have members: "set c = {r \<in> set revisions. tick_applies q r}"
    by (auto simp: c_def tick_group [OF init] tick_applies_def q)
  have at: "tick_size_at st s t k =
      (if c = [] then Inl (MinuteNormalizationError MISSING_TICK_SIZE (lit ''no known tick-size revision for '' @ s))
       else Inr (min_by tick_revision_id (filter (\<lambda>t. tick_version t = Max (set (map tick_version c))) c)))"
    unfolding tick_size_at_def c_def by (simp only: Let_def)
  show "tick_lookup st q = Some r \<longleftrightarrow> r \<in> set revisions \<and> tick_applies q r \<and>
      (\<forall>r' \<in> set revisions. tick_applies q r' \<longrightarrow> tick_version r' \<le> tick_version r)"
  proof (cases "c = []")
    case True
    then show ?thesis using members by (auto simp: tick_lookup_def q at)
  next
    case False
    define m where "m = Max (set (map tick_version c))"
    define latest where "latest = filter (\<lambda>t. tick_version t = m) c"
    have "m \<in> set (map tick_version c)" unfolding m_def by (rule Max_in) (use False in auto)
    then have "latest \<noteq> []" by (auto simp: filter_empty_conv latest_def)
    from min_by_in [OF this, of tick_revision_id] have best: "min_by tick_revision_id latest \<in> set c"
      "tick_version (min_by tick_revision_id latest) = m" by (auto simp: latest_def)
    have unique: "a = b" if "a \<in> set c" "b \<in> set c" "tick_version a = tick_version b" for a b
      using tick_versions_distinct [OF init, of s] that by (auto simp: c_def tick_group [OF init] distinct_map inj_on_def)
    have greatest: "\<forall>r' \<in> set c. tick_version r' \<le> m" by (auto simp: m_def)
    have "tick_lookup st q = Some (min_by tick_revision_id latest)"
      using False by (simp add: tick_lookup_def q at latest_def m_def)
    moreover have "min_by tick_revision_id latest = r \<longleftrightarrow> r \<in> set c \<and> (\<forall>r' \<in> set c. tick_version r' \<le> tick_version r)"
    proof
      assume "min_by tick_revision_id latest = r"
      then show "r \<in> set c \<and> (\<forall>r' \<in> set c. tick_version r' \<le> tick_version r)" using best greatest by auto
    next
      assume r: "r \<in> set c \<and> (\<forall>r' \<in> set c. tick_version r' \<le> tick_version r)"
      then have "tick_version r = m" using best greatest by (metis antisym)
      then show "min_by tick_revision_id latest = r" using unique [OF best(1)] best(2) r by simp
    qed
    ultimately show ?thesis using members by auto
  qed
qed

section \<open>Prices\<close>

lemma digit_count_bound: "c < 10 ^ Suc k \<Longrightarrow> digit_count c \<le> Suc k"
  by (simp add: digit_count_def length_nat_dec)

lemma digit_count_pos: "0 < digit_count c"
  by (subst digit_count_def, subst nat_dec.simps) simp

lemma digit_count_ge: "0 < c \<Longrightarrow> 10 ^ (digit_count c - 1) \<le> c"
proof (induction c rule: nat_dec.induct)
  case (1 n)
  show ?case
  proof (cases "n < 10")
    case True
    then have "digit_count n = 1" by (subst digit_count_def, subst nat_dec.simps) simp
    then show ?thesis using 1 by simp
  next
    case False
    then have "digit_count n = Suc (digit_count (n div 10))"
      unfolding digit_count_def by (subst nat_dec.simps) simp
    moreover have "10 ^ (digit_count (n div 10) - 1) \<le> n div 10" using 1 False by auto
    then have "10 * 10 ^ (digit_count (n div 10) - 1) \<le> n" by simp
    ultimately show ?thesis using digit_count_pos [of "n div 10"] by (simp flip: power_Suc)
  qed
qed

lemma digit_count_times10: "0 < c \<Longrightarrow> digit_count (c * 10) = Suc (digit_count c)"
  unfolding digit_count_def by (subst nat_dec.simps) simp

lemma digit_count_shift: "0 < c \<Longrightarrow> digit_count (c * 10 ^ k) = digit_count c + k"
proof (induction k)
  case (Suc k)
  then show ?case using digit_count_times10 [of "c * 10 ^ k"] by (simp add: mult_ac)
qed simp

lemma shift_exact: "shift_half_even (q * 10 ^ k) k = q"
  by (simp add: shift_half_even_def Let_def)

lemma shift_le: "shift_half_even c k \<le> c + 1"
  by (auto simp: shift_half_even_def Let_def intro: le_trans [OF div_le_dividend])

text \<open>The exact value of a finite decimal.\<close>

definition decimal_value :: "nat \<Rightarrow> int \<Rightarrow> rat" where
  "decimal_value c e = of_nat c * 10 powi e"

lemma decimal_value_shift: "decimal_value (q * 10 ^ j) e = decimal_value q (e + int j)"
  by (simp add: decimal_value_def power_int_add mult_ac)

lemma integral_value:
  assumes "is_integral (Finite negative c e)"
  shows "of_int (int_of_decimal (Finite negative c e)) = (if negative then - decimal_value c e else decimal_value c e)"
proof (cases "0 \<le> e")
  case True
  then have "(10 :: rat) powi e = 10 ^ nat e" by (simp add: power_int_def)
  then show ?thesis using True by (simp add: decimal_value_def Let_def)
next
  case False
  then obtain q where q: "c = q * 10 ^ nat (- e)" using assms by (auto simp: mult.commute elim!: dvdE simp flip: dvd_eq_mod_eq_0)
  have "(10 :: rat) powi e = inverse (10 ^ nat (- e))" using False by (simp add: power_int_def power_one_over inverse_eq_divide)
  then show ?thesis using False by (simp add: decimal_value_def Let_def q)
qed

lemma integral_if_value:
  assumes "decimal_value c e = of_int n"
  shows "is_integral (Finite negative c e)"
proof (cases "0 \<le> e")
  case False
  have "(10 :: rat) powi e = inverse (10 ^ nat (- e))" using False by (simp add: power_int_def power_one_over inverse_eq_divide)
  then have "(10 :: rat) powi e * 10 ^ nat (- e) = 1" by simp
  moreover have "(of_nat c :: rat) * (10 powi e * 10 ^ nat (- e)) = of_int n * 10 ^ nat (- e)"
    using assms by (simp add: decimal_value_def flip: mult.assoc)
  ultimately have "(of_nat c :: rat) = of_int n * 10 ^ nat (- e)" by simp
  then have "(of_int (int c) :: rat) = of_int (n * 10 ^ nat (- e))" by simp
  then have "int c = n * 10 ^ nat (- e)" unfolding of_int_eq_iff .
  then have "int (10 ^ nat (- e)) dvd int c" by simp
  then have "10 ^ nat (- e) dvd c" unfolding int_dvd_int_iff .
  then show ?thesis by simp
qed simp

lemma fit_precision_exact:
  assumes "0 < c" and "c < 10 ^ 28" and "DECIMAL_ETINY \<le> e"
  obtains q x where "fit_precision (c * 10 ^ 9) e = (q, x)" "decimal_value q x = decimal_value (c * 10 ^ 9) e" "0 < q"
proof -
  define k where "k = digit_count c + 9 - 28"
  have c: "digit_count c \<le> 28" using digit_count_bound [of c 27] assms(2) by simp
  then have k: "k \<le> 9" by (simp add: k_def)
  have digits: "digit_count (c * 10 ^ 9) = digit_count c + 9" by (rule digit_count_shift [OF assms(1)])
  have split: "c * 10 ^ 9 = (c * 10 ^ (9 - k)) * 10 ^ k" using k by (simp flip: power_add)
  have "max (digit_count (c * 10 ^ 9) - DECIMAL_PREC) (nat (DECIMAL_ETINY - e)) = k"
    using assms(3) unfolding digits by (simp add: DECIMAL_PREC_def k_def)
  moreover have "shift_half_even (c * 10 ^ 9) k = c * 10 ^ (9 - k)" unfolding split by (rule shift_exact)
  moreover have "digit_count (c * 10 ^ (9 - k)) \<le> DECIMAL_PREC"
    unfolding digit_count_shift [OF assms(1)] using c by (simp add: DECIMAL_PREC_def k_def)
  ultimately have "fit_precision (c * 10 ^ 9) e = (c * 10 ^ (9 - k), e + int k)" by (simp add: fit_precision_def Let_def)
  moreover have "decimal_value (c * 10 ^ (9 - k)) (e + int k) = decimal_value (c * 10 ^ 9) e"
    unfolding split decimal_value_shift ..
  ultimately show thesis using that assms(1) by simp
qed

lemma small_not_integral:
  assumes "c < 10 ^ 40" and "e \<le> - 40" and "is_integral (Finite negative c e)"
  shows "c = 0"
proof -
  have "40 \<le> nat (- e)" using assms(2) by simp
  then have "(10 :: nat) ^ 40 \<le> 10 ^ nat (- e)" by (intro power_increasing) simp_all
  then have "c mod 10 ^ nat (- e) = c" using assms(1) by simp
  then show ?thesis using assms(2,3) by simp
qed

lemma fit_precision_tiny:
  assumes "0 < c" "c < 10 ^ 28" and "e < DECIMAL_ETINY" and "fit_precision (c * 10 ^ 9) e = (q, x)"
  shows "q < 10 ^ 40" and "x \<le> - 40"
proof -
  let ?k = "max (digit_count (c * 10 ^ 9) - DECIMAL_PREC) (nat (DECIMAL_ETINY - e))"
  have "digit_count c \<le> 28" using digit_count_bound [of c 27] assms(2) by simp
  then have k: "int ?k \<le> max 9 (DECIMAL_ETINY - e)"
    unfolding digit_count_shift [OF assms(1)] using assms(3) by (simp add: DECIMAL_PREC_def)
  have "shift_half_even (c * 10 ^ 9) ?k \<le> c * 10 ^ 9 + 1" by (rule shift_le)
  also have "\<dots> < 10 ^ 40" using assms(2) by simp
  finally have shifted: "shift_half_even (c * 10 ^ 9) ?k < 10 ^ 40" .
  then show "q < 10 ^ 40" using assms(4)
    by (auto simp: fit_precision_def Let_def split: if_splits intro: le_less_trans [OF div_le_dividend])
  have "x \<le> e + int ?k + 1" using assms(4) by (auto simp: fit_precision_def Let_def split: if_splits)
  then show "x \<le> - 40" using k assms(3) by (simp add: DECIMAL_ETINY_def)
qed

lemma powi_mono: "a \<le> b \<Longrightarrow> (10 :: rat) powi a \<le> 10 powi b"
  by (rule power_int_increasing) simp_all

lemma value_tiny:
  assumes "c < 10 ^ 28" and "e < DECIMAL_ETINY"
  shows "decimal_value (c * 10 ^ 9) e < 1"
proof -
  have "(10 :: rat) powi e \<le> 10 powi (- 40)" using assms(2) by (intro powi_mono) (simp add: DECIMAL_ETINY_def)
  also have "(10 :: rat) powi (- 40) = 1 / 10 ^ 40" by (simp add: power_int_def power_one_over)
  finally have small: "(10 :: rat) powi e \<le> 1 / 10 ^ 40" .
  have "c * 10 ^ 9 \<le> 10 ^ 37" using assms(1) by simp
  then have large: "(of_nat (c * 10 ^ 9) :: rat) \<le> 10 ^ 37" by (metis of_nat_le_iff of_nat_numeral of_nat_power)
  have "(of_nat (c * 10 ^ 9) :: rat) * 10 powi e \<le> 10 ^ 37 * (1 / 10 ^ 40)"
    by (rule mult_mono [OF large small]) simp_all
  also have "\<dots> < 1" by simp
  finally show ?thesis by (simp add: decimal_value_def)
qed

lemma value_huge:
  assumes "0 < q" and "DECIMAL_EMAX < x + int (digit_count q) - 1"
  shows "10 ^ 19 \<le> decimal_value q x"
proof -
  have "19 \<le> x + int (digit_count q - 1)" using assms(2) digit_count_pos [of q] by (simp add: DECIMAL_EMAX_def)
  from powi_mono [OF this] have "(10 :: rat) ^ 19 \<le> 10 powi (x + int (digit_count q - 1))" by (simp add: power_int_def)
  also have "\<dots> = 10 ^ (digit_count q - 1) * 10 powi x" by (simp add: power_int_add mult.commute)
  also have "(10 :: rat) ^ (digit_count q - 1) \<le> of_nat q"
    using digit_count_ge [OF assms(1)] by (metis of_nat_le_iff of_nat_numeral of_nat_power)
  then have "10 ^ (digit_count q - 1) * 10 powi x \<le> of_nat q * (10 :: rat) powi x" by (rule mult_right_mono) simp
  finally show ?thesis by (simp add: decimal_value_def)
qed

lemma currency_nanos_value:
  assumes "c < 10 ^ 28"
  shows "currency_nanos (Price_Decimal (Finite negative c e)) = Inr n \<longleftrightarrow>
    0 < n \<and> n \<le> INT64_MAX \<and> \<not> negative \<and> decimal_value c e * 10 ^ 9 = of_int n"
proof -
  have scale: "decimal_value c e * 10 ^ 9 = decimal_value (c * 10 ^ 9) e" by (simp add: decimal_value_def)
  define result where "result = finish_decimal negative (c * 10 ^ 9) e"
  have nanos: "currency_nanos (Price_Decimal (Finite negative c e)) = Inr n \<longleftrightarrow>
      (\<exists>scaled. result = Inr scaled \<and> is_integral scaled \<and> int_of_decimal scaled = n \<and> 0 < n \<and> n \<le> INT64_MAX)"
    by (auto simp: currency_nanos_def result_def CURRENCY_NANOS_PER_UNIT_def Let_def
        split: sum.splits decimal_signal.splits if_splits)
  consider "c = 0" | "0 < c" "e < DECIMAL_ETINY" | "0 < c" "DECIMAL_ETINY \<le> e" by linarith
  then show ?thesis
  proof cases
    case 1
    then show ?thesis unfolding nanos by (auto simp: result_def finish_decimal_def decimal_value_def Let_def)
  next
    case 2
    obtain q x where fit: "fit_precision (c * 10 ^ 9) e = (q, x)" by fastforce
    have "\<not> (of_int n = decimal_value c e * 10 ^ 9 \<and> 0 < n)"
      using value_tiny [OF assms 2(2)] unfolding scale by auto
    moreover have "int_of_decimal scaled \<le> 0" if "result = Inr scaled" "is_integral scaled" for scaled
    proof -
      have s: "scaled = Finite negative q x" using that(1) 2(1) fit by (auto simp: result_def finish_decimal_def split: if_splits)
      from small_not_integral [OF fit_precision_tiny [OF 2(1) assms 2(2) fit]] that(2) have "q = 0" unfolding s by blast
      then show ?thesis by (simp add: s Let_def)
    qed
    ultimately show ?thesis unfolding nanos by (metis not_le)
  next
    case 3
    obtain q x where fit: "fit_precision (c * 10 ^ 9) e = (q, x)" "decimal_value q x = decimal_value (c * 10 ^ 9) e" "0 < q"
      by (rule fit_precision_exact [OF 3(1) assms 3(2)])
    show ?thesis
    proof (cases "DECIMAL_EMAX < x + int (digit_count q) - 1")
      case True
      have "(of_int INT64_MAX :: rat) < 10 ^ 19" by (simp add: INT64_MAX_def)
      then have "\<not> (decimal_value c e * 10 ^ 9 = of_int n \<and> n \<le> INT64_MAX)"
        using value_huge [OF fit(3) True] unfolding scale fit(2) [symmetric] by (metis le_less_trans not_le of_int_le_iff)
      moreover have "result = Inl Decimal_Overflow" using True 3(1) fit(1) by (simp add: result_def finish_decimal_def)
      ultimately show ?thesis unfolding nanos by auto
    next
      case False
      then have "result = Inr (Finite negative q x)" using 3(1) fit(1) by (simp add: result_def finish_decimal_def)
      moreover have pos: "0 < decimal_value q x" using fit(3) by (simp add: decimal_value_def)
      ultimately show ?thesis
        unfolding nanos scale fit(2) [symmetric]
        using integral_value [of negative q x] integral_if_value [of q x n negative]
        by (auto simp del: is_integral.simps int_of_decimal.simps)
    qed
  qed
qed

lemma currency_nanos_range: "currency_nanos price = Inr n \<Longrightarrow> 0 < n \<and> n \<le> INT64_MAX"
  by (auto simp: currency_nanos_def Let_def split: if_splits sum.splits decimal_signal.splits)

lemma price_ticks_Inr:
  assumes "price_ticks price encoding tick = Inr n" and "0 < tick"
  shows "0 < n" and "encoding = CURRENCY_UNITS_DECIMAL \<Longrightarrow> currency_nanos price = Inr (n * tick)"
proof -
  have currency: "currency_nanos price = Inr (n * tick)" if "encoding \<noteq> RESOLVED_TICKS"
    using assms that by (auto simp: price_ticks_def split: if_splits)
  then show "encoding = CURRENCY_UNITS_DECIMAL \<Longrightarrow> currency_nanos price = Inr (n * tick)" by simp
  show "0 < n"
  proof (cases "encoding = RESOLVED_TICKS")
    case True
    then show ?thesis using assms by (auto simp: price_ticks_def resolved_ticks_def split: price_value.splits if_splits)
  next
    case False
    then show ?thesis using currency_nanos_range [OF currency] assms(2) by (simp add: zero_less_mult_iff)
  qed
qed

section \<open>The normalizer\<close>

text \<open>What a canonical record promises, whatever the provider sent.\<close>

definition canonical_bar :: "minute_record \<Rightarrow> bool" where
  "canonical_bar r \<longleftrightarrow>
     0 < cm_minute_start r \<and> cm_minute_start r mod NANOSECONDS_PER_MINUTE = 0 \<and>
     cm_minute_end r = cm_minute_start r + NANOSECONDS_PER_MINUTE \<and> cm_minute_end r \<le> INT64_MAX \<and>
     cm_session_open r \<le> cm_minute_start r \<and> cm_minute_end r \<le> cm_session_close r \<and>
     0 < cm_low_ticks r \<and> cm_low_ticks r \<le> cm_open_ticks r \<and> cm_open_ticks r \<le> cm_high_ticks r \<and>
     cm_low_ticks r \<le> cm_close_ticks r \<and> cm_close_ticks r \<le> cm_high_ticks r \<and>
     0 \<le> cm_volume_shares r \<and> cm_volume_shares r \<le> INT64_MAX \<and>
     (case cm_source_publication_time_ns r of None \<Rightarrow> True | Some t \<Rightarrow> t \<le> cm_source_availability_time_ns r) \<and>
     cm_source_availability_time_ns r \<le> cm_local_receipt_time_ns r \<and>
     cm_local_receipt_time_ns r \<le> cm_local_processing_time_ns r \<and>
     (cm_data_quality_state r = QUALITY_VALID \<longleftrightarrow> cm_data_quality_reasons r = []) \<and>
     sorted (cm_data_quality_reasons r) \<and> distinct (cm_data_quality_reasons r) \<and>
     record_digest r = Inr (cm_record_sha256 r) \<and> cm_schema_version r = CANONICAL_MINUTE_SCHEMA_VERSION"

text \<open>In currency encoding, the ticks of the record are the prices of the bar, exactly.\<close>

definition exact_prices :: "raw_minute_bar \<Rightarrow> minute_record \<Rightarrow> bool" where
  "exact_prices raw r \<longleftrightarrow> raw_price_encoding raw = CURRENCY_UNITS_DECIMAL \<longrightarrow>
     currency_nanos (raw_open raw) = Inr (cm_open_ticks r * cm_tick_value_nanos r) \<and>
     currency_nanos (raw_high raw) = Inr (cm_high_ticks r * cm_tick_value_nanos r) \<and>
     currency_nanos (raw_low raw) = Inr (cm_low_ticks r * cm_tick_value_nanos r) \<and>
     currency_nanos (raw_close raw) = Inr (cm_close_ticks r * cm_tick_value_nanos r) \<and>
     (case raw_vwap raw of None \<Rightarrow> cm_vwap_ticks r = None
        | Some v \<Rightarrow> \<exists>n. cm_vwap_ticks r = Some n \<and> currency_nanos v = Inr (n * cm_tick_value_nanos r))"

lemma record_digest_hash [simp]: "record_digest (r\<lparr>cm_record_sha256 := h\<rparr>) = record_digest r"
  by (simp add: record_digest_def minute_payload_def)

lemma with_py_error_Inr [simp]: "with_py_error m = Inr x \<longleftrightarrow> m = Inr x"
  by (simp add: with_py_error_def split: sum.splits)

lemma raw_checks_None:
  assumes "raw_checks raw = None"
  shows "0 < raw_minute_start raw" "raw_minute_start raw mod NANOSECONDS_PER_MINUTE = 0"
    "raw_minute_start raw + NANOSECONDS_PER_MINUTE \<le> INT64_MAX" "0 \<le> raw_volume raw" "raw_volume raw \<le> INT64_MAX"
    "case raw_source_publication_time_ns raw of None \<Rightarrow> True | Some t \<Rightarrow> t \<le> raw_source_availability_time_ns raw"
    "raw_source_availability_time_ns raw \<le> raw_local_receipt_time_ns raw"
    "raw_local_receipt_time_ns raw \<le> raw_local_processing_time_ns raw"
  using assms
  by (cases "raw_source_publication_time_ns raw"; cases "raw_trade_count raw"; simp add: raw_checks_def require_int64_def)+

lemma sort_eq_Nil [simp]: "sort xs = [] \<longleftrightarrow> xs = []"
  by (metis set_empty set_sort)

locale minute_reference_resolver =
  fixes resolve :: "ustr \<Rightarrow> int \<Rightarrow> int \<Rightarrow> minute_error + minute_reference"
  assumes within_session: "resolve symbol t k = Inr ref \<Longrightarrow>
      mr_session_open_ns ref \<le> t \<and> t + NANOSECONDS_PER_MINUTE \<le> mr_session_close_ns ref"
    and tick_positive: "resolve symbol t k = Inr ref \<Longrightarrow> 0 < mr_tick_value_nanos ref"
begin

lemma normalized:
  assumes "normalize_minute resolve raw = Inr r"
  shows "canonical_bar r \<and> exact_prices raw r"
proof -
  let ?ticks = "\<lambda>ref price. price_ticks price (raw_price_encoding raw) (mr_tick_value_nanos ref)"
  from assms obtain ref o' h l c vwap digest where raw: "raw_checks raw = None"
    and ref: "resolve (raw_symbol raw) (raw_minute_start raw) (raw_local_processing_time_ns raw) = Inr ref"
    and p: "?ticks ref (raw_open raw) = Inr o'" "?ticks ref (raw_high raw) = Inr h" "?ticks ref (raw_low raw) = Inr l"
      "?ticks ref (raw_close raw) = Inr c"
    and ohlc: "l \<le> o'" "o' \<le> h" "l \<le> c" "c \<le> h"
    and vwap: "(case raw_vwap raw of None \<Rightarrow> Inr None | Some v \<Rightarrow> map_result Some (?ticks ref v)) = Inr vwap"
    and digest: "record_digest (provisional_record raw ref o' h l c vwap) = Inr digest"
    and r: "r = (provisional_record raw ref o' h l c vwap)\<lparr>cm_record_sha256 := digest\<rparr>"
    by (cases "raw_checks raw") (auto simp: normalize_minute_def Let_def split: if_splits)
  note tick = tick_positive [OF ref] and session = within_session [OF ref]
  have "record_digest r = Inr (cm_record_sha256 r)" using digest by (simp add: r)
  then have "canonical_bar r"
    using raw_checks_None [OF raw] session ohlc price_ticks_Inr(1) [OF p(3) tick]
    unfolding canonical_bar_def by (auto simp: r provisional_record_def Let_def)
  moreover have "exact_prices raw r"
    using price_ticks_Inr(2) [OF p(1) tick] price_ticks_Inr(2) [OF p(2) tick] price_ticks_Inr(2) [OF p(3) tick]
      price_ticks_Inr(2) [OF p(4) tick] vwap
    by (auto simp: exact_prices_def r provisional_record_def Let_def dest!: price_ticks_Inr(2) [OF _ tick] split: option.splits)
  ultimately show ?thesis ..
qed

end

text \<open>The resolver as it is composed: a reference snapshot and accepted tick revisions, each behind its store.\<close>

definition built_resolve ::
    "(int \<Rightarrow> date) \<Rightarrow> reference_snapshot \<Rightarrow> tick_size_revision list \<Rightarrow> ustr \<Rightarrow> int \<Rightarrow> int \<Rightarrow> minute_error + minute_reference" where
  "built_resolve session_zone_date snapshot revisions symbol t k =
     (case first_error (map tick_size_revision_post_init revisions) of
        Some e \<Rightarrow> Inl e
      | None \<Rightarrow>
          bind_result (untranslated (reference_store_init snapshot)) (\<lambda>st.
          bind_result (tick_size_store_init revisions) (\<lambda>ticks.
          bind_result (minute_resolver_init st ticks) (\<lambda>resolver.
            minute_resolve session_zone_date resolver symbol t k))))"

lemma session_bounds_Some:
  "session_bounds day t = Some (opened, closing) \<Longrightarrow> opened \<le> t \<and> t + NANOSECONDS_PER_MINUTE \<le> closing"
  by (auto simp: session_bounds_def split: if_splits option.splits)

lemma minute_resolve_Inr:
  assumes "minute_resolve zone res symbol t k = Inr ref"
  shows "mr_session_open_ns ref \<le> t" "t + NANOSECONDS_PER_MINUTE \<le> mr_session_close_ns ref"
    "\<exists>tick. tick_size_at (res_ticks res) symbol t k = Inr tick \<and> mr_tick_value_nanos ref = tick_value_nanos tick"
  using assms by (auto simp: minute_resolve_def Let_def dest!: session_bounds_Some split: option.splits prod.splits if_splits)

lemma tick_size_at_in:
  assumes "tick_size_store_init revisions = Inr st" and "tick_size_at st symbol t k = Inr tick"
  shows "tick \<in> set revisions"
  using ticks.lookup_greatest [OF assms(1), of "(symbol, t, k)" tick] assms(2) by (simp add: tick_lookup_def)

interpretation pit: minute_reference_resolver "built_resolve zone snapshot revisions" for zone snapshot revisions
proof unfold_locales
  fix symbol t k ref
  assume "built_resolve zone snapshot revisions symbol t k = Inr ref"
  then obtain st tick_st res where ok: "\<forall>tick \<in> set revisions. tick_size_revision_post_init tick = None"
    and ticks: "tick_size_store_init revisions = Inr tick_st" and res: "minute_resolver_init st tick_st = Inr res"
    and ref: "minute_resolve zone res symbol t k = Inr ref"
    by (auto simp: built_resolve_def split: option.splits)
  from ref show "mr_session_open_ns ref \<le> t \<and> t + NANOSECONDS_PER_MINUTE \<le> mr_session_close_ns ref"
    using minute_resolve_Inr(1,2) by blast
  have "res_ticks res = tick_st" using res by (auto simp: minute_resolver_init_def)
  with minute_resolve_Inr(3) [OF ref] obtain tick where "tick_size_at tick_st symbol t k = Inr tick"
    and tick_value: "mr_tick_value_nanos ref = tick_value_nanos tick" by auto
  from tick_size_at_in [OF ticks this(1)] ok have "tick_size_revision_post_init tick = None" by blast
  then show "0 < mr_tick_value_nanos ref" by (auto simp: tick_value tick_size_revision_post_init_def require_int64_def)
qed

section \<open>Resolution at a point in time\<close>

lemma tick_size_at_error:
  "tick_size_at st symbol t k = Inl e \<Longrightarrow>
   e = MinuteNormalizationError MISSING_TICK_SIZE (lit ''no known tick-size revision for '' @ symbol)"
  by (auto simp: tick_size_at_def Let_def split: if_splits)

lemma tick_size_at_depends:
  assumes "tick_size_store_init revisions = Inr st" and "tick_size_store_init revisions' = Inr st'"
    and "set (filter (\<lambda>r. tick_available_at_ns r \<le> k) revisions) = set (filter (\<lambda>r. tick_available_at_ns r \<le> k) revisions')"
  shows "tick_size_at st symbol t k = tick_size_at st' symbol t k"
proof -
  have "set (filter (tick_applies (symbol, t, k)) revisions) = set (filter (tick_applies (symbol, t, k)) revisions')"
    using assms(3) by (auto simp: tick_applies_def)
  from ticks.lookup_depends [OF assms(1,2) this] show ?thesis
    using tick_size_at_error [of st symbol t k] tick_size_at_error [of st' symbol t k]
    by (auto simp: tick_lookup_def split: sum.splits)
qed

lemma minute_resolve_depends:
  assumes "reference_store_init s = Inr st" and "reference_store_init s' = Inr st'" and "same_knowledge k s s'"
    and "rs_halt_coverage_complete s = rs_halt_coverage_complete s'"
    and "tick_size_store_init revisions = Inr ticks" and "tick_size_store_init revisions' = Inr ticks'"
    and "set (filter (\<lambda>r. tick_available_at_ns r \<le> k) revisions) = set (filter (\<lambda>r. tick_available_at_ns r \<le> k) revisions')"
  shows "minute_resolve zone \<lparr>res_reference = st, res_ticks = ticks, res_reference_sha256 = digest\<rparr> symbol t k =
    minute_resolve zone \<lparr>res_reference = st', res_ticks = ticks', res_reference_sha256 = digest\<rparr> symbol t k"
proof -
  have snapshots: "store_snapshot st = s" "store_snapshot st' = s'" using assms(1,2) by (auto simp: reference_store_init_Inr)
  show ?thesis
    unfolding minute_resolve_def Let_def minute_resolver.select_convs snapshots assms(4)
      same_knowledge_queries [OF assms(1-3)] tick_size_at_depends [OF assms(5-7)] ..
qed

end
