(* ===== verification/Feature_Index_Proofs.thy ===== *)
theory Feature_Index_Proofs
  imports Feature_Index Minute_Proofs
begin

text \<open>
  What the inputs of the feature dataset builder promise: rounding to the nearest integer with ties away from zero, the
  pruned interval lookup against a full scan, point-in-time event and sector queries, and the chronological split plan.
\<close>

section \<open>Rounding\<close>

lemma div_eq_iff_bounds:
  fixes x y q :: int
  assumes "0 < y"
  shows "q = x div y \<longleftrightarrow> q * y \<le> x \<and> x < q * y + y" and "x div y = q \<longleftrightarrow> q * y \<le> x \<and> x < q * y + y"
proof -
  have "x = x div y * y + x mod y" "0 \<le> x mod y" "x mod y < y" using assms by simp_all
  then have "x div y * y \<le> x \<and> x < x div y * y + y" by linarith
  moreover have "x div y = q" if "q * y \<le> x \<and> x < q * y + y"
    using that by (intro int_div_pos_eq [of x y q "x - q * y"]) (auto simp: algebra_simps)
  ultimately show "q = x div y \<longleftrightarrow> q * y \<le> x \<and> x < q * y + y"
    and "x div y = q \<longleftrightarrow> q * y \<le> x \<and> x < q * y + y" by metis+
qed

lemma half_window:
  fixes a d p :: int
  assumes "0 < d"
  shows "- d \<le> 2 * a - 2 * p \<and> 2 * a - 2 * p < d \<longleftrightarrow> 2 * \<bar>a - p\<bar> \<le> d \<and> (2 * \<bar>a - p\<bar> = d \<longrightarrow> a < p)"
  using assms by presburger

lemma divide_round_nearest:
  assumes "0 < d"
  shows "divide_round_half_away n d = Inr q \<longleftrightarrow>
    2 * \<bar>n - q * d\<bar> \<le> d \<and> (2 * \<bar>n - q * d\<bar> = d \<longrightarrow> \<bar>n\<bar> < \<bar>q\<bar> * d)"
proof -
  define magnitude where "magnitude = (2 * \<bar>n\<bar> + d) div (2 * d)"
  define k where "k = \<bar>n\<bar> div d"
  define m where "m = \<bar>n\<bar> mod d"
  have split: "\<bar>n\<bar> = k * d + m" by (simp add: k_def m_def)
  have bounds: "0 \<le> m" "m < d" using assms by (simp_all add: m_def)
  have "(if d \<le> m * 2 then k + 1 else k) = magnitude"
    unfolding magnitude_def div_eq_iff_bounds [OF mult_pos_pos [OF zero_less_numeral assms]] split
    using bounds by (auto simp: algebra_simps)
  then have result: "divide_round_half_away n d = Inr (if 0 \<le> n then magnitude else - magnitude)"
    unfolding divide_round_half_away_def Let_def k_def [symmetric] m_def [symmetric] using assms by simp
  have nearest: "magnitude = m \<longleftrightarrow> - d \<le> 2 * \<bar>n\<bar> - 2 * (m * d) \<and> 2 * \<bar>n\<bar> - 2 * (m * d) < d" for m
    unfolding magnitude_def div_eq_iff_bounds [OF mult_pos_pos [OF zero_less_numeral assms]]
    by (auto simp: algebra_simps)
  have "0 \<le> magnitude" using assms unfolding magnitude_def by (intro pos_imp_zdiv_nonneg_iff [THEN iffD2]) auto
  have far: "d < 2 * (\<bar>n\<bar> + k * d)" if "1 \<le> k" for k
  proof -
    have "d \<le> k * d" using that assms by simp
    then have "d < 2 * (k * d)" using assms by linarith
    then show ?thesis using abs_ge_zero [of n] unfolding distrib_left by linarith
  qed
  show ?thesis
  proof (cases "0 \<le> n")
    case True
    show ?thesis
    proof (cases "0 \<le> q")
      case q: True
      then show ?thesis unfolding result using True nearest [of q] half_window [OF assms, of n "q * d"] by simp
    next
      case False
      have "d < 2 * \<bar>n - q * d\<bar>" using False True far [of "- q"] abs_ge_self [of "n - q * d"] by auto
      then show ?thesis unfolding result using False True \<open>0 \<le> magnitude\<close> by auto
    qed
  next
    case False
    show ?thesis
    proof (cases "q \<le> 0")
      case q: True
      have "\<bar>- n - - q * d\<bar> = \<bar>n - q * d\<bar>" by linarith
      then show ?thesis
        unfolding result using False q nearest [of "- q"] half_window [OF assms, of "- n" "- q * d"] by auto
    next
      case q: False
      have "d < 2 * \<bar>n - q * d\<bar>" using False q far [of q] abs_ge_minus_self [of "n - q * d"] by auto
      then show ?thesis unfolding result using False q \<open>0 \<le> magnitude\<close> by auto
    qed
  qed
qed

lemma isqrt_nat_spec: "isqrt_nat n * isqrt_nat n \<le> n \<and> n < (isqrt_nat n + 1) * (isqrt_nat n + 1)"
proof (induction n rule: isqrt_nat.induct)
  case (1 n)
  show ?case
  proof (cases "n = 0")
    case True
    then show ?thesis by (simp add: isqrt_nat.simps)
  next
    case False
    define r where "r = isqrt_nat (n div 4)"
    have low: "r * r \<le> n div 4" and high: "n div 4 < (r + 1) * (r + 1)"
      using 1 [OF False] by (auto simp: r_def)
    have "4 * (r * r) \<le> n" using low by linarith
    moreover have "n < 4 * ((r + 1) * (r + 1))" using high by linarith
    moreover have "isqrt_nat n = (if (2 * r + 1) * (2 * r + 1) \<le> n then 2 * r + 1 else 2 * r)"
      using False by (subst isqrt_nat.simps) (simp add: Let_def r_def)
    ultimately show ?thesis by (auto simp: algebra_simps)
  qed
qed

section \<open>Binary search and the pruned scan\<close>

lemma bisect_loop_sorted:
  assumes "sorted xs" and "low \<le> high" and "high \<le> length xs"
    and "\<forall>i < low. xs ! i \<le> x" and "\<forall>i. high \<le> i \<and> i < length xs \<longrightarrow> x < xs ! i"
  shows "(\<forall>i < bisect_loop xs x low high. xs ! i \<le> x) \<and> bisect_loop xs x low high \<le> length xs \<and>
    (\<forall>i. bisect_loop xs x low high \<le> i \<and> i < length xs \<longrightarrow> x < xs ! i)"
  using assms
proof (induction xs x low high rule: bisect_loop.induct)
  case (1 xs x low high)
  show ?case
  proof (cases "low < high")
    case False
    then have "bisect_loop xs x low high = low" by (subst bisect_loop.simps) simp
    with 1(3-7) False show ?thesis by simp
  next
    case True
    define m where "m = (low + high) div 2"
    have m: "low \<le> m" "m < high" using True by (auto simp: m_def)
    show ?thesis
    proof (cases "x < xs ! m")
      case True
      have up: "\<forall>i. m \<le> i \<and> i < length xs \<longrightarrow> x < xs ! i"
        using True sorted_nth_mono [OF 1(3)] by (meson less_le_trans)
      have eq: "bisect_loop xs x low high = bisect_loop xs x low m"
        using True \<open>low < high\<close> by (subst bisect_loop.simps) (simp add: m_def Let_def)
      have "m \<le> length xs" using m 1(5) by simp
      then show ?thesis
        unfolding eq by (rule 1(1) [OF \<open>low < high\<close> m_def True 1(3) m(1) _ 1(6) up])
    next
      case False
      have down: "\<forall>i < m + 1. xs ! i \<le> x"
      proof (intro allI impI)
        fix i assume "i < m + 1"
        then have "xs ! i \<le> xs ! m" using sorted_nth_mono [OF 1(3), of i m] m 1(5) by simp
        then show "xs ! i \<le> x" using False by simp
      qed
      have eq: "bisect_loop xs x low high = bisect_loop xs x (m + 1) high"
        using False \<open>low < high\<close> by (subst bisect_loop.simps) (simp add: m_def Let_def)
      have "m + 1 \<le> high" using m by simp
      then show ?thesis
        unfolding eq by (rule 1(2) [OF \<open>low < high\<close> m_def False 1(3) _ 1(5) down 1(7)])
    qed
  qed
qed

lemma bisect_right_sorted:
  assumes "sorted xs"
  shows "bisect_right xs x \<le> length xs" "i < bisect_right xs x \<Longrightarrow> xs ! i \<le> x"
    "bisect_right xs x \<le> i \<Longrightarrow> i < length xs \<Longrightarrow> x < xs ! i"
  using bisect_loop_sorted [OF assms, of 0 "length xs" x] by (auto simp: bisect_right_def)

lemma length_prefix_maxima [simp]: "length (prefix_maxima m es) = length es"
  by (induction es arbitrary: m) auto

lemma prefix_maxima_bound:
  "i \<le> j \<Longrightarrow> j < length es \<Longrightarrow> es ! i \<le> prefix_maxima m es ! j"
proof (induction es arbitrary: m i j)
  case (Cons e es)
  have grows: "m \<le> prefix_maxima m es ! j" if "j < length es" for m j and es :: "int list"
    using that
  proof (induction es arbitrary: m j)
    case (Cons e es)
    show ?case
    proof (cases j)
      case (Suc k)
      then have "max m e \<le> prefix_maxima (max m e) es ! k" using Cons.IH [of k "max m e"] Cons.prems by simp
      then show ?thesis using Suc by simp
    qed simp
  qed simp
  show ?case
  proof (cases i)
    case 0
    show ?thesis
    proof (cases j)
      case (Suc k)
      have "max m e \<le> prefix_maxima (max m e) es ! k" using grows [of k es] Suc Cons.prems by simp
      then show ?thesis using 0 Suc by simp
    qed (simp add: 0)
  next
    case (Suc k)
    then obtain l where "j = Suc l" using Cons.prems by (cases j) auto
    then show ?thesis using Suc Cons.IH [of k l "max m e"] Cons.prems by simp
  qed
qed simp

lemma active_loop_scan:
  assumes "n \<le> length (ix_events ix)"
    and "ix_prefix_maximum_ends ix = prefix_maxima 0 (map ev_valid_until_ns (ix_events ix))"
  shows "active_loop ix t n = rev (filter (\<lambda>e. event_active e t) (take n (ix_events ix)))"
  using assms(1)
proof (induction n)
  case (Suc n)
  show ?case
  proof (cases "t < ix_prefix_maximum_ends ix ! n")
    case True
    then show ?thesis using Suc by (simp add: take_Suc_conv_app_nth)
  next
    case False
    have "\<not> event_active e t" if e: "e \<in> set (take (Suc n) (ix_events ix))" for e
    proof -
      obtain i where "i < Suc n" "e = ix_events ix ! i" using e Suc.prems by (auto simp: in_set_conv_nth)
      then have "ev_valid_until_ns e \<le> ix_prefix_maximum_ends ix ! n"
        using prefix_maxima_bound [of i n "map ev_valid_until_ns (ix_events ix)" 0] Suc.prems
        by (simp add: assms(2) less_Suc_eq_le)
      then show ?thesis using False by (simp add: event_active_def)
    qed
    then show ?thesis using False by (simp add: filter_False)
  qed
qed simp

definition event_ok :: "feature_event \<Rightarrow> bool" where
  "event_ok e \<longleftrightarrow> feature_event_post_init e = None"

lemma event_ok_times:
  "event_ok e \<Longrightarrow> 0 < ev_event_time_ns e \<and> ev_event_time_ns e \<le> ev_available_at_ns e \<and>
     ev_available_at_ns e < ev_valid_until_ns e"
  by (auto simp: event_ok_def feature_event_post_init_def split: option.splits)

lemma interval_active_scan:
  assumes "\<forall>e \<in> set es. event_ok e"
  shows "interval_active (interval_index_init es) t =
    rev (filter (\<lambda>e. event_active e t) (sort_key (\<lambda>e. (ev_event_time_ns e, ev_record_id e)) es))"
proof -
  define ordered where "ordered = sort_key (\<lambda>e. (ev_event_time_ns e, ev_record_id e)) es"
  define ix where "ix = interval_index_init es"
  define n where "n = bisect_right (ix_starts ix) t"
  have ix: "ix_events ix = ordered" "ix_starts ix = map ev_event_time_ns ordered"
      "ix_prefix_maximum_ends ix = prefix_maxima 0 (map ev_valid_until_ns ordered)"
    by (simp_all add: ix_def ordered_def interval_index_init_def Let_def)
  have "sorted (map (\<lambda>e. (ev_event_time_ns e, ev_record_id e)) ordered)"
    by (simp add: ordered_def)
  then have "sorted (ix_starts ix)"
    unfolding ix by (auto simp: sorted_iff_nth_mono less_eq_prod_def) (metis order.strict_implies_order)
  note bis = bisect_right_sorted [OF this, where x = t, folded n_def]
  have n: "n \<le> length ordered" using bis(1) by (simp add: ix)
  have late: "\<not> event_active e t" if drop: "e \<in> set (drop n ordered)" for e
  proof -
    obtain j where "j < length (drop n ordered)" "e = drop n ordered ! j"
      using drop by (metis in_set_conv_nth)
    then have "n + j < length ordered" "e = ordered ! (n + j)" using n by auto
    then obtain i where i: "n \<le> i" "i < length ordered" "e = ordered ! i" using le_add1 by blast
    then have "t < ev_event_time_ns e" using bis(3) [of i] by (simp add: ix)
    moreover have "e \<in> set ordered" using i by simp
    then have "event_ok e" using assms by (simp add: ordered_def)
    ultimately show ?thesis using event_ok_times by (fastforce simp: event_active_def)
  qed
  have "interval_active ix t = active_loop ix t n" by (simp add: interval_active_def n_def)
  also have "\<dots> = rev (filter (\<lambda>e. event_active e t) (take n ordered))"
    using active_loop_scan [of n ix t] n by (simp add: ix)
  also have "filter (\<lambda>e. event_active e t) (take n ordered) = filter (\<lambda>e. event_active e t) ordered"
    using late by (metis append_Nil2 append_take_drop_id filter_False filter_append)
  finally show ?thesis by (simp add: ix_def ordered_def)
qed


section \<open>The event index\<close>

text \<open>The reference definition of \<open>EventIndex.active\<close>: a scan of all events.\<close>

definition scanned_events :: "feature_event list \<Rightarrow> event_index \<Rightarrow> ustr \<Rightarrow> int \<Rightarrow> feature_event list \<times> feature_event list" where
  "scanned_events events index instrument_id as_of =
     (if kind_covered index NEWS as_of
      then filter (\<lambda>e. ev_kind e = NEWS \<and> ev_instrument_id e = Some instrument_id \<and> event_active e as_of) events else [],
      if kind_covered index MACRO as_of
      then filter (\<lambda>e. ev_kind e = MACRO \<and> event_active e as_of) events else [])"

lemma mset_interval_active:
  "\<forall>e \<in> set es. event_ok e \<Longrightarrow>
   mset (interval_active (interval_index_init es) t) = mset (filter (\<lambda>e. event_active e t) es)"
  by (simp add: interval_active_scan mset_filter)

lemma news_lookup:
  assumes "\<forall>e \<in> set events. event_ok e"
  shows "mset (case map_of (map (\<lambda>(i, es). (i, interval_index_init es)) (instrument_news events)) i of
      None \<Rightarrow> [] | Some ix \<Rightarrow> interval_active ix t) =
    mset (filter (\<lambda>e. ev_kind e = NEWS \<and> ev_instrument_id e = Some i \<and> event_active e t) events)"
proof -
  let ?news = "filter (\<lambda>e. ev_kind e \<noteq> MACRO \<and> ev_instrument_id e \<noteq> None) events"
  have kinds: "ev_kind e \<noteq> MACRO \<longleftrightarrow> ev_kind e = NEWS" for e by (cases "ev_kind e") auto
  have group: "filter (\<lambda>e. the (ev_instrument_id e) = i) ?news =
      filter (\<lambda>e. ev_kind e = NEWS \<and> ev_instrument_id e = Some i) events"
    by (simp add: kinds) (rule filter_cong, auto)
  have "map_of (map (\<lambda>(i, es). (i, interval_index_init es)) (instrument_news events)) i =
      (if i \<in> (\<lambda>e. the (ev_instrument_id e)) ` set ?news
       then Some (interval_index_init (filter (\<lambda>e. ev_kind e = NEWS \<and> ev_instrument_id e = Some i) events)) else None)"
    by (auto simp only: map_of_map instrument_news_def map_of_group_by group o_apply list.map_ident option.map
        split: if_split)
  moreover have "filter (\<lambda>e. ev_kind e = NEWS \<and> ev_instrument_id e = Some i) events = []"
    if "i \<notin> (\<lambda>e. the (ev_instrument_id e)) ` set ?news"
    unfolding group [symmetric] using that by (auto simp: filter_empty_conv)
  ultimately show ?thesis
    using assms by (auto simp: mset_interval_active filter_empty_conv conj_ac)
qed

lemma event_index_init_Inr:
  assumes "event_index_init events coverage authenticated = Inr index"
  shows "ei_news index = map (\<lambda>(i, es). (i, interval_index_init es)) (instrument_news events)"
    and "ei_macro index = interval_index_init (filter (\<lambda>e. ev_kind e = MACRO) events)"
  using assms by (auto simp: event_index_init_def Let_def split: if_splits option.splits)

lemma event_index_scan:
  assumes "event_index_init events coverage authenticated = Inr index" and "\<forall>e \<in> set events. event_ok e"
  shows "event_index_active index instrument_id as_of =
    (case scanned_events events index instrument_id as_of of (news, macro) \<Rightarrow>
      \<lparr>ae_news = (if kind_covered index NEWS as_of then Some (news \<noteq> []) else None),
       ae_macro = (if kind_covered index MACRO as_of then Some (macro \<noteq> []) else None),
       ae_ids = sort (map ev_record_id (news @ macro)),
       ae_available_at_ns = (if news @ macro = [] then 0 else Max (set (map ev_available_at_ns (news @ macro))))\<rparr>)"
proof -
  define news where "news = (case map_of (ei_news index) instrument_id of
      None \<Rightarrow> [] | Some ix \<Rightarrow> if kind_covered index NEWS as_of then interval_active ix as_of else [])"
  define macro where "macro = (if kind_covered index MACRO as_of then interval_active (ei_macro index) as_of else [])"
  obtain news' macro' where scan: "scanned_events events index instrument_id as_of = (news', macro')" by fastforce
  have n: "mset news = mset news'"
    using scan news_lookup [OF assms(2), where i = instrument_id and t = as_of]
    by (auto simp: news_def scanned_events_def event_index_init_Inr [OF assms(1)] split: option.splits)
  have m: "mset macro = mset macro'"
    using scan assms(2)
    by (auto simp: macro_def scanned_events_def event_index_init_Inr [OF assms(1)] mset_interval_active conj_ac)
  have "sort (map ev_record_id (news @ macro)) = sort (map ev_record_id (news' @ macro'))"
    by (metis m n mset_append mset_map sorted_list_of_multiset_mset)
  moreover have "set (map ev_available_at_ns (news @ macro)) = set (map ev_available_at_ns (news' @ macro'))"
    by (metis m n mset_append mset_map set_mset_mset)
  moreover have "news = [] \<longleftrightarrow> news' = []" "macro = [] \<longleftrightarrow> macro' = []" using n m by (metis mset_zero_iff)+
  ultimately show ?thesis
    unfolding event_index_active_def scan Let_def news_def [symmetric] macro_def [symmetric] by auto
qed

lemma active_availability:
  assumes "event_index_init events coverage authenticated = Inr index" and "\<forall>e \<in> set events. event_ok e" and "0 \<le> as_of"
  shows "ae_available_at_ns (event_index_active index instrument_id as_of) \<le> as_of"
proof -
  obtain news macro where scan: "scanned_events events index instrument_id as_of = (news, macro)" by fastforce
  then have "\<forall>a \<in> set (map ev_available_at_ns (news @ macro)). a \<le> as_of"
    by (auto simp: scanned_events_def event_active_def split: if_splits)
  then have "Max (set (map ev_available_at_ns (news @ macro))) \<le> as_of" if "news @ macro \<noteq> []"
    using that by (intro Max.boundedI) auto
  then show ?thesis using assms(3) by (auto simp: event_index_scan [OF assms(1,2)] scan)
qed

section \<open>Sectors\<close>

definition sector_greatest :: "sector_revision list \<Rightarrow> ustr \<Rightarrow> int \<Rightarrow> int \<Rightarrow> sector_revision \<Rightarrow> bool" where
  "sector_greatest revisions instrument_id event_time known_at r \<longleftrightarrow>
     r \<in> set revisions \<and> sec_instrument_id r = instrument_id \<and> sector_applies r event_time known_at \<and>
     (\<forall>r' \<in> set revisions. sec_instrument_id r' = instrument_id \<and> sector_applies r' event_time known_at \<longrightarrow>
        sec_version r' \<le> sec_version r)"

lemma sector_index_group:
  assumes "sector_index_init revisions = Inr index"
  shows "group_of (si_by_instrument index) i = sort_key sec_version (filter (\<lambda>r. sec_instrument_id r = i) revisions)"
proof -
  have by_instrument: "si_by_instrument index =
      map (\<lambda>(i, rs). (i, sort_key sec_version rs)) (group_by sec_instrument_id (\<lambda>r. r) revisions)"
    using assms by (auto simp: sector_index_init_def Let_def split: if_splits option.splits)
  have "filter (\<lambda>r. sec_instrument_id r = i) revisions = []" if "i \<notin> sec_instrument_id ` set revisions"
    using that by (auto simp: filter_empty_conv)
  then show ?thesis
    by (simp add: by_instrument group_of_def map_of_map map_of_group_by)
qed

lemma sector_versions_distinct:
  assumes "sector_index_init revisions = Inr index"
  shows "distinct (map sec_version (filter (\<lambda>r. sec_instrument_id r = i) revisions))"
proof (cases "i \<in> sec_instrument_id ` set revisions")
  case False
  then have "filter (\<lambda>r. sec_instrument_id r = i) revisions = []" by (auto simp: filter_empty_conv)
  then show ?thesis by simp
next
  case True
  let ?g = "filter (\<lambda>r. sec_instrument_id r = i) revisions"
  have "(i, ?g) \<in> set (group_by sec_instrument_id (\<lambda>r. r) revisions)" using True by (simp add: in_group_by)
  then have "check_sector_group (i, ?g) = None"
    using assms by (auto simp: sector_index_init_def Let_def split: if_splits option.splits)
  then have "map sec_version (sort_key sec_version ?g) = map int [1..<length ?g + 1]"
    by (simp add: check_sector_group_def Let_def)
  then have "distinct (map sec_version (sort_key sec_version ?g))" by (simp add: distinct_map)
  then show ?thesis by (metis mset_map mset_sort mset_eq_imp_distinct_iff)
qed

lemma sector_at_greatest:
  assumes "sector_index_init revisions = Inr index"
  shows "sector_at index i t k = Some r \<longleftrightarrow> sector_greatest revisions i t k r"
proof -
  let ?eligible = "filter (\<lambda>r. sector_applies r t k) (group_of (si_by_instrument index) i)"
  have members: "set ?eligible = {r \<in> set revisions. sec_instrument_id r = i \<and> sector_applies r t k}"
    by (auto simp: sector_index_group [OF assms])
  have unique: "r = r'" if "r \<in> set ?eligible" "r' \<in> set ?eligible" "sec_version r = sec_version r'" for r r'
    using sector_versions_distinct [OF assms, of i] that unfolding members by (auto simp: distinct_map inj_on_def)
  show ?thesis
  proof (cases "?eligible = []")
    case True
    then have "\<not> sector_greatest revisions i t k r" using members by (auto simp: sector_greatest_def)
    then show ?thesis using True by (simp add: sector_at_def)
  next
    case False
    note best = max_by_greatest [OF False, of sec_version]
    have "sector_greatest revisions i t k r \<longleftrightarrow> r = max_by sec_version ?eligible"
    proof
      assume "sector_greatest revisions i t k r"
      then have r: "r \<in> set ?eligible" "\<forall>r' \<in> set ?eligible. sec_version r' \<le> sec_version r"
        unfolding members by (auto simp: sector_greatest_def)
      then show "r = max_by sec_version ?eligible"
        using best by (intro unique) (auto intro: antisym)
    next
      assume "r = max_by sec_version ?eligible"
      then show "sector_greatest revisions i t k r"
        using best unfolding members by (auto simp: sector_greatest_def)
    qed
    then show ?thesis using False by (auto simp: sector_at_def Let_def)
  qed
qed

definition sector_query_applies :: "ustr \<times> int \<times> int \<Rightarrow> sector_revision \<Rightarrow> bool" where
  "sector_query_applies q r = (case q of (instrument_id, event_time, known_at) \<Rightarrow>
     sec_instrument_id r = instrument_id \<and> sector_applies r event_time known_at)"

definition sector_lookup :: "sector_index \<Rightarrow> ustr \<times> int \<times> int \<Rightarrow> sector_revision option" where
  "sector_lookup index q = (case q of (instrument_id, event_time, known_at) \<Rightarrow> sector_at index instrument_id event_time known_at)"

interpretation sectors: versioned_lookup sector_index_init sector_lookup sector_query_applies sec_version
proof unfold_locales
  fix revisions index and q :: "ustr \<times> int \<times> int" and r
  assume "sector_index_init revisions = Inr index"
  then show "sector_lookup index q = Some r \<longleftrightarrow> r \<in> set revisions \<and> sector_query_applies q r \<and>
      (\<forall>r' \<in> set revisions. sector_query_applies q r' \<longrightarrow> sec_version r' \<le> sec_version r)"
    by (cases q) (simp add: sector_lookup_def sector_query_applies_def sector_at_greatest sector_greatest_def)
qed

section \<open>The split plan\<close>

definition split_counts :: "nat \<Rightarrow> nat \<times> nat \<times> nat" where
  "split_counts usable =
     (let train = min (max 1 (usable * 70 div 100)) (usable - 2);
          validation = min (max 1 (usable * 15 div 100)) (usable - train - 1)
      in (train, validation, usable - train - validation))"

lemma split_counts_sum:
  assumes "3 \<le> usable" and "split_counts usable = (t, v, w)"
  shows "t + v + w = usable" "0 < t" "0 < v" "0 < w"
proof -
  have t: "t = min (max 1 (usable * 70 div 100)) (usable - 2)"
    and v: "v = min (max 1 (usable * 15 div 100)) (usable - t - 1)" and w: "w = usable - t - v"
    using assms(2) by (auto simp: split_counts_def Let_def)
  have "0 < t" "t \<le> usable - 2" using assms(1) unfolding t by auto
  moreover from this have "0 < v" "v \<le> usable - t - 1" using assms(1) unfolding v by auto
  ultimately show "t + v + w = usable" "0 < t" "0 < v" "0 < w" using assms(1) w by auto
qed

lemma split_counts_int:
  assumes "3 \<le> usable" and "split_counts usable = (t, v, w)"
  shows "nat (min (max 1 (int usable * 70 div 100)) (int usable - 2)) = t"
    and "nat (min (max 1 (int usable * 15 div 100)) (int usable - int t - 1)) = v"
    and "nat (int usable) - t - v = w"
proof -
  have t: "t = min (max 1 (usable * 70 div 100)) (usable - 2)"
    and v: "v = min (max 1 (usable * 15 div 100)) (usable - t - 1)" and w: "w = usable - t - v"
    using assms(2) by (auto simp: split_counts_def Let_def)
  have "min (max 1 (int usable * 70 div 100)) (int usable - 2) = int t"
    using assms(1) by (simp add: t zdiv_int of_nat_diff of_nat_min of_nat_max)
  then show "nat (min (max 1 (int usable * 70 div 100)) (int usable - 2)) = t" by simp
  have "t + 1 \<le> usable" using split_counts_sum(1,4) [OF assms] by simp
  then have "min (max 1 (int usable * 15 div 100)) (int usable - int t - 1) = int v"
    by (simp add: v zdiv_int of_nat_diff of_nat_min of_nat_max)
  then show "nat (min (max 1 (int usable * 15 div 100)) (int usable - int t - 1)) = v" by simp
  show "nat (int usable) - t - v = w" by (simp add: w)
qed

lemma build_split_plan_eq:
  assumes "distinct observed" and "87 \<le> length observed" and "split_counts (length observed - 84) = (t, v, w)"
  shows "build_split_plan observed =
    (let train = take t observed; validation = slice observed (t + 42) (t + 42 + v);
         test = slice observed (t + 42 + v + 42) (t + 42 + v + 42 + w)
     in Inr \<lparr>sp_session_splits = map (\<lambda>s. (s, TRAIN)) train @ map (\<lambda>s. (s, VALIDATION)) validation @
               map (\<lambda>s. (s, TEST)) test,
             sp_train_sessions = train, sp_validation_sessions = validation, sp_test_sessions = test,
             sp_first_purge_sessions = slice observed t (t + 42),
             sp_second_purge_sessions = slice observed (t + 42 + v) (t + 42 + v + 42)\<rparr>)"
proof -
  define u where "u = length observed - 84"
  have "3 \<le> u" using assms(2) by (simp add: u_def)
  note counts = split_counts_int [OF this assms(3) [folded u_def]]
  have usable: "int (length observed) - 2 * int PURGE_SESSIONS = int u"
    using assms(2) by (simp add: u_def PURGE_SESSIONS_def)
  show ?thesis
    unfolding build_split_plan_def usable Let_def counts
    using assms(1) \<open>3 \<le> u\<close> by (simp add: PURGE_SESSIONS_def MINIMUM_USABLE_SPLIT_SESSIONS_def)
qed

lemma build_split_plan_Inr:
  "(\<exists>p. build_split_plan observed = Inr p) \<longleftrightarrow> distinct observed \<and> 87 \<le> length observed"
proof
  have "\<not> (\<exists>p. build_split_plan observed = Inr p)" if "length observed < 87"
    using that unfolding build_split_plan_def Let_def
    by (simp add: PURGE_SESSIONS_def MINIMUM_USABLE_SPLIT_SESSIONS_def)
  moreover have "\<not> (\<exists>p. build_split_plan observed = Inr p)" if "\<not> distinct observed"
    using that by (simp add: build_split_plan_def)
  moreover assume "\<exists>p. build_split_plan observed = Inr p"
  ultimately show "distinct observed \<and> 87 \<le> length observed" by fastforce
next
  assume "distinct observed \<and> 87 \<le> length observed"
  moreover obtain t v w where "split_counts (length observed - 84) = (t, v, w)" using prod_cases3 by blast
  ultimately show "\<exists>p. build_split_plan observed = Inr p"
    using build_split_plan_eq [of observed t v w] by (auto simp: Let_def)
qed

lemma split_parts:
  assumes "length observed = t + 42 + v + 42 + w"
  obtains a b c d e where "observed = a @ b @ c @ d @ e" "length a = t" "length b = 42" "length c = v"
    "length d = 42" "length e = w"
proof
  let ?b = "drop t observed" and ?c = "drop (t + 42) observed"
  let ?d = "drop (t + 42 + v) observed" and ?e = "drop (t + 42 + v + 42) observed"
  have step: "take k (drop n observed) @ drop (n + k) observed = drop n observed" for n k
    by (metis add.commute append_take_drop_id drop_drop)
  show "observed = take t observed @ take 42 ?b @ take v ?c @ take 42 ?d @ ?e"
    unfolding step append_take_drop_id by (rule refl)
qed (use assms in auto)

lemma map_of_const: "map_of (map (\<lambda>s. (s, x)) xs) k = (if k \<in> set xs then Some x else None)"
  by (induction xs) auto

lemma split_plan_parts:
  assumes "build_split_plan observed = Inr p"
  shows "observed = sp_train_sessions p @ sp_first_purge_sessions p @ sp_validation_sessions p @
      sp_second_purge_sessions p @ sp_test_sessions p"
    and "length (sp_first_purge_sessions p) = 42" and "length (sp_second_purge_sessions p) = 42"
    and "(length (sp_train_sessions p), length (sp_validation_sessions p), length (sp_test_sessions p)) =
      split_counts (length observed - 84)"
    and "map_of (sp_session_splits p) s =
      (if s \<in> set (sp_train_sessions p) then Some TRAIN else if s \<in> set (sp_validation_sessions p) then Some VALIDATION
       else if s \<in> set (sp_test_sessions p) then Some TEST else None)"
    and "distinct observed" and "87 \<le> length observed"
proof -
  have ok: "distinct observed" "87 \<le> length observed" using assms build_split_plan_Inr by blast+
  obtain t v w where counts: "split_counts (length observed - 84) = (t, v, w)" using prod_cases3 by blast
  have "3 \<le> length observed - 84" using ok(2) by simp
  from split_counts_sum(1) [OF this counts] have "length observed = t + 42 + v + 42 + w" using ok(2) by simp
  then obtain a b c d e where parts: "observed = a @ b @ c @ d @ e" "length a = t" "length b = 42" "length c = v"
    "length d = 42" "length e = w" by (rule split_parts)
  have p: "p = \<lparr>sp_session_splits = map (\<lambda>s. (s, TRAIN)) a @ map (\<lambda>s. (s, VALIDATION)) c @ map (\<lambda>s. (s, TEST)) e,
      sp_train_sessions = a, sp_validation_sessions = c, sp_test_sessions = e,
      sp_first_purge_sessions = b, sp_second_purge_sessions = d\<rparr>"
    using assms build_split_plan_eq [OF ok counts] parts by (simp add: Let_def slice_def)
  show "distinct observed" "87 \<le> length observed" by (fact ok)+
  show "observed = sp_train_sessions p @ sp_first_purge_sessions p @ sp_validation_sessions p @
      sp_second_purge_sessions p @ sp_test_sessions p" using parts by (simp add: p)
  show "length (sp_first_purge_sessions p) = 42" "length (sp_second_purge_sessions p) = 42"
    using parts by (simp_all add: p)
  show "(length (sp_train_sessions p), length (sp_validation_sessions p), length (sp_test_sessions p)) =
      split_counts (length observed - 84)" using parts counts by (simp add: p)
  show "map_of (sp_session_splits p) s =
      (if s \<in> set (sp_train_sessions p) then Some TRAIN else if s \<in> set (sp_validation_sessions p) then Some VALIDATION
       else if s \<in> set (sp_test_sessions p) then Some TEST else None)"
    by (auto simp: p map_of_append map_add_def map_of_const split: option.splits)
qed

end
