(* ===== verification/Feature_Proofs.thy ===== *)
theory Feature_Proofs
  imports Feature_Dataset Feature_Index_Proofs
begin

text \<open>
  What the builder admits and where it takes it from: the records that pass \<open>_records\<close> are sorted, belong to their
  calendar session and are hashed; session summaries of a prefix that ends at a session boundary are a prefix of the
  summaries; the summaries a session reads are those of the bars that end before it opens.
\<close>

section \<open>Admitted records\<close>

definition admissible :: "feature_builder \<Rightarrow> ustr \<Rightarrow> minute_record \<Rightarrow> bool" where
  "admissible b instrument_id r \<longleftrightarrow>
     cm_instrument_id r = instrument_id \<and> 0 < cm_minute_end r \<and> record_conflict b r = Inr False"

lemma admit_record_Inr:
  "admit_record b i r (previous, endpoints, records) = Inr st \<longleftrightarrow>
     st = (cm_minute_end r, insert (cm_minute_end r) endpoints, records @ [r]) \<and>
     int (length records) < fb_maximum_records b \<and> cm_instrument_id r = i \<and> cm_minute_end r \<notin> endpoints \<and>
     previous < cm_minute_end r \<and> record_conflict b r = Inr False"
  by (auto simp: admit_record_def)

lemma fold_admit_Inr:
  assumes "fold_result (admit_record b i) emitted (previous, endpoints, records) = Inr (p, e, rs)"
    and "0 \<le> previous"
  shows "rs = records @ emitted \<and> (\<forall>r \<in> set emitted. admissible b i r \<and> previous < cm_minute_end r) \<and>
    sorted_wrt (<) (map cm_minute_end emitted)"
  using assms
proof (induction emitted arbitrary: previous endpoints records)
  case (Cons r emitted)
  from Cons.prems obtain st where st: "admit_record b i r (previous, endpoints, records) = Inr st"
    and rest: "fold_result (admit_record b i) emitted st = Inr (p, e, rs)"
    by (auto split: sum.splits)
  from st have r: "st = (cm_minute_end r, insert (cm_minute_end r) endpoints, records @ [r])"
      "cm_instrument_id r = i" "previous < cm_minute_end r" "record_conflict b r = Inr False"
    by (auto simp: admit_record_Inr)
  have "0 \<le> cm_minute_end r" using r Cons.prems by simp
  from Cons.IH [OF rest [unfolded r(1)] this] show ?case
    using r Cons.prems by (auto simp: admissible_def)
qed simp

lemma builder_records_Inr:
  assumes "builder_records b source i = Inr rs"
  shows "src_iter_instrument source i = (rs, None)" and "sorted_wrt (<) (map cm_minute_end rs)"
    and "\<forall>r \<in> set rs. admissible b i r"
proof -
  obtain emitted failure where iter: "src_iter_instrument source i = (emitted, failure)" by fastforce
  with assms obtain p e where fold: "fold_result (admit_record b i) emitted (0, {}, []) = Inr (p, e, rs)"
      and "failure = None"
    by (auto simp: builder_records_def split: option.splits)
  with fold_admit_Inr [OF fold] iter
  show "src_iter_instrument source i = (rs, None)" "sorted_wrt (<) (map cm_minute_end rs)"
    "\<forall>r \<in> set rs. admissible b i r" by auto
qed

text \<open>What an admitted record says about the calendar.\<close>

definition builder_ok :: "feature_builder \<Rightarrow> bool" where
  "builder_ok b \<longleftrightarrow> calendar_ok (fb_calendar b) \<and>
     (\<exists>universe sectors events maximum. builder_init universe (fb_calendar b) sectors events maximum = Inr b)"

lemma builder_init_Inr:
  assumes "builder_init universe calendar sectors events maximum = Inr b"
  shows "fb_session_by_id b = collect_last session_id (sessions calendar)"
    and "required_horizon_specs (calendar_version calendar) PAUSE = Inr (fb_horizons b)"
    and "fb_calendar b = calendar" and "fb_universe b = universe"
    and "fb_resolved b = collect_last (\<lambda>e. identifier_hex (the (entry_instrument_id e)))
      (filter (\<lambda>e. resolution_code e = RESOLVED \<and> entry_instrument_id e \<noteq> None) (us_ordered_entries universe))"
  using assms by (cases "required_horizon_specs (calendar_version calendar) PAUSE";
      auto simp: builder_init_def split: if_splits option.splits)+

lemma builder_ok_sessions:
  assumes "builder_ok b"
  shows "fb_session_by_id b = collect_last session_id (sessions (fb_calendar b))"
    and "required_horizon_specs (calendar_version (fb_calendar b)) PAUSE = Inr (fb_horizons b)"
proof -
  from assms obtain u s e m where i: "builder_init u (fb_calendar b) s e m = Inr b" unfolding builder_ok_def by blast
  show "fb_session_by_id b = collect_last session_id (sessions (fb_calendar b))" by (rule builder_init_Inr(1) [OF i])
  show "required_horizon_specs (calendar_version (fb_calendar b)) PAUSE = Inr (fb_horizons b)"
    by (rule builder_init_Inr(2) [OF i])
qed

lemma record_conflict_False:
  "record_conflict b r = Inr False \<longleftrightarrow>
     (\<exists>session. map_of (fb_session_by_id b) (cm_session_id r) = Some session \<and>
        cm_session_open r = session_open session \<and> cm_session_close r = session_close session \<and>
        session_open session < cm_minute_end r \<and> cm_minute_end r \<le> session_close session \<and>
        cm_minute_start r + MINUTE_NS = cm_minute_end r \<and>
        cm_minute_end r \<le> cm_source_availability_time_ns r \<and>
        cm_source_availability_time_ns r \<le> cm_local_receipt_time_ns r \<and>
        cm_local_receipt_time_ns r \<le> cm_local_processing_time_ns r \<and>
        (case cm_source_publication_time_ns r of None \<Rightarrow> True | Some t \<Rightarrow> t \<le> cm_source_availability_time_ns r) \<and>
        record_digest r = Inr (cm_record_sha256 r))"
  by (auto simp: record_conflict_def dataset_py_def not_less split: option.splits sum.splits)

definition session_of :: "feature_builder \<Rightarrow> minute_record \<Rightarrow> trading_session" where
  "session_of b r = the (map_of (fb_session_by_id b) (cm_session_id r))"


lemma session_lookup:
  assumes "builder_ok b"
  shows "map_of (fb_session_by_id b) k = Some s \<longleftrightarrow> s \<in> set (sessions (fb_calendar b)) \<and> session_id s = k"
proof -
  have d: "distinct (map session_id (sessions (fb_calendar b)))"
    using assms calendar_ok_order(2) by (simp add: builder_ok_def)
  have "last_per_key session_id (sessions (fb_calendar b)) k = Some s" if "s \<in> set (sessions (fb_calendar b))" "session_id s = k"
  proof -
    have "last_per_key session_id (sessions (fb_calendar b)) k \<noteq> None" using that by auto
    then obtain s' where s': "last_per_key session_id (sessions (fb_calendar b)) k = Some s'" by blast
    then have "s' = s" using last_per_key_SomeD [OF s'] that d by (auto simp: distinct_map inj_on_def)
    then show ?thesis using s' by simp
  qed
  then show ?thesis
    using last_per_key_SomeD by (fastforce simp: builder_ok_sessions [OF assms] map_of_collect_last)
qed


section \<open>Summaries\<close>

lemma summary_start_session: "summary_start r = Inr m \<Longrightarrow> ms_session_id m = cm_session_id r"
  by (auto simp: summary_start_def)

lemma summary_add_session: "summary_add r m = Inr m' \<Longrightarrow> ms_session_id m' = ms_session_id m"
  by (auto simp: summary_add_def)

lemma summary_freeze_session [simp]: "ss_session_id (summary_freeze m) = ms_session_id m"
  by (simp add: summary_freeze_def)

text \<open>The frozen summaries are only appended to.\<close>

lemma summary_step_shift:
  "summary_step r (c, frozen @ new) = map_result (\<lambda>(c', new'). (c', frozen @ new')) (summary_step r (c, new))"
  by (auto simp: summary_step_def map_result_def split: option.splits sum.splits)

lemma fold_summary_shift:
  "fold_result summary_step rs (c, frozen @ new) =
     map_result (\<lambda>(c', new'). (c', frozen @ new')) (fold_result summary_step rs (c, new))"
proof (induction rs arbitrary: c new)
  case (Cons r rs)
  show ?case
    using Cons.IH by (auto simp: summary_step_shift map_result_def split: sum.splits)
qed simp

lemma fold_summary_session:
  assumes "fold_result summary_step rs (c, frozen) = Inr (Some m, frozen')" and "rs \<noteq> []"
  shows "ms_session_id m = cm_session_id (last rs)"
  using assms
proof (induction rs arbitrary: c frozen)
  case (Cons r rs)
  from Cons.prems obtain c1 done1 where step: "summary_step r (c, frozen) = Inr (c1, done1)"
    and rest: "fold_result summary_step rs (c1, done1) = Inr (Some m, frozen')" by (auto split: sum.splits)
  show ?case
  proof (cases "rs = []")
    case True
    then show ?thesis
      using step rest by (auto simp: summary_step_def summary_start_session summary_add_session
          split: option.splits if_splits)
  next
    case False
    then show ?thesis using Cons.IH [OF rest] by simp
  qed
qed simp

lemma fold_summary_open:
  assumes "fold_result summary_step rs (c, frozen) = Inr (c', frozen')" and "rs \<noteq> []"
  shows "\<exists>m. c' = Some m"
  using assms
proof (induction rs arbitrary: c frozen)
  case (Cons r rs)
  from Cons.prems obtain c1 done1 where step: "summary_step r (c, frozen) = Inr (c1, done1)"
    and rest: "fold_result summary_step rs (c1, done1) = Inr (c', frozen')" by (auto split: sum.splits)
  show ?case
  proof (cases "rs = []")
    case True
    then show ?thesis
      using step rest by (auto simp: summary_step_def split: option.splits if_splits)
  next
    case False
    then show ?thesis using Cons.IH [OF rest] by simp
  qed
qed simp

text \<open>A change of session splits the summaries.\<close>

lemma summaries_append:
  assumes "pre = [] \<or> post = [] \<or> cm_session_id (last pre) \<noteq> cm_session_id (hd post)"
    and "summaries_for_records (pre @ post) = Inr ss"
  shows "\<exists>a c. summaries_for_records pre = Inr a \<and> summaries_for_records post = Inr c \<and> ss = a @ c"
proof (cases "pre = [] \<or> post = []")
  case True
  then show ?thesis using assms(2) by (auto simp: summaries_for_records_def)
next
  case False
  then obtain r rs where post: "post = r # rs" by (cases post) auto
  from assms(2) obtain c1 done1 where pre: "fold_result summary_step pre (None, []) = Inr (c1, done1)"
    and rest: "map_result (\<lambda>(current, summaries).
        case current of None \<Rightarrow> summaries | Some m \<Rightarrow> summaries @ [summary_freeze m])
       (fold_result summary_step post (c1, done1)) = Inr ss"
    by (auto simp: summaries_for_records_def fold_result_append split: sum.splits)
  obtain m where m: "c1 = Some m" using fold_summary_open [OF pre] False by blast
  then have change: "ms_session_id m \<noteq> cm_session_id r"
    using fold_summary_session [of pre None "[]" m done1] pre False assms(1) post by auto
  have "summary_step r (Some m, done1) = map_result (\<lambda>(c', new'). (c', (done1 @ [summary_freeze m]) @ new'))
      (summary_step r (None, []))"
    using change by (auto simp: summary_step_def map_result_def split: sum.splits)
  then have "fold_result summary_step post (c1, done1) =
      map_result (\<lambda>(c', new'). (c', (done1 @ [summary_freeze m]) @ new')) (fold_result summary_step post (None, []))"
    unfolding post m fold_result.simps
    by (cases "summary_step r (None, [])")
      (auto simp only: map_result_simps sum.case case_prod_conv fold_summary_shift split: prod.split)
  then obtain c2 new2 where "fold_result summary_step post (None, []) = Inr (c2, new2)"
    and "ss = (case c2 of None \<Rightarrow> done1 @ [summary_freeze m] @ new2
        | Some m' \<Rightarrow> done1 @ [summary_freeze m] @ new2 @ [summary_freeze m'])"
    using rest by (auto split: option.splits)
  with m pre show ?thesis by (cases c2) (simp_all add: summaries_for_records_def)
qed


lemma summaries_sessions:
  assumes "summaries_for_records rs = Inr ss"
  shows "ss_session_id ` set ss \<subseteq> cm_session_id ` set rs"
proof -
  have "(case c' of None \<Rightarrow> True | Some m \<Rightarrow> ms_session_id m \<in> A) \<and> ss_session_id ` set new \<subseteq> A"
    if "fold_result summary_step rs (c, frozen) = Inr (c', new)" "cm_session_id ` set rs \<subseteq> A"
      "case c of None \<Rightarrow> True | Some m \<Rightarrow> ms_session_id m \<in> A" "ss_session_id ` set frozen \<subseteq> A"
    for rs c frozen c' new and A :: "ustr set"
    using that
  proof (induction rs arbitrary: c frozen)
    case (Cons r rs)
    from Cons.prems obtain c1 f1 where step: "summary_step r (c, frozen) = Inr (c1, f1)"
      and rest: "fold_result summary_step rs (c1, f1) = Inr (c', new)" by (auto split: sum.splits)
    have "(case c1 of None \<Rightarrow> True | Some m \<Rightarrow> ms_session_id m \<in> A) \<and> ss_session_id ` set f1 \<subseteq> A"
      using step Cons.prems(2-4)
      by (auto simp: summary_step_def summary_start_session summary_add_session image_subset_iff
          split: option.splits if_splits)
    then show ?case using Cons.IH [OF rest] Cons.prems(2) by simp
  qed simp
  from this [of rs None "[]" _ _ "cm_session_id ` set rs"] assms show ?thesis
    by (fastforce simp: summaries_for_records_def split: option.splits)
qed

section \<open>Prior summaries look at earlier sessions only\<close>

lemma prior_summaries_lookup:
  assumes "distinct (map session_id (ys @ s # zs))"
  shows "map_of (prior_summaries f (ys @ s # zs) acc) (session_id s) =
    Some (acc @ List.map_filter (\<lambda>x. f (session_id x)) ys)"
  using assms
proof (induction ys arbitrary: acc)
  case (Cons y ys)
  then show ?case by (auto simp: map_filter_simps split: option.splits)
qed (simp add: map_filter_simps)

lemma prior_summaries_None: "map_of (prior_summaries f ss acc) k = None \<longleftrightarrow> k \<notin> session_id ` set ss"
  by (induction ss arbitrary: acc) auto


lemma admissible_session:
  assumes "builder_ok b" and "admissible b i r"
  shows "\<exists>s \<in> set (sessions (fb_calendar b)). session_id s = cm_session_id r \<and> cm_session_open r = session_open s \<and>
    cm_session_close r = session_close s \<and> session_open s < cm_minute_end r \<and> cm_minute_end r \<le> session_close s"
  using assms(2) by (auto simp: admissible_def record_conflict_False session_lookup [OF assms(1)])

lemma sessions_disjoint:
  assumes "calendar_ok calendar" and "x \<in> set (sessions calendar)" and "y \<in> set (sessions calendar)" and "x \<noteq> y"
  shows "session_close x < session_open y \<or> session_close y < session_open x"
proof -
  obtain k l where "k < length (sessions calendar)" "x = sessions calendar ! k"
    "l < length (sessions calendar)" "y = sessions calendar ! l"
    using assms(2,3) by (metis in_set_conv_nth)
  then show ?thesis
    using calendar_ok_order(1) [OF assms(1)] assms(4) by (cases k l rule: linorder_cases) (auto simp: sorted_wrt_iff_nth_less)
qed

lemma sorted_split_at:
  assumes "sorted_wrt (<) (map f rs)"
  shows "filter (\<lambda>r. f r \<le> (t :: int)) rs @ filter (\<lambda>r. t < f r) rs = rs"
  using assms
proof (induction rs)
  case (Cons a rs)
  show ?case
  proof (cases "f a \<le> t")
    case False
    then have "\<forall>x \<in> set rs. t < f x" using Cons.prems by auto
    then have "filter (\<lambda>r. f r \<le> t) rs = []" "filter (\<lambda>r. t < f r) rs = rs" by (auto simp: filter_empty_conv filter_id_conv)
    then show ?thesis using False by simp
  qed (use Cons in auto)
qed simp

lemma last_per_key_append:
  "k \<notin> key ` set ys \<Longrightarrow> last_per_key key (xs @ ys) k = last_per_key key xs k"
  by (induction ys rule: rev_induct) (auto simp del: append_assoc simp: append_assoc [symmetric])

lemma one_session:
  assumes "builder_ok b" and "admissible b i r" and "s \<in> set (sessions (fb_calendar b))"
    and "session_id s = cm_session_id r"
  shows "session_open s < cm_minute_end r" "cm_minute_end r \<le> session_close s"
    "cm_session_open r = session_open s" "cm_session_close r = session_close s"
proof -
  obtain s' where s': "s' \<in> set (sessions (fb_calendar b))" "session_id s' = cm_session_id r"
    "cm_session_open r = session_open s'" "cm_session_close r = session_close s'"
    "session_open s' < cm_minute_end r" "cm_minute_end r \<le> session_close s'"
    using admissible_session [OF assms(1,2)] by blast
  have "distinct (map session_id (sessions (fb_calendar b)))"
    using assms(1) calendar_ok_order(2) by (simp add: builder_ok_def)
  then have "s' = s" using s' assms(3,4) by (auto simp: distinct_map inj_on_def)
  with s' show "session_open s < cm_minute_end r" "cm_minute_end r \<le> session_close s"
    "cm_session_open r = session_open s" "cm_session_close r = session_close s" by auto
qed

lemma prior_from_past:
  assumes ok: "builder_ok b" and sorted: "sorted_wrt (<) (map cm_minute_end rs)"
    and adm: "\<forall>r \<in> set rs. admissible b i r" and summaries: "summaries_for_records rs = Inr ss"
    and calendar: "sessions (fb_calendar b) = ys @ s # zs"
  shows "\<exists>past. summaries_for_records (filter (\<lambda>r. cm_minute_end r \<le> session_open s) rs) = Inr past \<and>
    map_of (prior_summaries (map_of (collect_last ss_session_id ss)) (sessions (fb_calendar b)) []) (session_id s) =
    Some (List.map_filter (\<lambda>y. last_per_key ss_session_id past (session_id y)) ys)"
proof -
  let ?pre = "filter (\<lambda>r. cm_minute_end r \<le> session_open s) rs"
  let ?post = "filter (\<lambda>r. session_open s < cm_minute_end r) rs"
  have cal: "calendar_ok (fb_calendar b)" using ok by (simp add: builder_ok_def)
  have rs: "?pre @ ?post = rs" by (rule sorted_split_at [OF sorted])
  have s: "s \<in> set (sessions (fb_calendar b))" by (simp add: calendar)
  have crossing: "cm_session_id r \<noteq> cm_session_id r'" if in_pre: "r \<in> set ?pre" and in_post: "r' \<in> set ?post" for r r'
  proof
    assume same: "cm_session_id r = cm_session_id r'"
    obtain x where x: "x \<in> set (sessions (fb_calendar b))" "session_id x = cm_session_id r"
      using admissible_session [OF ok, of i r] adm in_pre in_post by auto
    have "session_open x < cm_minute_end r" "cm_minute_end r' \<le> session_close x"
      using one_session [OF ok _ x(1), of i r] one_session [OF ok _ x(1), of i r'] x(2) same adm in_pre in_post by auto
    moreover have "cm_minute_end r \<le> session_open s" "session_open s < cm_minute_end r'" using in_pre in_post by auto
    ultimately have "session_open x < session_open s" "session_open s < session_close x" by auto
    then show False
      using sessions_disjoint [OF cal x(1) s] calendar_ok_session(2) [OF cal s] by force
  qed
  have change: "?pre = [] \<or> ?post = [] \<or> cm_session_id (last ?pre) \<noteq> cm_session_id (hd ?post)"
  proof (cases "?pre = [] \<or> ?post = []")
    case False
    then have "last ?pre \<in> set ?pre" "hd ?post \<in> set ?post" using last_in_set hd_in_set by blast+
    then show ?thesis using crossing by blast
  qed auto
  from summaries_append [OF change] summaries rs obtain past later where
    past: "summaries_for_records ?pre = Inr past" and later: "summaries_for_records ?post = Inr later"
      and ss: "ss = past @ later" by auto
  have distinct: "distinct (map session_id (ys @ s # zs))" using calendar_ok_order(2) [OF cal] calendar by simp
  have "last_per_key ss_session_id ss (session_id y) = last_per_key ss_session_id past (session_id y)" if y: "y \<in> set ys" for y
  proof -
    have y_in: "y \<in> set (sessions (fb_calendar b))" using y by (simp add: calendar)
    have "session_close y < session_open s"
      using calendar_ok_order(1) [OF cal] y by (auto simp: calendar sorted_wrt_append)
    then have "session_id y \<noteq> cm_session_id r" if "r \<in> set ?post" for r
      using one_session(2) [OF ok _ y_in, of i r] adm that by auto
    then have "session_id y \<notin> cm_session_id ` set ?post" by blast
    then have "session_id y \<notin> ss_session_id ` set later" using summaries_sessions [OF later] by blast
    then show ?thesis unfolding ss by (rule last_per_key_append)
  qed
  then have "List.map_filter (\<lambda>y. last_per_key ss_session_id ss (session_id y)) ys =
      List.map_filter (\<lambda>y. last_per_key ss_session_id past (session_id y)) ys"
    unfolding List.map_filter_def by (intro map_cong filter_cong) auto
  with past show ?thesis
    unfolding calendar prior_summaries_lookup [OF distinct] by (simp add: map_of_collect_last)
qed

end
