(* ===== verification/Feature_Past.thy ===== *)
theory Feature_Past
  imports Feature_Proofs
begin

text \<open>
  Features read the past only. The values of a row depend on bars that end by its endpoint, on summaries of earlier
  sessions and on the aggregate of its endpoint, and each of these depends only on records up to that time. The second
  half characterises a pass over the samples, record by record, under the invariant of the target cache.
\<close>

section \<open>Features read the past only\<close>

lemma map_list_result_cong: "(\<And>x. x \<in> set xs \<Longrightarrow> f x = g x) \<Longrightarrow> map_list_result f xs = map_list_result g xs"
  by (induction xs) (simp_all split: sum.split)

abbreviation records_upto :: "int \<Rightarrow> minute_record list \<Rightarrow> minute_record list" where
  "records_upto t rs \<equiv> filter (\<lambda>r. cm_minute_end r \<le> t) rs"

lemma MINUTE_NS_nonneg: "0 \<le> MINUTE_NS"
  by (simp add: MINUTE_NS_def)

lemma earlier_endpoint: "0 \<le> k \<Longrightarrow> e - k * MINUTE_NS \<le> e"
  using MINUTE_NS_nonneg by simp

lemma window_return_cong:
  assumes "\<And>x. x \<le> cm_minute_end r \<Longrightarrow> f x = g x" and "0 \<le> k"
  shows "window_return r f k = window_return r g k"
  using assms(1) [OF earlier_endpoint [OF assms(2)]] by (simp add: window_return_def)

lemma rolling_loop_cong:
  assumes "\<And>x. x \<le> cm_minute_end r \<Longrightarrow> f x = g x"
  shows "rolling_loop r f offsets p vs qs = rolling_loop r g offsets p vs qs"
proof (induction offsets arbitrary: p vs qs)
  case (Cons k ks)
  have "f (cm_minute_end r - int k * MINUTE_NS) = g (cm_minute_end r - int k * MINUTE_NS)"
    by (rule assms [OF earlier_endpoint]) simp
  then show ?case using Cons.IH by (auto split: option.splits intro!: arg_cong2 [where f = bind_result])
qed simp

lemma feature_values_cong:
  assumes "\<And>x. x \<le> cm_minute_end r \<Longrightarrow> f x = g x"
    and "map_of aggregates1 (cm_minute_end r) = map_of aggregates2 (cm_minute_end r)"
  shows "feature_values b r f prior aggregates1 = feature_values b r g prior aggregates2"
proof -
  have "map_list_result (window_return r f) RETURN_WINDOWS = map_list_result (window_return r g) RETURN_WINDOWS"
    by (rule map_list_result_cong, rule window_return_cong [OF assms(1)]) (auto simp: RETURN_WINDOWS_def)
  moreover have "rolling_loop r f [1..<REALIZED_VOLATILITY_WINDOW + 1] r [] [] =
      rolling_loop r g [1..<REALIZED_VOLATILITY_WINDOW + 1] r [] []"
    by (rule rolling_loop_cong [OF assms(1)])
  ultimately show ?thesis unfolding feature_values_def assms(2) by (simp only:)
qed

lemma last_per_key_filter:
  assumes "P k"
  shows "last_per_key key (filter (\<lambda>x. P (key x)) xs) k = last_per_key key xs k"
proof -
  have "filter (\<lambda>x. key x = k) (filter (\<lambda>x. P (key x)) xs) = filter (\<lambda>x. key x = k) xs"
    using assms by (auto intro: filter_cong)
  then show ?thesis by (simp add: last_per_key_def)
qed

lemma by_endpoint_past:
  assumes "records_upto t rs1 = records_upto t rs2" and "x \<le> t"
  shows "map_of (collect_last cm_minute_end rs1) x = map_of (collect_last cm_minute_end rs2) x"
  unfolding map_of_collect_last
  using last_per_key_filter [where P = "\<lambda>k. k \<le> t" and key = cm_minute_end, OF assms(2), of rs1]
    last_per_key_filter [where P = "\<lambda>k. k \<le> t" and key = cm_minute_end, OF assms(2), of rs2] assms(1) by simp

section \<open>Aggregates up to a time\<close>

lemma filter_update:
  "filter (\<lambda>p. P (fst p)) (AList.update k v d) =
     (if P k then AList.update k v (filter (\<lambda>p. P (fst p)) d) else filter (\<lambda>p. P (fst p)) d)"
  by (induction d) auto

lemma map_of_filter_key: "P k \<Longrightarrow> map_of (filter (\<lambda>p. P (fst p)) d) k = map_of d k"
  by (induction d) auto

lemma filter_add_point:
  "filter (\<lambda>p. P (fst p)) (add_point k v a d) =
     (if P k then add_point k v a (filter (\<lambda>p. P (fst p)) d) else filter (\<lambda>p. P (fst p)) d)"
  by (simp add: add_point_def filter_update map_of_filter_key split: prod.splits)

abbreviation market_upto :: "int \<Rightarrow> (int \<times> 'a) list \<Rightarrow> (int \<times> 'a) list" where
  "market_upto t d \<equiv> filter (\<lambda>p. fst p \<le> t) d"

abbreviation sector_upto :: "int \<Rightarrow> ((int \<times> ustr) \<times> 'a) list \<Rightarrow> ((int \<times> ustr) \<times> 'a) list" where
  "sector_upto t d \<equiv> filter (\<lambda>p. fst (fst p) \<le> t) d"

definition state_upto :: "int \<Rightarrow> aggregate_state \<Rightarrow> aggregate_state" where
  "state_upto t st = (case st of (previous, market, sector) \<Rightarrow> (previous, market_upto t market, sector_upto t sector))"

lemma market_upto_add:
  "market_upto t (add_point k v a d) = (if k \<le> t then add_point k v a (market_upto t d) else market_upto t d)"
  using filter_add_point [of "\<lambda>k. k \<le> t" k v a d] by simp

lemma sector_upto_add:
  "sector_upto t (add_point (k, s) v a d) =
     (if k \<le> t then add_point (k, s) v a (sector_upto t d) else sector_upto t d)"
  using filter_add_point [of "\<lambda>k. fst k \<le> t" "(k, s)" v a d] by simp

lemma aggregate_record_upto:
  assumes "cm_minute_end r \<le> t"
  shows "aggregate_record b i r (state_upto t st) = map_result (state_upto t) (aggregate_record b i r st)"
  using assms
  by (cases st; cases "fst st")
    (auto simp: aggregate_record_def state_upto_def market_upto_add sector_upto_add map_result_def bind_result_def Let_def
      split: sum.splits option.splits)

lemma fold_aggregate_upto:
  assumes "\<forall>r \<in> set rs. cm_minute_end r \<le> t"
  shows "fold_result (aggregate_record b i) rs (state_upto t st) =
    map_result (state_upto t) (fold_result (aggregate_record b i) rs st)"
  using assms
proof (induction rs arbitrary: st)
  case (Cons r rs)
  show ?case
    using Cons by (cases "aggregate_record b i r st") (simp_all add: aggregate_record_upto)
qed simp

lemma aggregate_record_late:
  assumes "t < cm_minute_end r" and "aggregate_record b i r st = Inr st'"
  shows "snd (state_upto t st') = snd (state_upto t st)"
  using assms
  by (cases st; cases "fst st")
    (auto simp: aggregate_record_def state_upto_def market_upto_add sector_upto_add Let_def
      split: if_splits option.splits)

lemma fold_aggregate_late:
  assumes "\<forall>r \<in> set rs. t < cm_minute_end r" and "fold_result (aggregate_record b i) rs st = Inr st'"
  shows "snd (state_upto t st') = snd (state_upto t st)"
  using assms
proof (induction rs arbitrary: st)
  case (Cons r rs)
  then obtain st1 where "aggregate_record b i r st = Inr st1" "fold_result (aggregate_record b i) rs st1 = Inr st'"
    by (auto split: sum.splits)
  then show ?case using Cons aggregate_record_late [of t r b i st st1] by simp
qed simp

definition points_upto ::
    "int \<Rightarrow> (int \<times> aggregate_sums) list \<times> ((int \<times> ustr) \<times> aggregate_sums) list \<Rightarrow>
     (int \<times> aggregate_sums) list \<times> ((int \<times> ustr) \<times> aggregate_sums) list" where
  "points_upto t points = (market_upto t (fst points), sector_upto t (snd points))"

lemma aggregate_instrument_upto:
  assumes "aggregate_instrument b source i points = Inr points'" and "builder_records b source i = Inr rs"
  shows "\<exists>previous. fold_result (aggregate_record b i) (records_upto t rs) (None, points_upto t points) =
    Inr (previous, points_upto t points')"
proof -
  let ?pre = "records_upto t rs" and ?post = "filter (\<lambda>r. t < cm_minute_end r) rs"
  have rs: "?pre @ ?post = rs" by (rule sorted_split_at [OF builder_records_Inr(2) [OF assms(2)]])
  from assms obtain previous where "fold_result (aggregate_record b i) rs (None, points) = Inr (previous, points')"
    by (auto simp: aggregate_instrument_def)
  then obtain st where pre: "fold_result (aggregate_record b i) ?pre (None, points) = Inr st"
    and post: "fold_result (aggregate_record b i) ?post st = Inr (previous, points')"
    using fold_result_append [of "aggregate_record b i" ?pre ?post "(None, points)"] rs by (auto split: sum.splits)
  have "snd (state_upto t (previous, points')) = snd (state_upto t st)"
    by (rule fold_aggregate_late [OF _ post]) simp
  then have "state_upto t st = (fst st, points_upto t points')"
    by (cases st; cases points') (simp add: state_upto_def points_upto_def)
  moreover have "state_upto t (None, points) = (None, points_upto t points)"
    by (cases points) (simp add: state_upto_def points_upto_def)
  ultimately show ?thesis
    using fold_aggregate_upto [of ?pre t b i "(None, points)"] pre by auto
qed

definition same_past :: "feature_builder \<Rightarrow> int \<Rightarrow> canonical_source \<Rightarrow> canonical_source \<Rightarrow> bool" where
  "same_past b t source1 source2 \<longleftrightarrow> src_instrument_ids source1 = src_instrument_ids source2 \<and>
     (\<forall>i \<in> set (src_instrument_ids source1). \<exists>rs1 rs2. builder_records b source1 i = Inr rs1 \<and>
        builder_records b source2 i = Inr rs2 \<and> records_upto t rs1 = records_upto t rs2)"

lemma fold_instruments_upto:
  assumes "\<forall>i \<in> set ids. \<exists>rs1 rs2. builder_records b source1 i = Inr rs1 \<and> builder_records b source2 i = Inr rs2 \<and>
      records_upto t rs1 = records_upto t rs2"
    and "fold_result (aggregate_instrument b source1) ids points1 = Inr points1'"
    and "fold_result (aggregate_instrument b source2) ids points2 = Inr points2'"
    and "points_upto t points1 = points_upto t points2"
  shows "points_upto t points1' = points_upto t points2'"
  using assms
proof (induction ids arbitrary: points1 points2)
  case (Cons i ids)
  from Cons.prems obtain q1 q2 where q: "aggregate_instrument b source1 i points1 = Inr q1"
    "aggregate_instrument b source2 i points2 = Inr q2"
    and rest: "fold_result (aggregate_instrument b source1) ids q1 = Inr points1'"
    "fold_result (aggregate_instrument b source2) ids q2 = Inr points2'"
    by (auto split: sum.splits)
  from Cons.prems(1) obtain rs1 rs2 where rs: "builder_records b source1 i = Inr rs1" "builder_records b source2 i = Inr rs2"
    "records_upto t rs1 = records_upto t rs2" by auto
  have "points_upto t q1 = points_upto t q2"
    using aggregate_instrument_upto [OF q(1) rs(1), of t] aggregate_instrument_upto [OF q(2) rs(2), of t]
      rs(3) Cons.prems(4) by auto
  then show ?case using Cons.IH [OF _ rest] Cons.prems(1) by simp
qed simp

lemma map_list_result_filter:
  assumes "map_list_result f xs = Inr ys" and "\<And>x y. f x = Inr y \<Longrightarrow> Q y = P x"
  shows "map_list_result f (filter P xs) = Inr (filter Q ys)"
  using assms(1)
proof (induction xs arbitrary: ys)
  case (Cons x xs)
  then show ?case using assms(2) by (auto split: sum.splits)
qed simp

lemma points_at_upto: "e \<le> t \<Longrightarrow> points_at (sector_upto t sp) e = points_at sp e"
  unfolding points_at_def filter_filter
  by (rule arg_cong [where f = "map _"], rule filter_cong) auto

lemma market_point_cong:
  "points_at sp1 (fst p) = points_at sp2 (fst p) \<Longrightarrow> market_point sp1 p = market_point sp2 p"
  by (cases p) (simp add: market_point_def)

lemma aggregates_past:
  assumes "same_past b t source1 source2"
    and "cross_sectional_aggregates b source1 = Inr aggregates1" and "cross_sectional_aggregates b source2 = Inr aggregates2"
    and "e \<le> t"
  shows "map_of aggregates1 e = map_of aggregates2 e"
proof -
  from assms(2) obtain market1 sector1 sp1 where
    f1: "fold_result (aggregate_instrument b source1) (src_instrument_ids source1) ([], []) = Inr (market1, sector1)"
    and sp1: "map_list_result sector_point sector1 = Inr sp1" and m1: "map_list_result (market_point sp1) market1 = Inr aggregates1"
    by (auto simp: cross_sectional_aggregates_def split: if_splits)
  from assms(3) obtain market2 sector2 sp2 where
    f2: "fold_result (aggregate_instrument b source2) (src_instrument_ids source2) ([], []) = Inr (market2, sector2)"
    and sp2: "map_list_result sector_point sector2 = Inr sp2" and m2: "map_list_result (market_point sp2) market2 = Inr aggregates2"
    by (auto simp: cross_sectional_aggregates_def split: if_splits)
  have "points_upto t (market1, sector1) = points_upto t (market2, sector2)"
    using fold_instruments_upto [of "src_instrument_ids source1" b source1 source2 t "([], [])" "(market1, sector1)"
        "([], [])" "(market2, sector2)"] f1 f2 assms(1) by (auto simp: same_past_def)
  then have up: "market_upto t market1 = market_upto t market2" "sector_upto t sector1 = sector_upto t sector2"
    by (simp_all add: points_upto_def)
  have keep_sector: "(fst (fst y) \<le> t) = (fst (fst x) \<le> t)" if "sector_point x = Inr y" for x y
    using that by (cases x) (auto simp: sector_point_def)
  have "map_list_result sector_point (sector_upto t sector1) = Inr (sector_upto t sp1)"
    by (rule map_list_result_filter [OF sp1 keep_sector])
  moreover have "map_list_result sector_point (sector_upto t sector2) = Inr (sector_upto t sp2)"
    by (rule map_list_result_filter [OF sp2 keep_sector])
  ultimately have sp: "sector_upto t sp1 = sector_upto t sp2" using up by simp
  have keep_market: "(fst y \<le> t) = (fst x \<le> t)" if "market_point sp x = Inr y" for x y sp
    using that by (cases x) (auto simp: market_point_def)
  have same: "market_point sp1 p = market_point sp2 p" if "p \<in> set (market_upto t market1)" for p
    using that points_at_upto [of "fst p" t sp1] points_at_upto [of "fst p" t sp2] sp by (intro market_point_cong) simp
  have "map_list_result (market_point sp1) (market_upto t market1) = Inr (market_upto t aggregates1)"
    by (rule map_list_result_filter [OF m1 keep_market])
  moreover have "map_list_result (market_point sp2) (market_upto t market2) = Inr (market_upto t aggregates2)"
    by (rule map_list_result_filter [OF m2 keep_market])
  ultimately have "market_upto t aggregates1 = market_upto t aggregates2"
    using map_list_result_cong [of "market_upto t market1" "market_point sp1" "market_point sp2", OF same] up by simp
  then show ?thesis
    using map_of_filter_key [of "\<lambda>k. k \<le> t" e aggregates1] map_of_filter_key [of "\<lambda>k. k \<le> t" e aggregates2] assms(4)
    by simp
qed

section \<open>What a pass over the samples produces\<close>

definition cache_ok :: "feature_builder \<Rightarrow> target_cache \<Rightarrow> bool" where
  "cache_ok b cache \<longleftrightarrow> (\<forall>(as_of, targets) \<in> set cache. targets = map (resolution_of (fb_calendar b) as_of) (fb_horizons b))"

lemma horizon_targets_Inr:
  assumes "horizon_targets b as_of cache = Inr (targets, cache')" and "cache_ok b cache"
  shows "targets = map (resolution_of (fb_calendar b) as_of) (fb_horizons b)" "cache_ok b cache'"
  using assms
  by (auto simp: horizon_targets_def cache_ok_def Let_def dest!: map_of_SomeD split: option.splits if_splits)

definition sampled ::
    "feature_builder \<Rightarrow> split_plan \<Rightarrow> universe_entry \<Rightarrow> ustr \<Rightarrow> instrument_context \<Rightarrow> (int \<times> aggregate_point) list \<Rightarrow>
     normalization_stat list option \<Rightarrow> minute_record \<Rightarrow> feature_sample \<Rightarrow> bool" where
  "sampled b plan entry i ctx aggregates normalization r x \<longleftrightarrow>
     (\<exists>split cache cache'. map_of (sp_session_splits plan) (cm_session_id r) = Some split \<and> cache_ok b cache \<and>
        build_sample b entry i ctx aggregates normalization r split cache = Inr (x, cache'))"

abbreviation planned :: "split_plan \<Rightarrow> minute_record list \<Rightarrow> minute_record list" where
  "planned plan rs \<equiv> filter (\<lambda>r. map_of (sp_session_splits plan) (cm_session_id r) \<noteq> None) rs"

lemma build_labels_cache:
  "build_labels b r f cache = Inr (labels, cache') \<Longrightarrow> cache_ok b cache \<Longrightarrow> cache_ok b cache'"
  by (auto simp: build_labels_def dest: horizon_targets_Inr(2) split: if_splits)

lemma build_sample_cache:
  "build_sample b entry i ctx aggregates normalization r split cache = Inr (x, cache') \<Longrightarrow> cache_ok b cache \<Longrightarrow>
   cache_ok b cache'"
  by (auto simp: build_sample_def dest: build_labels_cache)

lemma fold_samples:
  assumes "fold_result (sample_record b plan entry i ctx aggregates normalization) rs (samples, cache) = Inr (samples', cache')"
    and "cache_ok b cache"
  shows "\<exists>xs. samples' = samples @ xs \<and> cache_ok b cache' \<and>
    list_all2 (sampled b plan entry i ctx aggregates normalization) (planned plan rs) xs"
  using assms
proof (induction rs arbitrary: samples cache)
  case (Cons r rs)
  show ?case
  proof (cases "map_of (sp_session_splits plan) (cm_session_id r)")
    case None
    then show ?thesis using Cons by (simp add: sample_record_def)
  next
    case (Some split)
    then have step: "sample_record b plan entry i ctx aggregates normalization r (samples, cache) =
        map_result (\<lambda>(x, c). (samples @ [x], c)) (build_sample b entry i ctx aggregates normalization r split cache)"
      by (simp add: sample_record_def)
    obtain x c where x: "build_sample b entry i ctx aggregates normalization r split cache = Inr (x, c)"
      and rest: "fold_result (sample_record b plan entry i ctx aggregates normalization) rs (samples @ [x], c) =
        Inr (samples', cache')"
      using Cons.prems(1) by (auto simp: step split: sum.splits)
    have "sampled b plan entry i ctx aggregates normalization r x" using Some x Cons.prems(2) by (auto simp: sampled_def)
    with Cons.IH [OF rest build_sample_cache [OF x Cons.prems(2)]] Some show ?thesis by auto
  qed
qed simp

definition instrument_samples ::
    "feature_builder \<Rightarrow> canonical_source \<Rightarrow> split_plan \<Rightarrow> (int \<times> aggregate_point) list \<Rightarrow>
     normalization_stat list option \<Rightarrow> ustr \<Rightarrow> feature_sample list \<Rightarrow> bool" where
  "instrument_samples b source plan aggregates normalization i xs \<longleftrightarrow>
     (\<exists>entry ctx. map_of (fb_resolved b) i = Some entry \<and> build_context b source i = Inr ctx \<and>
        list_all2 (sampled b plan entry i ctx aggregates normalization) (planned plan (ic_records ctx)) xs)"

lemma fold_instrument_samples:
  assumes "fold_result (sample_instrument b source plan aggregates normalization) ids (samples, cache) = Inr (samples', cache')"
    and "cache_ok b cache"
  shows "\<exists>xss. samples' = samples @ concat xss \<and>
    list_all2 (instrument_samples b source plan aggregates normalization) ids xss"
  using assms
proof (induction ids arbitrary: samples cache)
  case (Cons i ids)
  from Cons.prems(1) obtain samples1 cache1 where
      step: "sample_instrument b source plan aggregates normalization i (samples, cache) = Inr (samples1, cache1)"
    and rest: "fold_result (sample_instrument b source plan aggregates normalization) ids (samples1, cache1) = Inr (samples', cache')"
    by (auto split: sum.splits)
  from step obtain entry ctx where i: "map_of (fb_resolved b) i = Some entry" "build_context b source i = Inr ctx"
    and first: "fold_result (sample_record b plan entry i ctx aggregates normalization) (ic_records ctx) (samples, cache) =
      Inr (samples1, cache1)"
    by (auto simp: sample_instrument_def split: option.splits)
  from fold_samples [OF first Cons.prems(2)] obtain xs where xs: "samples1 = samples @ xs" "cache_ok b cache1"
    "list_all2 (sampled b plan entry i ctx aggregates normalization) (planned plan (ic_records ctx)) xs" by blast
  from Cons.IH [OF rest xs(2)] obtain xss where "samples' = samples1 @ concat xss"
    "list_all2 (instrument_samples b source plan aggregates normalization) ids xss" by blast
  moreover have "instrument_samples b source plan aggregates normalization i xs"
    unfolding instrument_samples_def using i xs(3) by blast
  ultimately show ?case using xs(1) by (intro exI [of _ "xs # xss"]) simp
qed simp

lemma iter_samples_Inr:
  assumes "iter_samples b source plan aggregates normalization cache = Inr (samples, cache')" and "cache_ok b cache"
  obtains xss where "samples = concat xss"
    "list_all2 (instrument_samples b source plan aggregates normalization) (src_instrument_ids source) xss"
  using assms fold_instrument_samples [of b source plan aggregates normalization "src_instrument_ids source" "[]" cache samples cache']
  by (auto simp: iter_samples_def split: if_splits)

lemma build_context_Inr:
  assumes "build_context b source i = Inr ctx"
  shows "builder_records b source i = Inr (ic_records ctx)"
    "ic_by_endpoint ctx = map_of (collect_last cm_minute_end (ic_records ctx))"
    "\<exists>ss. summaries_for_records (ic_records ctx) = Inr ss \<and>
       ic_prior ctx = prior_summaries (map_of (collect_last ss_session_id ss)) (sessions (fb_calendar b)) []"
  using assms by (auto simp: build_context_def)

lemma records_upto_upto: "s \<le> t \<Longrightarrow> records_upto s (records_upto t rs) = records_upto s rs"
  by (auto intro: filter_cong)

lemma prior_of_past:
  assumes "builder_ok b" and "build_context b source1 i = Inr ctx1" and "build_context b source2 i = Inr ctx2"
    and "records_upto t (ic_records ctx1) = records_upto t (ic_records ctx2)"
    and "r \<in> set (ic_records ctx1)" and "cm_minute_end r \<le> t"
  shows "prior_of ctx1 (cm_session_id r) = prior_of ctx2 (cm_session_id r)"
proof -
  note rs1 = builder_records_Inr [OF build_context_Inr(1) [OF assms(2)]]
  note rs2 = builder_records_Inr [OF build_context_Inr(1) [OF assms(3)]]
  from build_context_Inr(3) [OF assms(2)] build_context_Inr(3) [OF assms(3)] obtain ss1 ss2 where
    ss: "summaries_for_records (ic_records ctx1) = Inr ss1" "summaries_for_records (ic_records ctx2) = Inr ss2"
    and prior: "ic_prior ctx1 = prior_summaries (map_of (collect_last ss_session_id ss1)) (sessions (fb_calendar b)) []"
      "ic_prior ctx2 = prior_summaries (map_of (collect_last ss_session_id ss2)) (sessions (fb_calendar b)) []" by blast
  have adm: "admissible b i r" using rs1 assms(5) by blast
  from admissible_session [OF assms(1) adm] obtain s where s: "s \<in> set (sessions (fb_calendar b))" "session_id s = cm_session_id r"
    by blast
  from one_session(1) [OF assms(1) adm s] assms(6) have open_before: "session_open s \<le> t" by simp
  have "records_upto (session_open s) (ic_records ctx1) = records_upto (session_open s) (ic_records ctx2)"
    using records_upto_upto [OF open_before] assms(4) by metis
  moreover obtain ys zs where calendar: "sessions (fb_calendar b) = ys @ s # zs" using s(1) by (meson split_list)
  ultimately have "map_of (ic_prior ctx1) (session_id s) = map_of (ic_prior ctx2) (session_id s)"
    using prior_from_past [OF assms(1) rs1(2) _ ss(1) calendar, of i] prior_from_past [OF assms(1) rs2(2) _ ss(2) calendar, of i] rs1 rs2
    unfolding prior by auto
  then show ?thesis by (simp add: prior_of_def s(2))
qed

abbreviation without_labels :: "feature_sample \<Rightarrow> feature_sample" where
  "without_labels x \<equiv> x\<lparr>fs_sample_id := [], fs_labels := []\<rparr>"

lemma sampled_past:
  assumes "builder_ok b" and "build_context b source1 i = Inr ctx1" and "build_context b source2 i = Inr ctx2"
    and past: "records_upto t (ic_records ctx1) = records_upto t (ic_records ctx2)"
    and r: "r \<in> set (ic_records ctx1)" "cm_minute_end r \<le> t"
    and aggregates: "map_of aggregates1 (cm_minute_end r) = map_of aggregates2 (cm_minute_end r)"
    and x: "sampled b plan entry i ctx1 aggregates1 normalization r x"
    and y: "sampled b plan entry i ctx2 aggregates2 normalization r y"
  shows "without_labels x = without_labels y"
proof -
  have prior: "prior_of ctx1 (cm_session_id r) = prior_of ctx2 (cm_session_id r)"
    by (rule prior_of_past [OF assms(1-3) past r])
  have row: "feature_values b r (ic_by_endpoint ctx1) prior aggregates1 = feature_values b r (ic_by_endpoint ctx2) prior aggregates2" for prior
    by (rule feature_values_cong)
      (use by_endpoint_past [OF past] build_context_Inr(2) [OF assms(2)] build_context_Inr(2) [OF assms(3)] r(2) aggregates in auto)
  from x y show ?thesis unfolding sampled_def build_sample_def
    by (auto simp: prior row construct_def split: option.splits)
qed

lemma list_all2_map_eq:
  assumes "list_all2 P as xs" and "list_all2 Q as ys"
    and "\<And>a x y. a \<in> set as \<Longrightarrow> P a x \<Longrightarrow> Q a y \<Longrightarrow> f x = f y"
  shows "map f xs = map f ys"
  using assms
proof (induction as arbitrary: xs ys)
  case (Cons a as)
  from Cons.prems(1,2) obtain x xs' y ys' where "xs = x # xs'" "ys = y # ys'" "P a x" "Q a y" "list_all2 P as xs'" "list_all2 Q as ys'"
    by (auto simp: list_all2_Cons1)
  with Cons.IH [of xs' ys'] Cons.prems(3) show ?case by auto
qed simp

lemma list_all2_filter:
  assumes "list_all2 R xs ys" and "\<And>x y. R x y \<Longrightarrow> P x = Q y"
  shows "list_all2 R (filter P xs) (filter Q ys)"
  using assms(1) by induction (auto simp: assms(2))

lemma sampled_as_of:
  "sampled b plan entry i ctx aggregates normalization r x \<Longrightarrow> fs_as_of_ns x = cm_minute_end r"
  by (auto simp: sampled_def build_sample_def construct_def split: option.splits)

abbreviation samples_upto :: "int \<Rightarrow> feature_sample list \<Rightarrow> feature_sample list" where
  "samples_upto t xs \<equiv> filter (\<lambda>x. fs_as_of_ns x \<le> t) xs"

lemma records_upto_planned: "records_upto t (planned plan rs) = planned plan (records_upto t rs)"
  by (simp add: conj_commute)

lemma instrument_samples_past:
  assumes "builder_ok b" and "builder_records b source1 i = Inr rs1" and "builder_records b source2 i = Inr rs2"
    and "records_upto t rs1 = records_upto t rs2"
    and "\<And>e. e \<le> t \<Longrightarrow> map_of aggregates1 e = map_of aggregates2 e"
    and "instrument_samples b source1 plan aggregates1 normalization i xs"
    and "instrument_samples b source2 plan aggregates2 normalization i ys"
  shows "map without_labels (samples_upto t xs) = map without_labels (samples_upto t ys)"
proof -
  from assms(6) obtain entry ctx1 where 1: "map_of (fb_resolved b) i = Some entry" "build_context b source1 i = Inr ctx1"
    "list_all2 (sampled b plan entry i ctx1 aggregates1 normalization) (planned plan (ic_records ctx1)) xs"
    unfolding instrument_samples_def by blast
  from assms(7) 1(1) obtain ctx2 where 2: "build_context b source2 i = Inr ctx2"
    "list_all2 (sampled b plan entry i ctx2 aggregates2 normalization) (planned plan (ic_records ctx2)) ys"
    unfolding instrument_samples_def by auto
  have past: "records_upto t (ic_records ctx1) = records_upto t (ic_records ctx2)"
    using build_context_Inr(1) [OF 1(2)] build_context_Inr(1) [OF 2(1)] assms(2-4) by simp
  let ?rs = "records_upto t (planned plan (ic_records ctx1))"
  have xs: "list_all2 (sampled b plan entry i ctx1 aggregates1 normalization) ?rs (samples_upto t xs)"
    by (rule list_all2_filter [OF 1(3)]) (simp add: sampled_as_of)
  have "list_all2 (sampled b plan entry i ctx2 aggregates2 normalization) (records_upto t (planned plan (ic_records ctx2)))
      (samples_upto t ys)"
    by (rule list_all2_filter [OF 2(2)]) (simp add: sampled_as_of)
  then have ys: "list_all2 (sampled b plan entry i ctx2 aggregates2 normalization) ?rs (samples_upto t ys)"
    unfolding records_upto_planned past .
  show ?thesis
  proof (rule list_all2_map_eq [OF xs ys])
    fix r x y
    assume "r \<in> set ?rs"
    then have r: "r \<in> set (ic_records ctx1)" "cm_minute_end r \<le> t" by auto
    assume "sampled b plan entry i ctx1 aggregates1 normalization r x" "sampled b plan entry i ctx2 aggregates2 normalization r y"
    then show "without_labels x = without_labels y"
      by (rule sampled_past [OF assms(1) 1(2) 2(1) past r assms(5) [OF r(2)]])
  qed
qed

lemma samples_past:
  assumes "builder_ok b" and past: "same_past b t source1 source2"
    and "cross_sectional_aggregates b source1 = Inr aggregates1" and "cross_sectional_aggregates b source2 = Inr aggregates2"
    and "iter_samples b source1 plan aggregates1 normalization [] = Inr (samples1, cache1)"
    and "iter_samples b source2 plan aggregates2 normalization [] = Inr (samples2, cache2)"
  shows "map without_labels (samples_upto t samples1) = map without_labels (samples_upto t samples2)"
proof -
  let ?ids = "src_instrument_ids source1"
  have ids: "src_instrument_ids source2 = ?ids" using past by (simp add: same_past_def)
  have empty: "cache_ok b []" by (simp add: cache_ok_def)
  from iter_samples_Inr [OF assms(5) empty] obtain xss where xss: "samples1 = concat xss"
    "list_all2 (instrument_samples b source1 plan aggregates1 normalization) ?ids xss" by blast
  from iter_samples_Inr [OF assms(6) empty] ids obtain yss where yss: "samples2 = concat yss"
    "list_all2 (instrument_samples b source2 plan aggregates2 normalization) ?ids yss" by metis
  let ?f = "\<lambda>xs. map without_labels (samples_upto t xs)"
  have "map ?f xss = map ?f yss"
  proof (rule list_all2_map_eq [OF xss(2) yss(2)])
    fix i xs ys
    assume "i \<in> set ?ids" and x: "instrument_samples b source1 plan aggregates1 normalization i xs"
      and y: "instrument_samples b source2 plan aggregates2 normalization i ys"
    then obtain rs1 rs2 where rs: "builder_records b source1 i = Inr rs1" "builder_records b source2 i = Inr rs2"
      "records_upto t rs1 = records_upto t rs2" using past unfolding same_past_def by blast
    show "?f xs = ?f ys"
      by (rule instrument_samples_past [OF assms(1) rs aggregates_past [OF past assms(3,4)] x y])
  qed
  moreover have "?f (concat zss) = concat (map ?f zss)" for zss by (induction zss) auto
  ultimately show ?thesis using xss(1) yss(1) by simp
qed

end
