(* ===== verification/Feature_Results.thy ===== *)
theory Feature_Results
  imports Feature_Past
begin

text \<open>
  Results about what a whole pass produces: the fitted statistics, the meaning of every label, and the leakage scan of a
  dataset built from a plan, its fitted statistics and its samples.
\<close>

section \<open>Normalization reads the training past only\<close>

lemma same_pastE:
  assumes "same_past b t source1 source2" and "i \<in> set (src_instrument_ids source1)"
  obtains rs1 rs2 where "builder_records b source1 i = Inr rs1" "builder_records b source2 i = Inr rs2"
    "records_upto t rs1 = records_upto t rs2"
  using assms unfolding same_past_def by blast

lemma list_all2_set2: "list_all2 P xs ys \<Longrightarrow> y \<in> set ys \<Longrightarrow> \<exists>x \<in> set xs. P x y"
  by (induction rule: list_all2_induct) auto

lemma list_all2_set1: "list_all2 P xs ys \<Longrightarrow> x \<in> set xs \<Longrightarrow> \<exists>y \<in> set ys. P x y"
  by (induction rule: list_all2_induct) auto

abbreviation in_training :: "split_plan \<Rightarrow> minute_record \<Rightarrow> bool" where
  "in_training plan r \<equiv> map_of (sp_session_splits plan) (cm_session_id r) = Some TRAIN"

lemma fold_fit_training:
  "fold_result (fit_record b plan ctx aggregates) rs acc =
     fold_result (fit_record b plan ctx aggregates) (filter (in_training plan) rs) acc"
proof (induction rs arbitrary: acc)
  case (Cons r rs)
  show ?case
  proof (cases "in_training plan r")
    case True
    then show ?thesis using Cons.IH by (simp split: sum.split)
  next
    case False
    then have "fit_record b plan ctx aggregates r acc = Inr acc" by (simp add: fit_record_def)
    then show ?thesis using Cons.IH False by simp
  qed
qed simp

lemma fold_result_cong: "(\<And>x acc. x \<in> set xs \<Longrightarrow> f x acc = g x acc) \<Longrightarrow> fold_result f xs acc = fold_result g xs acc"
  by (induction xs arbitrary: acc) (simp_all split: sum.split)

lemma fit_instrument_past:
  assumes "builder_ok b" and "builder_records b source1 i = Inr rs1" and "builder_records b source2 i = Inr rs2"
    and past: "records_upto t rs1 = records_upto t rs2"
    and "\<And>e. e \<le> t \<Longrightarrow> map_of aggregates1 e = map_of aggregates2 e"
    and training: "\<forall>s \<in> set (sessions (fb_calendar b)). map_of (sp_session_splits plan) (session_id s) = Some TRAIN \<longrightarrow>
      session_close s \<le> t"
    and "fit_instrument b source1 plan aggregates1 i acc = Inr acc1"
    and "fit_instrument b source2 plan aggregates2 i acc = Inr acc2"
  shows "acc1 = acc2"
proof -
  from assms(7) obtain ctx1 where c1: "build_context b source1 i = Inr ctx1"
    and f1: "fold_result (fit_record b plan ctx1 aggregates1) (ic_records ctx1) acc = Inr acc1"
    by (auto simp: fit_instrument_def split: if_splits)
  from assms(8) obtain ctx2 where c2: "build_context b source2 i = Inr ctx2"
    and f2: "fold_result (fit_record b plan ctx2 aggregates2) (ic_records ctx2) acc = Inr acc2"
    by (auto simp: fit_instrument_def split: if_splits)
  have rs: "ic_records ctx1 = rs1" "ic_records ctx2 = rs2"
    using build_context_Inr(1) [OF c1] build_context_Inr(1) [OF c2] assms(2,3) by auto
  have early: "cm_minute_end r \<le> t" if "admissible b i r" "in_training plan r" for r
    using admissible_session [OF assms(1) that(1)] training that(2) by force
  have upto: "filter (in_training plan) xs = filter (in_training plan) (records_upto t xs)" if "\<forall>r \<in> set xs. admissible b i r" for xs
    unfolding filter_filter by (rule filter_cong) (use early that in auto)
  have same: "filter (in_training plan) rs1 = filter (in_training plan) rs2"
    using upto builder_records_Inr(3) [OF assms(2)] builder_records_Inr(3) [OF assms(3)] past by metis
  have "fit_record b plan ctx1 aggregates1 r a = fit_record b plan ctx2 aggregates2 r a"
    if "r \<in> set (filter (in_training plan) rs1)" for r a
  proof -
    have r: "r \<in> set (ic_records ctx1)" "cm_minute_end r \<le> t"
      using that rs builder_records_Inr(3) [OF assms(2)] early by auto
    have "prior_of ctx1 (cm_session_id r) = prior_of ctx2 (cm_session_id r)"
      by (rule prior_of_past [OF assms(1) c1 c2 _ r]) (simp add: rs past)
    moreover have "feature_values b r (ic_by_endpoint ctx1) prior aggregates1 = feature_values b r (ic_by_endpoint ctx2) prior aggregates2" for prior
      by (rule feature_values_cong)
        (use by_endpoint_past [OF past] build_context_Inr(2) [OF c1] build_context_Inr(2) [OF c2] r(2) rs assms(5) in auto)
    ultimately show ?thesis by (simp add: fit_record_def)
  qed
  then have "fold_result (fit_record b plan ctx1 aggregates1) (filter (in_training plan) rs1) acc =
      fold_result (fit_record b plan ctx2 aggregates2) (filter (in_training plan) rs1) acc"
    by (rule fold_result_cong)
  then show ?thesis
    using f1 f2 fold_fit_training [of b plan ctx1 aggregates1 rs1] fold_fit_training [of b plan ctx2 aggregates2 rs2] same rs by simp
qed

lemma fit_past:
  assumes "builder_ok b" and past: "same_past b t source1 source2"
    and "cross_sectional_aggregates b source1 = Inr aggregates1" and "cross_sectional_aggregates b source2 = Inr aggregates2"
    and training: "\<forall>s \<in> set (sessions (fb_calendar b)). map_of (sp_session_splits plan) (session_id s) = Some TRAIN \<longrightarrow>
      session_close s \<le> t"
    and "builder_fit b source1 plan aggregates1 = Inr stats1" and "builder_fit b source2 plan aggregates2 = Inr stats2"
  shows "stats1 = stats2"
proof -
  have "acc1 = acc2" if "set ids \<subseteq> set (src_instrument_ids source1)"
    "fold_result (fit_instrument b source1 plan aggregates1) ids acc = Inr acc1"
    "fold_result (fit_instrument b source2 plan aggregates2) ids acc = Inr acc2" for ids acc acc1 acc2
    using that
  proof (induction ids arbitrary: acc)
    case (Cons i ids)
    from Cons.prems(2,3) obtain a1 a2 where a: "fit_instrument b source1 plan aggregates1 i acc = Inr a1"
      "fit_instrument b source2 plan aggregates2 i acc = Inr a2"
      "fold_result (fit_instrument b source1 plan aggregates1) ids a1 = Inr acc1"
      "fold_result (fit_instrument b source2 plan aggregates2) ids a2 = Inr acc2" by (auto split: sum.splits)
    from Cons.prems(1) obtain rs1 rs2 where rs: "builder_records b source1 i = Inr rs1" "builder_records b source2 i = Inr rs2"
      "records_upto t rs1 = records_upto t rs2" using same_pastE [OF past, of i] by auto
    have "a1 = a2" by (rule fit_instrument_past [OF assms(1) rs aggregates_past [OF past assms(3,4)] training a(1,2)])
    with Cons.IH [of a1] Cons.prems(1) a(3,4) show ?case by simp
  qed simp
  moreover have "src_instrument_ids source2 = src_instrument_ids source1" using past by (simp add: same_past_def)
  ultimately show ?thesis using assms(6,7) unfolding builder_fit_def by force
qed

section \<open>What a label means\<close>

lemma last_per_key_find:
  assumes "sorted_wrt (<) (map (key :: 'a \<Rightarrow> int) xs)"
  shows "last_per_key key xs k = find (\<lambda>x. key x = k) xs"
proof -
  have "filter (\<lambda>x. key x = k) xs = (case find (\<lambda>x. key x = k) xs of None \<Rightarrow> [] | Some x \<Rightarrow> [x])"
    using assms
  proof (induction xs)
    case (Cons x xs)
    then have "filter (\<lambda>y. key y = key x) xs = []" by (auto simp: filter_empty_conv)
    with Cons show ?case by auto
  qed simp
  then show ?thesis by (simp add: last_per_key_def split: option.splits)
qed

definition nearest_return :: "int \<Rightarrow> int \<Rightarrow> int \<Rightarrow> bool" where
  "nearest_return now later v \<longleftrightarrow>
     2 * \<bar>(later - now) * PPM_SCALE - v * now\<bar> \<le> now \<and>
     (2 * \<bar>(later - now) * PPM_SCALE - v * now\<bar> = now \<longrightarrow> \<bar>(later - now) * PPM_SCALE\<bar> < \<bar>v\<bar> * now)"

lemma return_ppm_Inr: "return_ppm later now = Inr v \<Longrightarrow> 0 < now \<and> 0 < later \<and> nearest_return now later v"
  using divide_round_nearest [of now "(later - now) * PPM_SCALE"]
  by (auto simp: return_ppm_def nearest_return_def checked_int64_def split: if_splits)

definition label_spec :: "feature_builder \<Rightarrow> minute_record list \<Rightarrow> minute_record \<Rightarrow> horizon_spec \<Rightarrow> feature_label \<Rightarrow> bool" where
  "label_spec b rs r h l \<longleftrightarrow> fl_horizon l = hs_label h \<and>
     (case resolve_horizon h (cm_minute_end r) (fb_calendar b) of
        Inl e \<Rightarrow> fl_validity l = LABEL_MISSING \<and> fl_target_time_ns l = None \<and>
          fl_missing_reason l = Some (horizon_code_name (horizon_code e))
      | Inr target \<Rightarrow> fl_target_time_ns l = Some (ht_target target) \<and>
          (case find (\<lambda>q. cm_minute_end q = ht_target target) rs of
             None \<Rightarrow> fl_validity l = LABEL_MISSING \<and> fl_missing_reason l = Some (dataset_code_value MISSING_TARGET_BAR)
           | Some q \<Rightarrow>
               (case change_reason r q of
                  Some code \<Rightarrow> fl_validity l = LABEL_INVALID \<and> fl_missing_reason l = Some (dataset_code_value code)
                | None \<Rightarrow> fl_validity l = LABEL_VALID \<and> fl_future_price_ticks l = Some (cm_close_ticks q) \<and>
                    (\<exists>v. fl_return_ppm l = Some v \<and> nearest_return (cm_close_ticks r) (cm_close_ticks q) v \<and>
                       fl_direction l = Some (sgn v)))))"

lemma build_label_Inr:
  assumes "build_label r f version (h, resolution_of (fb_calendar b) (cm_minute_end r) h) = Inr l"
    and "f = map_of (collect_last cm_minute_end rs)" and "sorted_wrt (<) (map cm_minute_end rs)"
  shows "label_spec b rs r h l"
proof -
  have f: "f x = find (\<lambda>q. cm_minute_end q = x) rs" for x
    by (simp add: assms(2) map_of_collect_last last_per_key_find [OF assms(3)])
  show ?thesis
  proof (cases "resolve_horizon h (cm_minute_end r) (fb_calendar b)")
    case (Inl e)
    then show ?thesis using assms(1) by (auto simp: build_label_def resolution_of_def label_spec_def missing_label_def)
  next
    case (Inr target)
    show ?thesis
    proof (cases "find (\<lambda>q. cm_minute_end q = ht_target target) rs")
      case None
      then have "l = missing_label (hs_label h) (Some (ht_target target)) version LABEL_MISSING (dataset_code_value MISSING_TARGET_BAR)"
        using assms(1) by (simp add: build_label_def resolution_of_def Inr f)
      then show ?thesis by (simp add: label_spec_def Inr None missing_label_def)
    next
      case (Some q)
      show ?thesis
      proof (cases "change_reason r q")
        case None
        then obtain v where v: "return_ppm (cm_close_ticks q) (cm_close_ticks r) = Inr v"
          and l: "fl_horizon l = hs_label h" "fl_target_time_ns l = Some (ht_target target)" "fl_return_ppm l = Some v"
            "fl_direction l = Some (if 0 < v then 1 else if v < 0 then - 1 else 0)"
            "fl_future_price_ticks l = Some (cm_close_ticks q)" "fl_validity l = LABEL_VALID"
          using assms(1) by (auto simp: build_label_def resolution_of_def Inr f Some)
        have "(if 0 < v then 1 else if v < 0 then - 1 else 0) = sgn v" by (simp add: sgn_if)
        then show ?thesis using return_ppm_Inr [OF v] by (simp add: label_spec_def Inr Some None l)
      next
        case (Some code)
        then have "l = missing_label (hs_label h) (Some (ht_target target)) version LABEL_INVALID (dataset_code_value code)"
          using assms(1) by (simp add: build_label_def resolution_of_def Inr f \<open>find _ _ = Some q\<close>)
        then show ?thesis by (simp add: label_spec_def Inr \<open>find _ _ = Some q\<close> Some missing_label_def)
      qed
    qed
  qed
qed

lemma map_list_result_all2: "map_list_result f xs = Inr ys \<Longrightarrow> list_all2 (\<lambda>x y. f x = Inr y) xs ys"
  by (induction xs arbitrary: ys) (auto split: sum.splits)

lemma sampled_labels:
  assumes "build_context b source i = Inr ctx" and "sampled b plan entry i ctx aggregates normalization r x"
  shows "list_all2 (label_spec b (ic_records ctx) r) (fb_horizons b) (fs_labels x)"
proof -
  from assms(2) obtain cache cache' where "build_labels b r (ic_by_endpoint ctx) cache = Inr (fs_labels x, cache')" "cache_ok b cache"
    unfolding sampled_def build_sample_def by (auto simp: construct_def split: option.splits)
  then obtain version targets where
    "horizon_targets b (cm_minute_end r) cache = Inr (targets, cache')"
    and labels: "map_list_result (build_label r (ic_by_endpoint ctx) version) (zip (fb_horizons b) targets) = Inr (fs_labels x)"
    by (auto simp: build_labels_def split: if_splits)
  then have "targets = map (resolution_of (fb_calendar b) (cm_minute_end r)) (fb_horizons b)"
    using horizon_targets_Inr(1) \<open>cache_ok b cache\<close> by blast
  then have zip: "zip (fb_horizons b) targets = map (\<lambda>h. (h, resolution_of (fb_calendar b) (cm_minute_end r) h)) (fb_horizons b)"
    by (simp add: zip_map2 zip_same_conv_map)
  from map_list_result_all2 [OF labels] show ?thesis
    unfolding zip list_all2_map1
    by (rule list_all2_mono)
      (rule build_label_Inr [OF _ build_context_Inr(2) [OF assms(1)] builder_records_Inr(2) [OF build_context_Inr(1) [OF assms(1)]]])
qed

lemma sampled_identity:
  assumes "sampled b plan entry i ctx aggregates normalization r x"
  shows "fs_instrument_id x = i" "fs_session_id x = cm_session_id r" "fs_as_of_ns x = cm_minute_end r"
    "map_of (sp_session_splits plan) (cm_session_id r) = Some (fs_split x)" "feature_sample_post_init x = None"
  using assms by (auto simp: sampled_def build_sample_def construct_def split: option.splits)

lemma iter_samples_member:
  assumes "iter_samples b source plan aggregates normalization [] = Inr (samples, cache')" and "x \<in> set samples"
  obtains i entry ctx r where "i \<in> set (src_instrument_ids source)" "map_of (fb_resolved b) i = Some entry"
    "build_context b source i = Inr ctx" "r \<in> set (ic_records ctx)"
    "sampled b plan entry i ctx aggregates normalization r x"
proof -
  have "cache_ok b []" by (simp add: cache_ok_def)
  from iter_samples_Inr [OF assms(1) this] obtain xss where xss: "samples = concat xss"
    "list_all2 (instrument_samples b source plan aggregates normalization) (src_instrument_ids source) xss" by blast
  from assms(2) xss(1) obtain xs where xs: "xs \<in> set xss" "x \<in> set xs" by auto
  from list_all2_set2 [OF xss(2) xs(1)] obtain i where i: "i \<in> set (src_instrument_ids source)"
    "instrument_samples b source plan aggregates normalization i xs" by blast
  then obtain entry ctx where ctx: "map_of (fb_resolved b) i = Some entry" "build_context b source i = Inr ctx"
    "list_all2 (sampled b plan entry i ctx aggregates normalization) (planned plan (ic_records ctx)) xs"
    unfolding instrument_samples_def by blast
  from list_all2_set2 [OF ctx(3) xs(2)] obtain r where "r \<in> set (planned plan (ic_records ctx))"
    "sampled b plan entry i ctx aggregates normalization r x" by blast
  with i(1) ctx(1,2) show thesis by (intro that) auto
qed

lemma iter_samples_complete:
  assumes "iter_samples b source plan aggregates normalization [] = Inr (samples, cache')"
    and "i \<in> set (src_instrument_ids source)" and "builder_records b source i = Inr rs" and "r \<in> set rs"
    and "map_of (sp_session_splits plan) (cm_session_id r) = Some split"
  shows "\<exists>x \<in> set samples. fs_instrument_id x = i \<and> fs_as_of_ns x = cm_minute_end r \<and>
    fs_session_id x = cm_session_id r \<and> fs_split x = split"
proof -
  have "cache_ok b []" by (simp add: cache_ok_def)
  from iter_samples_Inr [OF assms(1) this] obtain xss where xss: "samples = concat xss"
    "list_all2 (instrument_samples b source plan aggregates normalization) (src_instrument_ids source) xss" by blast
  from list_all2_set1 [OF xss(2) assms(2)] obtain xs where xs: "xs \<in> set xss"
    "instrument_samples b source plan aggregates normalization i xs" by blast
  then obtain entry ctx where ctx: "map_of (fb_resolved b) i = Some entry" "build_context b source i = Inr ctx"
    "list_all2 (sampled b plan entry i ctx aggregates normalization) (planned plan (ic_records ctx)) xs"
    unfolding instrument_samples_def by blast
  have "r \<in> set (planned plan (ic_records ctx))" using build_context_Inr(1) [OF ctx(2)] assms(3-5) by simp
  from list_all2_set1 [OF ctx(3) this] obtain x where "x \<in> set xs" "sampled b plan entry i ctx aggregates normalization r x" by blast
  then show ?thesis using sampled_identity [of b plan entry i ctx aggregates normalization r x] xs(1) xss(1) assms(5) by auto
qed

section \<open>The leakage scan of a built dataset\<close>

lemma observed_sessions_Inr:
  assumes "observed_sessions b source = Inr observed"
  shows "\<exists>seen. observed = filter (\<lambda>s. s \<in> seen) (map session_id (sessions (fb_calendar b))) \<and>
    (\<forall>s \<in> seen. \<exists>i \<in> set (src_instrument_ids source). \<exists>rs. builder_records b source i = Inr rs \<and> s \<in> cm_session_id ` set rs)"
proof -
  have "\<forall>s \<in> seen'. s \<in> seen \<or> (\<exists>i \<in> set ids. \<exists>rs. builder_records b source i = Inr rs \<and> s \<in> cm_session_id ` set rs)"
    if "fold_result (observe_instrument b source) ids seen = Inr seen'" for ids seen seen'
    using that
  proof (induction ids arbitrary: seen)
    case (Cons i ids)
    from Cons.prems obtain seen1 where step: "observe_instrument b source i seen = Inr seen1"
      and rest: "fold_result (observe_instrument b source) ids seen1 = Inr seen'" by (auto split: sum.splits)
    from step obtain rs where "builder_records b source i = Inr rs" "seen1 = seen \<union> cm_session_id ` set rs"
      by (auto simp: observe_instrument_def split: if_splits)
    with Cons.IH [OF rest] show ?case by auto
  qed simp
  then show ?thesis using assms unfolding observed_sessions_def by force
qed

lemma fit_record_maximum:
  assumes "fit_record b plan ctx aggregates r acc = Inr acc'" and "\<forall>a \<in> set acc. sa_maximum_time_ns a \<le> m"
    and "in_training plan r \<longrightarrow> cm_minute_end r \<le> m"
  shows "\<forall>a \<in> set acc'. sa_maximum_time_ns a \<le> m"
proof (cases "in_training plan r")
  case True
  with assms(1) obtain row where "add_features (cm_minute_end r) row acc = Inr acc'" by (auto simp: fit_record_def)
  then show ?thesis using assms(2,3) True
    by (auto simp: add_features_def stat_add_def in_set_zip split: if_splits option.splits)
next
  case False
  then show ?thesis using assms by (simp add: fit_record_def)
qed

lemma fold_fit_maximum:
  assumes "fold_result (fit_record b plan ctx aggregates) rs acc = Inr acc'" and "\<forall>a \<in> set acc. sa_maximum_time_ns a \<le> m"
    and "\<forall>r \<in> set rs. in_training plan r \<longrightarrow> cm_minute_end r \<le> m"
  shows "\<forall>a \<in> set acc'. sa_maximum_time_ns a \<le> m"
  using assms
proof (induction rs arbitrary: acc)
  case (Cons r rs)
  then obtain a1 where a1: "fit_record b plan ctx aggregates r acc = Inr a1" "fold_result (fit_record b plan ctx aggregates) rs a1 = Inr acc'"
    by (auto split: sum.splits)
  from fit_record_maximum [OF a1(1) Cons.prems(2)] Cons.prems(3) have "\<forall>a \<in> set a1. sa_maximum_time_ns a \<le> m" by simp
  with Cons.IH [OF a1(2)] Cons.prems(3) show ?case by simp
qed simp

lemma builder_fit_maximum:
  assumes "builder_fit b source plan aggregates = Inr stats" and "0 \<le> m"
    and "\<And>i rs r. i \<in> set (src_instrument_ids source) \<Longrightarrow> builder_records b source i = Inr rs \<Longrightarrow> r \<in> set rs \<Longrightarrow>
      in_training plan r \<Longrightarrow> cm_minute_end r \<le> m"
  shows "\<forall>stat \<in> set stats. ns_maximum_fit_ns stat \<le> m"
proof -
  have "\<forall>a \<in> set acc'. sa_maximum_time_ns a \<le> m"
    if "fold_result (fit_instrument b source plan aggregates) ids acc = Inr acc'" "set ids \<subseteq> set (src_instrument_ids source)"
      "\<forall>a \<in> set acc. sa_maximum_time_ns a \<le> m" for ids acc acc'
    using that
  proof (induction ids arbitrary: acc)
    case (Cons i ids)
    from Cons.prems(1) obtain a1 where step: "fit_instrument b source plan aggregates i acc = Inr a1"
      and rest: "fold_result (fit_instrument b source plan aggregates) ids a1 = Inr acc'" by (auto split: sum.splits)
    from step obtain ctx where ctx: "build_context b source i = Inr ctx"
      "fold_result (fit_record b plan ctx aggregates) (ic_records ctx) acc = Inr a1"
      by (auto simp: fit_instrument_def split: if_splits)
    have "\<forall>a \<in> set a1. sa_maximum_time_ns a \<le> m"
      using fold_fit_maximum [OF ctx(2) Cons.prems(3)] assms(3) [OF _ build_context_Inr(1) [OF ctx(1)]] Cons.prems(2) by auto
    with Cons.IH [OF rest] Cons.prems(2) show ?case by simp
  qed simp
  moreover from assms(1) obtain acc where "fold_result (fit_instrument b source plan aggregates) (src_instrument_ids source)
      (map (\<lambda>_. stat_empty) FEATURE_NAMES) = Inr acc" "stats = freeze_normalization acc" by (auto simp: builder_fit_def)
  ultimately have "\<forall>a \<in> set acc. sa_maximum_time_ns a \<le> m" using assms(2) by (auto simp: stat_empty_def)
  then show ?thesis using \<open>stats = freeze_normalization acc\<close> by (auto simp: freeze_normalization_def in_set_zip)
qed

lemma train_cutoff_ge:
  assumes "x \<in> set samples" and "fs_session_id x = train_cutoff_session plan"
  shows "fs_as_of_ns x \<le> train_cutoff plan samples"
proof -
  let ?f = "\<lambda>s cutoff. if fs_session_id s = train_cutoff_session plan then max cutoff (fs_as_of_ns s) else cutoff"
  have grows: "c \<le> fold ?f ys c" for ys c by (induction ys arbitrary: c) (auto intro: order_trans [OF max.cobounded1])
  have "fs_as_of_ns x \<le> fold ?f samples c" for c
    using assms
  proof (induction samples arbitrary: c)
    case (Cons y ys)
    then show ?case using grows [of "?f x c" ys] by (auto intro: order_trans [OF max.cobounded2])
  qed simp
  then show ?thesis by (simp add: train_cutoff_def)
qed

lemma sample_accepted:
  "feature_sample_post_init x = None \<Longrightarrow> fs_feature_end_ns x = fs_as_of_ns x \<and>
     fs_max_event_availability_ns x \<le> fs_knowledge_cutoff_ns x \<and> (\<forall>l \<in> set (fs_labels x). \<not> label_overlaps (fs_feature_end_ns x) l)"
  by (simp add: feature_sample_post_init_def) metis

lemma sampled_clean:
  assumes "sampled b plan entry i ctx aggregates normalization r x"
  shows "sample_violations plan x = []"
proof -
  note identity = sampled_identity [OF assms]
  note accepted = sample_accepted [OF identity(5)]
  have "map_of (sp_session_splits plan) (fs_session_id x) = Some (fs_split x)" using identity(2,4) by simp
  moreover have clear: "concat (map (\<lambda>l. if label_overlaps (fs_feature_end_ns x) l then [LABEL_FEATURE_OVERLAP] else []) (fs_labels x)) = []"
    using accepted unfolding concat_eq_Nil_conv by auto
  ultimately show ?thesis using accepted unfolding sample_violations_def clear by simp
qed

lemma map_eq_append5:
  assumes "map f xs = a @ b @ c @ d @ e"
  obtains as bs cs ds es where "xs = as @ bs @ cs @ ds @ es" "map f as = a" "map f bs = b" "map f cs = c" "map f ds = d" "map f es = e"
proof -
  from iffD1 [OF map_eq_append_conv assms] obtain as x1 where 1: "xs = as @ x1" "a = map f as" "b @ c @ d @ e = map f x1" by blast
  from iffD1 [OF map_eq_append_conv 1(3) [symmetric]] obtain bs x2 where 2: "x1 = bs @ x2" "b = map f bs" "c @ d @ e = map f x2" by blast
  from iffD1 [OF map_eq_append_conv 2(3) [symmetric]] obtain cs x3 where 3: "x2 = cs @ x3" "c = map f cs" "d @ e = map f x3" by blast
  from iffD1 [OF map_eq_append_conv 3(3) [symmetric]] obtain ds es where 4: "x3 = ds @ es" "d = map f ds" "e = map f es" by blast
  from 1 2 3 4 show thesis by (intro that) auto
qed

lemma plan_sessions:
  assumes "calendar_ok (fb_calendar b)" and "observed_sessions b source = Inr observed" and "build_split_plan observed = Inr plan"
  obtains ts ps vs qs ws where
    "sorted_wrt (\<lambda>a c. session_close a < session_open c) (ts @ ps @ vs @ qs @ ws)"
    "set (ts @ ps @ vs @ qs @ ws) \<subseteq> set (sessions (fb_calendar b))"
    "map session_id ts = sp_train_sessions plan" "map session_id vs = sp_validation_sessions plan"
    "map session_id ws = sp_test_sessions plan" "length ps = 42" "length qs = 42"
    "\<forall>s \<in> set (ts @ ps @ vs @ qs @ ws).
       \<exists>i \<in> set (src_instrument_ids source). \<exists>rs. builder_records b source i = Inr rs \<and> session_id s \<in> cm_session_id ` set rs"
proof -
  let ?cal = "sessions (fb_calendar b)"
  from observed_sessions_Inr [OF assms(2)] obtain seen where
    observed: "observed = filter (\<lambda>s. s \<in> seen) (map session_id ?cal)"
    and seen: "\<forall>s \<in> seen. \<exists>i \<in> set (src_instrument_ids source). \<exists>rs. builder_records b source i = Inr rs \<and> s \<in> cm_session_id ` set rs"
    by blast
  let ?f = "filter (\<lambda>s. session_id s \<in> seen) ?cal"
  have "map session_id ?f = observed" by (simp add: observed filter_map comp_def)
  then have "map session_id ?f = sp_train_sessions plan @ sp_first_purge_sessions plan @ sp_validation_sessions plan @
      sp_second_purge_sessions plan @ sp_test_sessions plan" using split_plan_parts(1) [OF assms(3)] by simp
  then obtain ts ps vs qs ws where parts: "?f = ts @ ps @ vs @ qs @ ws"
    "map session_id ts = sp_train_sessions plan" "map session_id ps = sp_first_purge_sessions plan"
    "map session_id vs = sp_validation_sessions plan" "map session_id qs = sp_second_purge_sessions plan"
    "map session_id ws = sp_test_sessions plan" by (rule map_eq_append5)
  have order: "sorted_wrt (\<lambda>a c. session_close a < session_open c) ?f"
    by (intro sorted_wrt_filter calendar_ok_order(1) assms(1))
  have inc: "set ?f \<subseteq> set ?cal" by auto
  have lengths: "length ps = 42" "length qs = 42"
    using split_plan_parts(2,3) [OF assms(3)] parts(3,5) by (metis length_map)+
  have holds: "\<forall>s \<in> set ?f. \<exists>i \<in> set (src_instrument_ids source). \<exists>rs. builder_records b source i = Inr rs \<and> session_id s \<in> cm_session_id ` set rs"
    using seen by simp
  show thesis
    by (rule that [OF order [unfolded parts(1)] inc [unfolded parts(1)] parts(2,4,6) lengths holds [unfolded parts(1)]])
qed

lemma plan_training:
  assumes "build_split_plan observed = Inr plan"
  shows "map_of (sp_session_splits plan) s = Some TRAIN \<longleftrightarrow> s \<in> set (sp_train_sessions plan)" "sp_train_sessions plan \<noteq> []"
proof -
  have d: "distinct observed" "87 \<le> length observed" using build_split_plan_Inr assms by auto
  have "VALIDATION \<noteq> TRAIN" "TEST \<noteq> TRAIN" by (simp_all add: TRAIN_def VALIDATION_def TEST_def lit_def)
  then show "map_of (sp_session_splits plan) s = Some TRAIN \<longleftrightarrow> s \<in> set (sp_train_sessions plan)"
    using split_plan_parts(5) [OF assms, of s] by (auto split: if_splits)
  obtain t v w where c: "split_counts (length observed - 84) = (t, v, w)" by (metis prod_cases3)
  have "0 < t" using split_counts_sum(2) [OF _ c] d(2) by simp
  moreover have "length (sp_train_sessions plan) = t" using split_plan_parts(4) [OF assms] c by simp
  ultimately show "sp_train_sessions plan \<noteq> []" by auto
qed

lemma training_before_cutoff:
  assumes "builder_ok b" and observed: "observed_sessions b source = Inr observed" and plan: "build_split_plan observed = Inr plan"
    and samples: "iter_samples b source plan aggregates normalization [] = Inr (samples, cache)"
    and r: "i \<in> set (src_instrument_ids source)" "builder_records b source i = Inr rs" "r \<in> set rs" "in_training plan r"
  shows "cm_minute_end r \<le> train_cutoff plan samples"
proof -
  have cal: "calendar_ok (fb_calendar b)" using assms(1) by (simp add: builder_ok_def)
  obtain ts ps vs qs ws where order: "sorted_wrt (\<lambda>a c. session_close a < session_open c) (ts @ ps @ vs @ qs @ ws)"
    and inc: "set (ts @ ps @ vs @ qs @ ws) \<subseteq> set (sessions (fb_calendar b))"
    and ts: "map session_id ts = sp_train_sessions plan"
    and "map session_id vs = sp_validation_sessions plan" "map session_id ws = sp_test_sessions plan" "length ps = 42" "length qs = 42"
    and seen: "\<forall>s \<in> set (ts @ ps @ vs @ qs @ ws).
       \<exists>i \<in> set (src_instrument_ids source). \<exists>rs. builder_records b source i = Inr rs \<and> session_id s \<in> cm_session_id ` set rs"
    by (rule plan_sessions [OF cal observed plan])
  from plan_training(2) [OF plan] ts have ne: "ts \<noteq> []" by auto
  define s where "s = last ts"
  have s: "s \<in> set ts" "train_cutoff_session plan = session_id s"
    using ne ts plan_training(2) [OF plan] by (auto simp: s_def train_cutoff_session_def last_map simp flip: ts)
  have bound: "cm_minute_end q \<le> train_cutoff plan samples"
    if j: "j \<in> set (src_instrument_ids source)" "builder_records b source j = Inr qs'" "q \<in> set qs'"
      and q: "cm_session_id q = session_id s" for j qs' q
  proof -
    have "map_of (sp_session_splits plan) (cm_session_id q) = Some TRAIN"
      using plan_training(1) [OF plan] s(1) q by (simp flip: ts)
    from iter_samples_complete [OF samples j this] obtain x where "x \<in> set samples" "fs_as_of_ns x = cm_minute_end q"
      "fs_session_id x = session_id s" using q by auto
    then show ?thesis using train_cutoff_ge [of x samples plan] s(2) by simp
  qed
  have "s \<in> set (ts @ ps @ vs @ qs @ ws)" using s(1) by simp
  with seen obtain j qs' where "j \<in> set (src_instrument_ids source)" "builder_records b source j = Inr qs'"
    "session_id s \<in> cm_session_id ` set qs'" by blast
  then obtain q where j: "j \<in> set (src_instrument_ids source)" "builder_records b source j = Inr qs'"
    "q \<in> set qs'" "cm_session_id q = session_id s" by auto
  from plan_training(1) [OF plan] r(4) obtain s' where s': "s' \<in> set ts" "session_id s' = cm_session_id r"
    by (auto simp flip: ts)
  have adm: "admissible b i r" "admissible b j q"
    using builder_records_Inr(3) [OF r(2)] builder_records_Inr(3) [OF j(2)] r(3) j(3) by auto
  show ?thesis
  proof (cases "s' = s")
    case True
    then show ?thesis using bound [OF r(1-3)] s'(2) by simp
  next
    case False
    then have "s' \<in> set (butlast ts)" using s'(1) ne unfolding s_def by (metis append_butlast_last_id in_set_conv_decomp_last rotate1.simps(2) set_ConsD set_rotate1)
    then have "session_close s' < session_open s"
      using order ne append_butlast_last_id [of ts] unfolding s_def by (metis sorted_wrt_append list.set_intros(1))
    moreover have "cm_minute_end r \<le> session_close s'"
      using one_session(2) [OF assms(1) adm(1) _ s'(2)] inc s'(1) by auto
    moreover have "session_open s < cm_minute_end q"
      using one_session(1) [OF assms(1) adm(2), of s] inc s(1) j(4) by auto
    ultimately show ?thesis using bound [OF j] by simp
  qed
qed

lemma train_cutoff_nonneg: "0 \<le> train_cutoff plan samples"
proof -
  have "c \<le> fold (\<lambda>s cutoff. if fs_session_id s = k then max cutoff (fs_as_of_ns s) else cutoff) ys c" for ys c k
    by (induction ys arbitrary: c) (auto intro: order_trans [OF max.cobounded1])
  then show ?thesis by (simp add: train_cutoff_def)
qed

lemma built_dataset_clean:
  assumes "builder_ok b" and "observed_sessions b source = Inr observed" and "build_split_plan observed = Inr plan"
    and "builder_fit b source plan aggregates = Inr stats"
    and "iter_samples b source plan aggregates (Some stats) [] = Inr (samples, cache)"
  shows "validate_leakage samples plan stats =
    \<lparr>lr_checked_samples = length samples, lr_violations = [], lr_status = lit ''PASS''\<rparr>"
proof -
  have "sample_violations plan x = []" if "x \<in> set samples" for x
    using iter_samples_member [OF assms(5) that] sampled_clean by metis
  then have clean: "concat (map (sample_violations plan) samples) = []" by simp
  have purge: "length (sp_first_purge_sessions plan) = PURGE_SESSIONS" "length (sp_second_purge_sessions plan) = PURGE_SESSIONS"
    using split_plan_parts(2,3) [OF assms(3)] by (simp_all add: PURGE_SESSIONS_def)
  have "\<forall>stat \<in> set stats. ns_maximum_fit_ns stat \<le> train_cutoff plan samples"
    by (rule builder_fit_maximum [OF assms(4) train_cutoff_nonneg])
      (rule training_before_cutoff [OF assms(1-3,5)])
  then have fit: "(\<exists>stat \<in> set stats. train_cutoff plan samples < ns_maximum_fit_ns stat) = False" by auto
  show ?thesis by (simp add: validate_leakage_def clean purge fit Let_def)
qed

end
