(* ===== verification/Feature_Splits.thy ===== *)
theory Feature_Splits
  imports Feature_Results
begin

text \<open>
  Purging: on a calendar whose sessions count in full, no label of a sample reaches the sessions of a later split.
\<close>

section \<open>Labels do not reach across a purge\<close>

lemma map_list_result_members:
  "map_list_result f xs = Inr ys \<Longrightarrow> y \<in> set ys \<Longrightarrow> \<exists>x \<in> set xs. f x = Inr y"
  using list_all2_set2 [OF map_list_result_all2] by fast

lemma required_spec_cases:
  assumes "required_horizon_specs version policy = Inr specs" and "h \<in> set specs"
  shows "hs_halt_policy h = policy \<and> horizon_spec_post_init h = None \<and>
    (hs_unit h = TRADING_MINUTES \<and> hs_value h \<le> 300 \<or> hs_unit h = TRADING_SESSIONS \<and> hs_value h \<le> 42)"
proof -
  from assms obtain ms ss where "h \<in> set ms \<or> h \<in> set ss"
    and ms: "map_list_result (\<lambda>(label, value). trading_minutes label value version policy)
         (zip (take (length REQUIRED_TRADING_MINUTES) REQUIRED_HORIZON_LABELS) REQUIRED_TRADING_MINUTES) = Inr ms"
    and ss: "map_list_result (\<lambda>(label, value). trading_sessions label value version policy)
         (zip (drop (length REQUIRED_TRADING_MINUTES) REQUIRED_HORIZON_LABELS) REQUIRED_TRADING_SESSIONS) = Inr ss"
    by (auto simp: required_horizon_specs_def)
  then consider l v where "trading_minutes l v version policy = Inr h" "v \<in> set REQUIRED_TRADING_MINUTES"
    | l v where "trading_sessions l v version policy = Inr h" "v \<in> set REQUIRED_TRADING_SESSIONS"
    using map_list_result_members [OF ms, of h] map_list_result_members [OF ss, of h] by (fastforce dest: set_zip_rightD)
  then show ?thesis
  proof cases
    case 1
    then show ?thesis by (auto simp: trading_minutes_def REQUIRED_TRADING_MINUTES_def)
  next
    case 2
    then show ?thesis by (auto simp: trading_sessions_def REQUIRED_TRADING_SESSIONS_def)
  qed
qed

text \<open>A session that counts in full: its close is not halted, and at least eight of its minutes are not.\<close>

definition counts_fully :: "trading_session \<Rightarrow> bool" where
  "counts_fully s \<longleftrightarrow> \<not> halted_minute s (session_close s) \<and> 8 \<le> card {e. on_minute_grid s e \<and> \<not> halted_minute s e}"

lemma finite_grid: "finite {e. on_minute_grid s e \<and> P e}"
  by (rule finite_subset [of _ "{session_open s..session_close s}"]) (auto simp: on_minute_grid_def)

lemma card_disjoint_minutes:
  assumes "sorted_wrt (\<lambda>a c. session_close a < session_open c) ps" and "\<forall>p \<in> set ps. counts_fully p"
    and "\<forall>p \<in> set ps. session_open p < session_close p"
  shows "8 * length ps \<le> card (\<Union>p \<in> set ps. {e. on_minute_grid p e \<and> \<not> halted_minute p e})"
  using assms
proof (induction ps)
  case (Cons p ps)
  let ?m = "\<lambda>p. {e. on_minute_grid p e \<and> \<not> halted_minute p e}"
  have "?m p \<inter> (\<Union>q \<in> set ps. ?m q) = {}"
    using Cons.prems(1) by (fastforce simp: on_minute_grid_def)
  then have "card (\<Union>q \<in> set (p # ps). ?m q) = card (?m p) + card (\<Union>q \<in> set ps. ?m q)"
    by (simp add: card_Un_disjoint finite_grid)
  with Cons show ?case by (simp add: counts_fully_def)
qed simp

lemma sorted_sessions_distinct:
  assumes "sorted_wrt (\<lambda>a c. session_close a < session_open c) ps" and "\<forall>p \<in> set ps. session_open p < session_close p"
  shows "distinct ps"
  using assms by (induction ps) fastforce+

lemma target_before_purged:
  assumes cal: "calendar_ok cal" and h: "required_horizon_specs version PAUSE = Inr specs" "h \<in> set specs"
    and tgt: "resolve_horizon h t cal = Inr tgt"
    and ps: "set ps \<subseteq> set (sessions cal)" "sorted_wrt (\<lambda>a c. session_close a < session_open c) ps" "length ps = 42"
    and full: "\<forall>p \<in> set ps. counts_fully p"
    and after: "\<forall>p \<in> set ps. t < session_open p" and v: "v \<in> set (sessions cal)" "\<forall>p \<in> set ps. session_close p < session_open v"
  shows "ht_target tgt < session_open v"
proof (rule ccontr)
  assume "\<not> ht_target tgt < session_open v"
  then have late: "\<forall>p \<in> set ps. session_close p < ht_target tgt" using v(2) by auto
  have opens: "\<forall>p \<in> set ps. session_open p < session_close p" using ps(1) calendar_ok_session [OF cal] by auto
  note spec = required_spec_cases [OF h]
  show False
  proof (cases "hs_unit h = TRADING_MINUTES")
    case True
    from resolve_minutes_iff [THEN iffD1, OF cal _ True tgt] spec have
      "int (card {e. eligible_minute h cal e \<and> t < e \<and> e \<le> ht_target tgt}) = hs_value h" by auto
    moreover have "(\<Union>p \<in> set ps. {e. on_minute_grid p e \<and> \<not> halted_minute p e}) \<subseteq>
        {e. eligible_minute h cal e \<and> t < e \<and> e \<le> ht_target tgt}"
      using ps(1) after late unfolding eligible_minute_def on_minute_grid_def by fastforce
    then have "8 * length ps \<le> card {e. eligible_minute h cal e \<and> t < e \<and> e \<le> ht_target tgt}"
      using card_disjoint_minutes [OF ps(2) full opens] card_mono [OF finite_minutes] by (meson order_trans)
    ultimately show False using spec True ps(3) by auto
  next
    case False
    with spec have unit: "hs_unit h = TRADING_SESSIONS" "hs_value h \<le> 42" by auto
    let ?A = "{s \<in> set (sessions cal). t < session_open s \<and> eligible_session h s \<and> session_close s \<le> ht_target tgt}"
    from resolve_sessions_iff [THEN iffD1, OF cal _ unit(1) tgt] spec obtain s where
      s: "s \<in> set (sessions cal)" "t < session_open s" "eligible_session h s" "session_close s = ht_target tgt"
      and card: "int (card ?A) = hs_value h" by auto
    have "s \<notin> set ps" using late s(4) by auto
    have "insert s (set ps) \<subseteq> ?A"
      using s ps(1) after late full by (auto simp: counts_fully_def eligible_session_def)
    then have "card (insert s (set ps)) \<le> card ?A" by (intro card_mono) auto
    moreover have "card (insert s (set ps)) = 43"
      using \<open>s \<notin> set ps\<close> distinct_card [OF sorted_sessions_distinct [OF ps(2) opens]] ps(3) by simp
    ultimately show False using card unit(2) by simp
  qed
qed

lemma split_names: "TRAIN \<noteq> VALIDATION" "TRAIN \<noteq> TEST" "VALIDATION \<noteq> TEST"
  by (simp_all add: TRAIN_def VALIDATION_def TEST_def lit_def)

lemma plan_split:
  assumes "build_split_plan observed = Inr plan"
  shows "map_of (sp_session_splits plan) s = Some TRAIN \<Longrightarrow> s \<in> set (sp_train_sessions plan)"
    and "map_of (sp_session_splits plan) s = Some VALIDATION \<Longrightarrow> s \<in> set (sp_validation_sessions plan)"
    and "map_of (sp_session_splits plan) s = Some TEST \<Longrightarrow> s \<in> set (sp_test_sessions plan)"
  using split_plan_parts(5) [OF assms, of s] split_names by (auto split: if_splits)

lemma label_target:
  assumes "label_spec b rs r h l" and "fl_target_time_ns l = Some x"
  obtains tgt where "resolve_horizon h (cm_minute_end r) (fb_calendar b) = Inr tgt" "ht_target tgt = x"
  using assms by (auto simp: label_spec_def split: sum.splits)

lemma sample_target_before:
  assumes ok: "builder_ok b" and full: "\<forall>s \<in> set (sessions (fb_calendar b)). counts_fully s"
    and samples: "iter_samples b source plan aggregates normalization [] = Inr (samples, cache)"
    and x: "x \<in> set samples" and l: "l \<in> set (fs_labels x)" "fl_target_time_ns l = Some target"
    and sx: "sx \<in> set pre" "session_id sx = fs_session_id x" and v: "v \<in> set post"
    and order: "sorted_wrt (\<lambda>a c. session_close a < session_open c) (pre @ ps @ post)"
    and inc: "set (pre @ ps @ post) \<subseteq> set (sessions (fb_calendar b))" and "length ps = 42"
  shows "target < session_open v"
proof -
  have cal: "calendar_ok (fb_calendar b)" using ok by (simp add: builder_ok_def)
  obtain i entry ctx r where r: "i \<in> set (src_instrument_ids source)" "map_of (fb_resolved b) i = Some entry"
    "build_context b source i = Inr ctx" "r \<in> set (ic_records ctx)" "sampled b plan entry i ctx aggregates normalization r x"
    by (rule iter_samples_member [OF samples x])
  from list_all2_set2 [OF sampled_labels [OF r(3,5)] l(1)] obtain h where h: "h \<in> set (fb_horizons b)" "label_spec b (ic_records ctx) r h l"
    by blast
  obtain tgt where tgt: "resolve_horizon h (cm_minute_end r) (fb_calendar b) = Inr tgt" "ht_target tgt = target"
    by (rule label_target [OF h(2) l(2)])
  have "admissible b i r" using builder_records_Inr(3) [OF build_context_Inr(1) [OF r(3)]] r(4) by simp
  from one_session(2) [OF ok this, of sx] sx inc sampled_identity(2) [OF r(5)] have "cm_minute_end r \<le> session_close sx" by auto
  moreover have "\<forall>p \<in> set ps. session_close sx < session_open p" using order sx(1) by (simp add: sorted_wrt_append)
  ultimately have after: "\<forall>p \<in> set ps. cm_minute_end r < session_open p" by (meson le_less_trans)
  have "ht_target tgt < session_open v"
    by (rule target_before_purged [OF cal builder_ok_sessions(2) [OF ok] h(1) tgt(1) _ _ assms(12) _ after])
      (use order inc full v in \<open>auto simp: sorted_wrt_append\<close>)
  then show ?thesis by (simp add: tgt(2))
qed

lemma purged_labels:
  assumes ok: "builder_ok b" and full: "\<forall>s \<in> set (sessions (fb_calendar b)). counts_fully s"
    and observed: "observed_sessions b source = Inr observed" and plan: "build_split_plan observed = Inr plan"
    and samples: "iter_samples b source plan aggregates normalization [] = Inr (samples, cache)"
    and x: "x \<in> set samples" and y: "y \<in> set samples"
    and splits: "(fs_split x, fs_split y) \<in> {(TRAIN, VALIDATION), (TRAIN, TEST), (VALIDATION, TEST)}"
    and l: "l \<in> set (fs_labels x)" "fl_target_time_ns l = Some target"
  shows "\<exists>s \<in> set (sessions (fb_calendar b)). session_id s = fs_session_id y \<and> target < session_open s"
proof -
  have cal: "calendar_ok (fb_calendar b)" using ok by (simp add: builder_ok_def)
  obtain ts ps vs qs ws where order: "sorted_wrt (\<lambda>a c. session_close a < session_open c) (ts @ ps @ vs @ qs @ ws)"
    and inc: "set (ts @ ps @ vs @ qs @ ws) \<subseteq> set (sessions (fb_calendar b))"
    and ids: "map session_id ts = sp_train_sessions plan" "map session_id vs = sp_validation_sessions plan"
      "map session_id ws = sp_test_sessions plan" and len: "length ps = 42" "length qs = 42"
    and "\<forall>s \<in> set (ts @ ps @ vs @ qs @ ws).
       \<exists>i \<in> set (src_instrument_ids source). \<exists>rs. builder_records b source i = Inr rs \<and> session_id s \<in> cm_session_id ` set rs"
    by (rule plan_sessions [OF cal observed plan])
  have split: "map_of (sp_session_splits plan) (fs_session_id z) = Some (fs_split z)" if "z \<in> set samples" for z
    using iter_samples_member [OF samples that] sampled_identity(2,4) by metis
  have member: "\<exists>s \<in> set us. session_id s = k" if "k \<in> set (map session_id us)" for k us using that by auto
  note parts = plan_split [OF plan]
  from splits consider "fs_split x = TRAIN" "fs_split y \<in> {VALIDATION, TEST}" | "fs_split x = VALIDATION" "fs_split y = TEST" by auto
  then show ?thesis
  proof cases
    case 1
    obtain sx where sx: "sx \<in> set ts" "session_id sx = fs_session_id x"
      using parts(1) [of "fs_session_id x"] split [OF x] 1(1) member ids by metis
    obtain sy where sy: "sy \<in> set (vs @ qs @ ws)" "session_id sy = fs_session_id y"
      using parts(2,3) [of "fs_session_id y"] split [OF y] 1(2) member [of "fs_session_id y"] ids by (metis Un_iff insertE set_append singletonD)
    have "target < session_open sy"
      by (rule sample_target_before [OF ok full samples x l sx sy(1) order inc len(1)])
    then show ?thesis using sy inc by auto
  next
    case 2
    obtain sx where sx: "sx \<in> set (ts @ ps @ vs)" "session_id sx = fs_session_id x"
      using parts(2) [of "fs_session_id x"] split [OF x] 2(1) member [of "fs_session_id x"] ids by (metis Un_iff set_append)
    obtain sy where sy: "sy \<in> set ws" "session_id sy = fs_session_id y"
      using parts(3) [of "fs_session_id y"] split [OF y] 2(2) member ids by metis
    have "target < session_open sy"
      by (rule sample_target_before [OF ok full samples x l sx sy(1) _ _ len(2)]) (use order inc in simp_all)
    then show ?thesis using sy inc by auto
  qed
qed

end
