(* ===== verification/Feature_Coverage.thy ===== *)
theory Feature_Coverage
  imports Feature_Dataset
begin

text \<open>
  Label coverage counts exactly the labels of the samples, per symbol and horizon.
\<close>

section \<open>Counting the labels of one cell\<close>

definition reason_number :: "feature_label list \<Rightarrow> ustr \<Rightarrow> nat" where
  "reason_number ls q = length (filter (\<lambda>l. fl_missing_reason l = Some q) ls)"

lemma count_reason_lookup:
  "map_of (count_reason q counts) p =
     (if p = q then Some ((case map_of counts q of None \<Rightarrow> 0 | Some n \<Rightarrow> n) + 1) else map_of counts p)"
  by (simp add: count_reason_def update_conv')

lemma distinct_count_reason: "distinct (map fst counts) \<Longrightarrow> distinct (map fst (count_reason q counts))"
  by (simp add: count_reason_def distinct_update)

definition fresh_counts :: "coverage_counts \<Rightarrow> bool" where
  "fresh_counts c \<longleftrightarrow> cc_samples c = 0 \<and> cc_valid c = 0 \<and> cc_missing c = 0 \<and> cc_invalid c = 0"

lemma counted_labels:
  assumes "fresh_counts c"
  shows "cc_samples (fold count_label ls c) = length ls \<and>
    cc_valid (fold count_label ls c) = length (filter (\<lambda>l. fl_validity l = LABEL_VALID) ls) \<and>
    cc_missing (fold count_label ls c) = length (filter (\<lambda>l. fl_validity l = LABEL_MISSING) ls) \<and>
    cc_invalid (fold count_label ls c) = length (filter (\<lambda>l. fl_validity l = LABEL_INVALID) ls) \<and>
    cc_instrument_id (fold count_label ls c) = cc_instrument_id c \<and>
    cc_resolution_code (fold count_label ls c) = cc_resolution_code c"
proof (induction ls rule: rev_induct)
  case Nil
  show ?case using assms by (simp add: fresh_counts_def)
next
  case (snoc l ls)
  then show ?case by (simp add: count_label_def Let_def)
qed

lemma counted_reasons:
  assumes "fresh_counts c" and "ls \<noteq> []"
  shows "distinct (map fst (cc_reason_counts (fold count_label ls c))) \<and>
    map_of (cc_reason_counts (fold count_label ls c)) q = (if reason_number ls q = 0 then None else Some (reason_number ls q))"
  using assms(2)
proof (induction ls arbitrary: q rule: rev_induct)
  case (snoc l ls)
  let ?before = "if ls = [] then [] else cc_reason_counts (fold count_label ls c)"
  have samples: "cc_samples (fold count_label ls c) = length ls" using counted_labels [OF assms(1)] by simp
  have before: "distinct (map fst ?before)" "map_of ?before p = (if reason_number ls p = 0 then None else Some (reason_number ls p))" for p
    by (cases "ls = []"; use snoc.IH [of p] in \<open>simp add: reason_number_def\<close>)+
  have "cc_reason_counts (fold count_label (ls @ [l]) c) =
      (case fl_missing_reason l of None \<Rightarrow> ?before | Some q \<Rightarrow> count_reason q ?before)"
    by (simp add: count_label_def Let_def samples)
  then show ?case
    using before(1) before(2) [of q]
    by (auto simp: reason_number_def count_reason_lookup distinct_count_reason simp del: length_greater_0_conv split: option.splits if_splits)
qed simp

section \<open>The table\<close>

type_synonym cell_counts = "((ustr \<times> ustr) \<times> coverage_counts) list"

abbreviation cell_labels :: "ustr \<times> ustr \<Rightarrow> (ustr \<times> feature_label) list \<Rightarrow> feature_label list" where
  "cell_labels k ps \<equiv> map snd (filter (\<lambda>(symbol, l). (symbol, fl_horizon l) = k) ps)"

lemma add_label_lookup:
  assumes "coverage_add_label symbol l counts = Inr counts'"
  shows "map_of counts' k = map_option (fold count_label (cell_labels k [(symbol, l)])) (map_of counts k)"
  using assms by (auto simp: coverage_add_label_def update_conv' id_def option.map_ident split: option.splits)

lemma fold_labels_lookup:
  assumes "fold_result (coverage_add_label symbol) ls counts = Inr counts'"
  shows "map_of counts' k = map_option (fold count_label (cell_labels k (map (Pair symbol) ls))) (map_of counts k)"
  using assms
proof (induction ls arbitrary: counts)
  case Nil
  then show ?case by (simp add: id_def option.map_ident)
next
  case (Cons l ls)
  then obtain c1 where c1: "coverage_add_label symbol l counts = Inr c1" "fold_result (coverage_add_label symbol) ls c1 = Inr counts'"
    by (auto split: sum.splits)
  from Cons.IH [OF c1(2)] add_label_lookup [OF c1(1), of k] show ?case
    by (auto simp: option.map_comp comp_def)
qed

abbreviation symbol_of :: "(ustr \<times> universe_entry) list \<Rightarrow> feature_sample \<Rightarrow> ustr" where
  "symbol_of entries x \<equiv> entry_symbol (the (map_of entries (fs_instrument_id x)))"

definition sample_labels :: "(ustr \<times> universe_entry) list \<Rightarrow> feature_sample list \<Rightarrow> (ustr \<times> feature_label) list" where
  "sample_labels entries samples = concat (map (\<lambda>x. map (Pair (symbol_of entries x)) (fs_labels x)) samples)"

lemma fold_samples_lookup:
  assumes "fold_result coverage_add samples acc = Inr acc'"
  shows "ca_entry_by_instrument acc' = ca_entry_by_instrument acc \<and>
    (\<forall>x \<in> set samples. map_of (ca_entry_by_instrument acc) (fs_instrument_id x) \<noteq> None) \<and>
    (\<forall>k. map_of (ca_counts acc') k =
       map_option (fold count_label (cell_labels k (sample_labels (ca_entry_by_instrument acc) samples))) (map_of (ca_counts acc) k))"
  using assms
proof (induction samples arbitrary: acc)
  case Nil
  then show ?case by (simp add: sample_labels_def id_def option.map_ident)
next
  case (Cons x samples)
  from Cons.prems obtain acc1 where step: "coverage_add x acc = Inr acc1" and rest: "fold_result coverage_add samples acc1 = Inr acc'"
    by (auto split: sum.splits)
  from step obtain e counts where e: "map_of (ca_entry_by_instrument acc) (fs_instrument_id x) = Some e"
    and counts: "fold_result (coverage_add_label (entry_symbol e)) (fs_labels x) (ca_counts acc) = Inr counts"
    and acc1: "acc1 = acc\<lparr>ca_counts := counts\<rparr>" by (auto simp: coverage_add_def split: option.splits)
  from Cons.IH [OF rest] fold_labels_lookup [OF counts] e show ?case
    by (auto simp: acc1 sample_labels_def option.map_comp comp_def)
qed

lemma initial_fresh: "fresh_counts (initial_counts e)"
  by (simp add: fresh_counts_def initial_counts_def)

lemma fold_updates_lookup:
  "map_of (fold (\<lambda>h. AList.update (f h) v) hs d) k = (if k \<in> f ` set hs then Some v else map_of d k)"
  by (induction hs arbitrary: d) (auto simp: update_conv')

lemma initial_lookup:
  assumes "map_of (ca_counts (coverage_init universe)) k = Some c"
  shows "fresh_counts c"
proof -
  have "\<forall>c. map_of (fold (\<lambda>e d. fold (\<lambda>h. AList.update (entry_symbol e, h) (initial_counts e)) REQUIRED_HORIZON_LABELS d) es d) k = Some c \<longrightarrow>
      fresh_counts c" if "\<forall>c. map_of d k = Some c \<longrightarrow> fresh_counts c" for es and d :: cell_counts
    using that
  proof (induction es arbitrary: d)
    case (Cons e es)
    show ?case
      by (simp only: fold.simps comp_apply, rule Cons.IH)
        (use Cons.prems initial_fresh in \<open>auto simp: fold_updates_lookup\<close>)
  qed simp
  from this [of "[]" "us_ordered_entries universe"] assms show ?thesis by (simp add: coverage_init_def)
qed

lemma initial_present:
  assumes "e \<in> set (us_ordered_entries universe)" and "h \<in> set REQUIRED_HORIZON_LABELS"
  shows "map_of (ca_counts (coverage_init universe)) (entry_symbol e, h) \<noteq> None"
proof -
  have keep: "map_of d k \<noteq> None \<Longrightarrow>
      map_of (fold (\<lambda>e d. fold (\<lambda>h. AList.update (entry_symbol e, h) (initial_counts e)) REQUIRED_HORIZON_LABELS d) es d) k \<noteq> None"
    for es k and d :: cell_counts
  proof (induction es arbitrary: d)
    case (Cons e es)
    show ?case by (simp only: fold.simps comp_apply, rule Cons.IH) (use Cons.prems in \<open>simp add: fold_updates_lookup\<close>)
  qed simp
  have "map_of (fold (\<lambda>e d. fold (\<lambda>h. AList.update (entry_symbol e, h) (initial_counts e)) REQUIRED_HORIZON_LABELS d) es d) (entry_symbol e, h) \<noteq> None"
    if "e \<in> set es" for es and d :: cell_counts
    using that
  proof (induction es arbitrary: d)
    case (Cons a es)
    show ?case
    proof (cases "e = a")
      case True
      show ?thesis
        by (simp only: fold.simps comp_apply, rule keep) (use True assms(2) in \<open>simp add: fold_updates_lookup\<close>)
    next
      case False
      show ?thesis by (simp only: fold.simps comp_apply, rule Cons.IH) (use Cons.prems False in simp)
    qed
  qed simp
  then show ?thesis using assms(1) by (simp add: coverage_init_def)
qed

lemma coverage_row:
  assumes "build_label_coverage universe samples = Inr rows" and "row \<in> set rows"
  defines "ls \<equiv> cell_labels (lc_symbol row, lc_horizon row)
    (sample_labels (ca_entry_by_instrument (coverage_init universe)) samples)"
  obtains c where "fresh_counts c" "row = freeze_counts (lc_symbol row) (lc_horizon row) (fold count_label ls c)"
proof -
  from assms(1) obtain acc where acc: "fold_result coverage_add samples (coverage_init universe) = Inr acc"
    and rows: "rows = coverage_freeze universe acc" by (auto simp: build_label_coverage_def)
  from assms(2) obtain e h where e: "e \<in> set (us_ordered_entries universe)" "h \<in> set REQUIRED_HORIZON_LABELS"
    and row: "row = freeze_counts (entry_symbol e) h (the (map_of (ca_counts acc) (entry_symbol e, h)))"
    by (auto simp: rows coverage_freeze_def)
  have key: "lc_symbol row = entry_symbol e" "lc_horizon row = h" by (simp_all add: row freeze_counts_def)
  from initial_present [OF e] obtain c where c: "map_of (ca_counts (coverage_init universe)) (entry_symbol e, h) = Some c" by blast
  from fold_samples_lookup [OF acc] c have "map_of (ca_counts acc) (entry_symbol e, h) = Some (fold count_label ls c)"
    unfolding ls_def key by simp
  then show thesis using that [OF initial_lookup [OF c]] row key by simp
qed

lemma validity_partition:
  "length (filter (\<lambda>l. fl_validity l = LABEL_VALID) ls) + length (filter (\<lambda>l. fl_validity l = LABEL_MISSING) ls) +
   length (filter (\<lambda>l. fl_validity l = LABEL_INVALID) ls) = length ls"
proof (induction ls)
  case (Cons l ls)
  then show ?case by (cases "fl_validity l") simp_all
qed simp

end
