(* ===== verification/Feature_Summaries.thy ===== *)
theory Feature_Summaries
  imports Feature_Results
begin

text \<open>
  Session summaries are the open, high, low, close, volume and digest of the bars of one session, one per session.
\<close>

section \<open>A summary describes a run of bars\<close>

definition degraded_run :: "minute_record list \<Rightarrow> bool" where
  "degraded_run q \<longleftrightarrow> (\<exists>r \<in> set q. cm_data_quality_state r = QUALITY_DEGRADED)"

definition run_totals :: "int \<Rightarrow> int \<Rightarrow> int \<Rightarrow> int \<Rightarrow> int \<Rightarrow> int \<Rightarrow> int \<Rightarrow> minute_record list \<Rightarrow> bool" where
  "run_totals first high low close volume observed expected q \<longleftrightarrow> q \<noteq> [] \<and>
     first = cm_open_ticks (hd q) \<and> high = Max (set (map cm_high_ticks q)) \<and> low = Min (set (map cm_low_ticks q)) \<and>
     close = cm_close_ticks (last q) \<and> volume = sum_list (map cm_volume_shares q) \<and> observed = int (length q) \<and>
     expected = (cm_session_close (hd q) - cm_session_open (hd q)) div MINUTE_NS"

definition summary_spec :: "session_summary \<Rightarrow> minute_record list \<Rightarrow> bool" where
  "summary_spec s q \<longleftrightarrow>
     run_totals (ss_open_ticks s) (ss_high_ticks s) (ss_low_ticks s) (ss_close_ticks s) (ss_volume_shares s)
       (ss_observed_minutes s) (ss_expected_minutes s) q \<and>
     (ss_data_quality_state s = FEATURE_VALID \<longleftrightarrow> \<not> degraded_run q \<and> ss_observed_minutes s = ss_expected_minutes s) \<and>
     (\<exists>hs. map_list_result record_hash_bytes q = Inr hs \<and> ss_source_record_sequence_sha256 s = bytes_hex (sha256 (concat hs))) \<and>
     (\<forall>r \<in> set q. cm_session_id r = ss_session_id s)"

definition open_spec :: "mutable_summary \<Rightarrow> minute_record list \<Rightarrow> bool" where
  "open_spec m q \<longleftrightarrow>
     run_totals (ms_open_ticks m) (ms_high_ticks m) (ms_low_ticks m) (ms_close_ticks m) (ms_volume_shares m)
       (ms_observed_minutes m) (ms_expected_minutes m) q \<and>
     (ms_degraded m \<longleftrightarrow> degraded_run q) \<and>
     (\<exists>hs. map_list_result record_hash_bytes q = Inr hs \<and> ms_sequence m = concat hs) \<and>
     (\<forall>r \<in> set q. cm_session_id r = ms_session_id m)"

lemma map_list_result_append:
  "map_list_result f (xs @ ys) = bind_result (map_list_result f xs) (\<lambda>as. map_result (\<lambda>bs. as @ bs) (map_list_result f ys))"
  by (induction xs) (auto simp: map_result_def bind_result_def split: sum.splits)

lemma open_spec_start: "summary_start r = Inr m \<Longrightarrow> open_spec m [r]"
  by (auto simp: summary_start_def open_spec_def run_totals_def degraded_run_def)

lemma open_spec_add:
  assumes "summary_add r m = Inr m'" and "open_spec m q" and "cm_session_id r = ms_session_id m"
  shows "open_spec m' (q @ [r])"
proof -
  from assms(1) obtain hash where hash: "record_hash_bytes r = Inr hash" and
    m': "m' = m\<lparr>ms_high_ticks := max (ms_high_ticks m) (cm_high_ticks r), ms_low_ticks := min (ms_low_ticks m) (cm_low_ticks r),
         ms_close_ticks := cm_close_ticks r, ms_volume_shares := ms_volume_shares m + cm_volume_shares r,
         ms_observed_minutes := ms_observed_minutes m + 1,
         ms_degraded := (ms_degraded m \<or> cm_data_quality_state r = QUALITY_DEGRADED),
         ms_sequence := ms_sequence m @ hash\<rparr>"
    by (auto simp: summary_add_def checked_int64_def split: if_splits)
  from assms(2) have "q \<noteq> []" by (simp add: open_spec_def run_totals_def)
  then have "Max (insert (cm_high_ticks r) (set (map cm_high_ticks q))) = max (Max (set (map cm_high_ticks q))) (cm_high_ticks r)"
    "Min (insert (cm_low_ticks r) (set (map cm_low_ticks q))) = min (Min (set (map cm_low_ticks q))) (cm_low_ticks r)"
    by (simp_all add: max.commute min.commute)
  with assms(2,3) hash \<open>q \<noteq> []\<close> show ?thesis
    by (auto simp: open_spec_def run_totals_def m' degraded_run_def map_list_result_append)
qed

lemma open_spec_freeze: "open_spec m q \<Longrightarrow> summary_spec (summary_freeze m) q"
  by (auto simp: open_spec_def summary_spec_def summary_freeze_def)

definition runs_spec :: "session_summary list \<Rightarrow> minute_record list list \<Rightarrow> bool" where
  "runs_spec ss runs \<longleftrightarrow> list_all2 summary_spec ss runs \<and> successively (\<noteq>) (map ss_session_id ss)"

lemma list_all2_snoc: "list_all2 P (xs @ [x]) (ys @ [y]) \<longleftrightarrow> list_all2 P xs ys \<and> P x y"
proof
  assume a: "list_all2 P (xs @ [x]) (ys @ [y])"
  then have "length xs = length ys" by (auto dest: list_all2_lengthD)
  with a show "list_all2 P xs ys \<and> P x y" by (simp add: list_all2_append)
qed (simp add: list_all2_appendI)

lemma fold_summary_runs:
  assumes "fold_result summary_step rs (Some m, frozen) = Inr (c, frozen')"
    and "open_spec m q" and "runs_spec (frozen @ [summary_freeze m]) (runs @ [q])"
  shows "\<exists>m' runs'. c = Some m' \<and> concat runs' = concat runs @ q @ rs \<and> runs_spec (frozen' @ [summary_freeze m']) runs'"
  using assms
proof (induction rs arbitrary: m frozen q runs)
  case Nil
  then show ?case by (auto intro!: exI [of _ "runs @ [q]"])
next
  case (Cons r rs)
  show ?case
  proof (cases "ms_session_id m = cm_session_id r")
    case True
    with Cons.prems(1) obtain m1 where m1: "summary_add r m = Inr m1"
      and rest: "fold_result summary_step rs (Some m1, frozen) = Inr (c, frozen')"
      by (auto simp: summary_step_def [of r] split: sum.splits)
    have "open_spec m1 (q @ [r])" by (rule open_spec_add [OF m1 Cons.prems(2)]) (simp add: True)
    moreover have "runs_spec (frozen @ [summary_freeze m1]) (runs @ [q @ [r]])"
      using Cons.prems(3) open_spec_freeze [OF \<open>open_spec m1 (q @ [r])\<close>] summary_add_session [OF m1]
      by (auto simp: runs_spec_def list_all2_snoc)
    ultimately show ?thesis using Cons.IH [OF rest] by fastforce
  next
    case False
    with Cons.prems(1) obtain m1 where m1: "summary_start r = Inr m1"
      and rest: "fold_result summary_step rs (Some m1, frozen @ [summary_freeze m]) = Inr (c, frozen')"
      by (auto simp: summary_step_def [of r] split: sum.splits)
    have "open_spec m1 [r]" by (rule open_spec_start [OF m1])
    moreover have "runs_spec ((frozen @ [summary_freeze m]) @ [summary_freeze m1]) ((runs @ [q]) @ [[r]])"
      using Cons.prems(3) open_spec_freeze [OF \<open>open_spec m1 [r]\<close>] summary_start_session [OF m1] False
      unfolding runs_spec_def list_all2_snoc by (auto simp: successively_append_iff)
    ultimately show ?thesis using Cons.IH [OF rest] by fastforce
  qed
qed

lemma summaries_runs:
  assumes "summaries_for_records rs = Inr ss"
  obtains runs where "concat runs = rs" "runs_spec ss runs"
proof (cases rs)
  case Nil
  then have "ss = []" using assms by (simp add: summaries_for_records_def)
  then show thesis using that [of "[]"] Nil by (simp add: runs_spec_def)
next
  case (Cons r rs')
  with assms obtain m c frozen where m: "summary_start r = Inr m"
    and rest: "fold_result summary_step rs' (Some m, []) = Inr (c, frozen)"
    and ss: "ss = (case c of None \<Rightarrow> frozen | Some m' \<Rightarrow> frozen @ [summary_freeze m'])"
    by (auto simp: summaries_for_records_def summary_step_def [of r] split: sum.splits)
  have "runs_spec ([] @ [summary_freeze m]) ([] @ [[r]])"
    using open_spec_freeze [OF open_spec_start [OF m]] by (simp add: runs_spec_def)
  from fold_summary_runs [OF rest open_spec_start [OF m] this] ss Cons that show thesis by auto
qed

section \<open>One summary per observed session\<close>

lemma session_open_increases:
  assumes "builder_ok b" and "admissible b i r" and "admissible b i r'" and "cm_minute_end r < cm_minute_end r'"
  shows "cm_session_open r \<le> cm_session_open r'"
proof -
  have cal: "calendar_ok (fb_calendar b)" using assms(1) by (simp add: builder_ok_def)
  obtain s where s: "s \<in> set (sessions (fb_calendar b))" "cm_session_open r = session_open s"
    "session_open s < cm_minute_end r" "cm_minute_end r \<le> session_close s"
    using admissible_session [OF assms(1,2)] by auto
  obtain s' where s': "s' \<in> set (sessions (fb_calendar b))" "cm_session_open r' = session_open s'"
    "session_open s' < cm_minute_end r'" "cm_minute_end r' \<le> session_close s'"
    using admissible_session [OF assms(1,3)] by auto
  show ?thesis using sessions_disjoint [OF cal s(1) s'(1)] s s' assms(4) by (cases "s = s'") auto
qed

lemma same_open_same_session:
  assumes "builder_ok b" and "admissible b i r" and "admissible b i r'"
  shows "cm_session_open r = cm_session_open r' \<longleftrightarrow> cm_session_id r = cm_session_id r'"
proof -
  have cal: "calendar_ok (fb_calendar b)" using assms(1) by (simp add: builder_ok_def)
  obtain s where s: "s \<in> set (sessions (fb_calendar b))" "cm_session_open r = session_open s" "session_id s = cm_session_id r"
    using admissible_session [OF assms(1,2)] by auto
  obtain s' where s': "s' \<in> set (sessions (fb_calendar b))" "cm_session_open r' = session_open s'" "session_id s' = cm_session_id r'"
    using admissible_session [OF assms(1,3)] by auto
  have "session_open s < session_close s" "session_open s' < session_close s'" using calendar_ok_session [OF cal] s(1) s'(1) by auto
  then have "session_open s = session_open s' \<longleftrightarrow> s = s'" using sessions_disjoint [OF cal s(1) s'(1)] by fastforce
  moreover have "session_id s = session_id s' \<longleftrightarrow> s = s'"
    using session_lookup [OF assms(1)] s(1) s'(1) by (metis option.inject)
  ultimately show ?thesis using s s' by simp
qed

lemma successively_strict:
  fixes xs :: "'a :: linorder list"
  shows "successively (\<le>) xs \<Longrightarrow> successively (\<noteq>) xs \<Longrightarrow> successively (<) xs"
  by (induction xs rule: induct_list012) (auto simp: less_le)

lemma strictly_sorted_runs:
  fixes f :: "'b \<Rightarrow> 'a :: linorder"
  assumes "sorted (map f (concat runs))" and "\<forall>q \<in> set runs. q \<noteq> []" and "successively (\<noteq>) (map (\<lambda>q. f (hd q)) runs)"
  shows "sorted_wrt (<) (map (\<lambda>q. f (hd q)) runs)"
proof -
  have "sorted (map (\<lambda>q. f (hd q)) runs)"
    using assms(1,2)
  proof (induction runs)
    case (Cons q runs)
    have "f (hd q) \<le> f (hd q')" if "q' \<in> set runs" for q'
    proof -
      have "hd q \<in> set q" "hd q' \<in> set q'" using Cons.prems(2) that by auto
      then have "hd q \<in> set q" "hd q' \<in> set (concat runs)" using that by auto
      then show ?thesis using Cons.prems(1) by (auto simp: sorted_append)
    qed
    with Cons show ?case by (auto simp: sorted_append)
  qed simp
  then have "successively (\<le>) (map (\<lambda>q. f (hd q)) runs)" by (simp add: successively_if_sorted_wrt)
  from successively_strict [OF this assms(3)] show ?thesis by (simp add: successively_conv_sorted_wrt)
qed

lemma filter_concat_run:
  assumes "distinct (map k runs)" and "\<forall>q \<in> set runs. \<forall>x \<in> set q. f x = k q" and "q \<in> set runs"
  shows "filter (\<lambda>x. f x = k q) (concat runs) = q"
  using assms
proof (induction runs)
  case (Cons p runs)
  show ?case
  proof (cases "q = p")
    case True
    have "filter (\<lambda>x. f x = k p) p = p" using Cons.prems(2) by (simp add: filter_id_conv)
    moreover have "f x \<noteq> k p" if "p' \<in> set runs" "x \<in> set p'" for p' x
      using Cons.prems(1,2) that by (metis distinct.simps(2) image_eqI list.set_intros(2) list.set_map list.simps(9))
    then have "filter (\<lambda>x. f x = k p) (concat runs) = []" by (auto simp: filter_empty_conv)
    ultimately show ?thesis using True by simp
  next
    case False
    then have q: "q \<in> set runs" using Cons.prems(3) by simp
    then have "k p \<noteq> k q" using Cons.prems(1) by auto
    then have "filter (\<lambda>x. f x = k q) p = []" using Cons.prems(2) by (auto simp: filter_empty_conv)
    then show ?thesis using Cons.IH Cons.prems q by simp
  qed
qed simp

lemma summary_spec_session:
  assumes "summary_spec s q"
  shows "q \<noteq> []" "ss_session_id s = cm_session_id (hd q)" "\<forall>r \<in> set q. cm_session_id r = cm_session_id (hd q)"
proof -
  show "q \<noteq> []" using assms by (simp add: summary_spec_def run_totals_def)
  then have "hd q \<in> set q" by simp
  with assms show "ss_session_id s = cm_session_id (hd q)" "\<forall>r \<in> set q. cm_session_id r = cm_session_id (hd q)"
    by (simp_all add: summary_spec_def)
qed

lemma summaries_exact:
  assumes ok: "builder_ok b" and records: "builder_records b source i = Inr rs" and summaries: "summaries_for_records rs = Inr ss"
  shows "distinct (map ss_session_id ss) \<and> ss_session_id ` set ss = cm_session_id ` set rs \<and>
    (\<forall>s \<in> set ss. summary_spec s (filter (\<lambda>r. cm_session_id r = ss_session_id s) rs))"
proof -
  note rs = builder_records_Inr [OF records]
  obtain runs where runs: "concat runs = rs" "runs_spec ss runs" by (rule summaries_runs [OF summaries])
  have all2: "list_all2 summary_spec ss runs" using runs(2) by (simp add: runs_spec_def)
  have nonempty: "\<forall>q \<in> set runs. q \<noteq> []" and same: "\<forall>q \<in> set runs. \<forall>r \<in> set q. cm_session_id r = cm_session_id (hd q)"
    using list_all2_set2 [OF all2] summary_spec_session by blast+
  have ids: "map ss_session_id ss = map (\<lambda>q. cm_session_id (hd q)) runs"
    using all2 summary_spec_session(2) by (intro nth_equalityI) (auto simp: list_all2_conv_all_nth)
  have adm: "\<forall>q \<in> set runs. admissible b i (hd q)" using rs(3) nonempty hd_in_set runs(1) by fastforce
  have "sorted (map cm_session_open rs)"
    unfolding sorted_map by (rule sorted_wrt_mono_rel [OF _ rs(2) [unfolded sorted_wrt_map]])
      (use rs(3) session_open_increases [OF ok] in blast)
  moreover have "successively (\<noteq>) (map (\<lambda>q. cm_session_open (hd q)) runs)"
    using runs(2) adm unfolding runs_spec_def ids successively_map
    by (auto elim!: successively_mono dest!: same_open_same_session [OF ok, THEN iffD1, rotated 2])
  ultimately have "distinct (map (\<lambda>q. cm_session_open (hd q)) runs)"
    using strictly_sorted_runs [of cm_session_open runs] nonempty runs(1) by (simp add: strict_sorted_iff)
  then have distinct: "distinct (map (\<lambda>q. cm_session_id (hd q)) runs)"
    using adm same_open_same_session [OF ok, of i] unfolding distinct_map inj_on_def by metis
  have "summary_spec s (filter (\<lambda>r. cm_session_id r = ss_session_id s) rs)" if "s \<in> set ss" for s
  proof -
    from that obtain n where n: "n < length ss" "s = ss ! n" by (auto simp: in_set_conv_nth)
    then have q: "summary_spec s (runs ! n)" "runs ! n \<in> set runs" "ss_session_id s = cm_session_id (hd (runs ! n))"
      using all2 ids by (auto simp: list_all2_conv_all_nth dest: map_eq_imp_length_eq) (metis length_map nth_map)
    then show ?thesis using filter_concat_run [OF distinct same q(2)] runs(1) by simp
  qed
  moreover have "ss_session_id ` set ss = cm_session_id ` set rs"
  proof -
    have "ss_session_id ` set ss = (\<lambda>q. cm_session_id (hd q)) ` set runs" using ids by (metis list.set_map)
    moreover have "cm_session_id ` set q = {cm_session_id (hd q)}" if "q \<in> set runs" for q
    proof -
      have "cm_session_id ` set q \<subseteq> {cm_session_id (hd q)}" using same that by blast
      moreover have "cm_session_id (hd q) \<in> cm_session_id ` set q" using nonempty that by (intro imageI hd_in_set) blast
      ultimately show ?thesis by blast
    qed
    then have "cm_session_id ` set (concat runs) = (\<lambda>q. cm_session_id (hd q)) ` set runs" by (simp add: image_UN UNION_singleton_eq_range)
    ultimately show ?thesis by (simp add: runs(1))
  qed
  ultimately show ?thesis using distinct ids by simp
qed

end
