(* ===== verification/Minute_Codec.thy ===== *)
theory Minute_Codec
  imports Minute
begin

text \<open>
  Stored minutes: dates survive \<open>isoformat\<close> and \<open>fromisoformat\<close>, and a record written as its canonical payload
  decodes to itself; what decodes carries its own digest and the known schema version.
\<close>

section \<open>Dates\<close>

definition date_ok :: "date \<Rightarrow> bool" where
  "date_ok d \<longleftrightarrow> date_new (date_year d) (date_month d) (date_day d) = Inr d"

lemma fold_digits:
  "fold (\<lambda>c v. v * 10 + int c - 48) (lit (nat_dec n)) 0 = int n"
proof (induction n rule: nat_dec.induct)
  case (1 n)
  show ?case
  proof (cases "n < 10")
    case True
    then show ?thesis by (subst nat_dec.simps) (simp add: lit_def of_char_digit)
  next
    case False
    then have "lit (nat_dec n) = lit (nat_dec (n div 10)) @ [48 + n mod 10]"
      by (subst nat_dec.simps) (simp add: lit_def of_char_digit)
    moreover have "int (n div 10) * 10 + int (n mod 10) = int n"
      by (metis div_mult_mod_eq of_nat_add of_nat_mult of_nat_numeral)
    ultimately show ?thesis using 1 False by simp
  qed
qed

lemma zero_padded_digits:
  assumes "0 \<le> n" and "n < 10 ^ Suc w"
  shows "length (zero_padded (Suc w) n) = Suc w" "\<forall>c \<in> set (zero_padded (Suc w) n). 48 \<le> c \<and> c \<le> 57"
    "fold (\<lambda>c v. v * 10 + int c - 48) (zero_padded (Suc w) n) 0 = n"
proof -
  have "nat n < 10 ^ Suc w" using assms by (simp add: nat_less_iff)
  then have len: "length (nat_dec (nat n)) \<le> Suc w" by (rule length_nat_dec)
  then show "length (zero_padded (Suc w) n) = Suc w" by (simp add: zero_padded_def Let_def)
  show "\<forall>c \<in> set (zero_padded (Suc w) n). 48 \<le> c \<and> c \<le> 57"
    using nat_dec_digits [of "nat n"] by (auto simp: zero_padded_def Let_def is_digit_def)
  have "fold (\<lambda>c v. v * 10 + int c - 48) (replicate k 48) 0 = 0" for k by (induction k) simp_all
  then show "fold (\<lambda>c v. v * 10 + int c - 48) (zero_padded (Suc w) n) 0 = n"
    using assms(1) by (simp add: zero_padded_def Let_def fold_digits)
qed

lemma iso_digits_padded:
  assumes "0 \<le> n" and "n < 10 ^ Suc w"
  shows "iso_digits (Suc w) (zero_padded (Suc w) n @ rest) = Some (n, rest)"
  using zero_padded_digits [OF assms] by (simp add: iso_digits_def)

lemma ascii_length:
  assumes "\<forall>c \<in> set t. c < 128"
  shows "utf8_length t = Some (length t)"
proof -
  have "sum_list (map utf8_width t) = length t" using assms by (induction t) (auto simp: utf8_width_def)
  then show ?thesis using assms by (auto simp: utf8_length_def is_surrogate_def list_ex_iff)
qed

lemma date_roundtrip:
  assumes "date_ok d"
  shows "date_fromisoformat (isoformat d) = Inr d"
proof -
  have range: "1 \<le> date_year d" "date_year d \<le> 9999" "1 \<le> date_month d" "date_month d \<le> 12" "1 \<le> date_day d"
      "date_day d \<le> days_in_month (date_year d) (date_month d)"
    using assms by (auto simp: date_ok_def date_new_def split: if_splits)
  have "date_day d \<le> 31" using range(6) by (auto simp: days_in_month_def split: if_splits)
  note y = zero_padded_digits [of "date_year d" 3] iso_digits_padded [of "date_year d" 3]
    and m = zero_padded_digits [of "date_month d" 1] iso_digits_padded [of "date_month d" 1]
    and d = zero_padded_digits [of "date_day d" 1] iso_digits_padded [of "date_day d" 1, of "[]"]
  have ascii: "\<forall>c \<in> set (isoformat d). c < 128" and len: "length (isoformat d) = 10"
    using y(1,2) m(1,2) d(1,2) range \<open>date_day d \<le> 31\<close> by (auto simp: isoformat_def eval_nat_numeral)
  have digits: "iso_digits 4 (zero_padded 4 (date_year d) @ rest) = Some (date_year d, rest)"
    "iso_digits 2 (zero_padded 2 (date_month d) @ rest) = Some (date_month d, rest)"
    "iso_digits 2 (zero_padded 2 (date_day d)) = Some (date_day d, [])" for rest
    using y(4) m(4) d(4) range \<open>date_day d \<le> 31\<close> by (simp_all add: eval_nat_numeral)
  have "take 1 (zero_padded 2 (date_month d) @ rest) \<noteq> [87]" for rest
    using m(1,2) range by (cases "zero_padded 2 (date_month d)") (auto simp: eval_nat_numeral)
  then have "parse_isoformat_date (isoformat d) = Some (date_year d, date_month d, date_day d)"
    by (simp add: parse_isoformat_date_def isoformat_def digits parse_month_date_def iso_dash_def)
  then show ?thesis using assms ascii_length [OF ascii] len by (simp add: date_fromisoformat_def date_ok_def)
qed

section \<open>Stored records\<close>

definition minute_texts :: "minute_record \<Rightarrow> ustr list" where
  "minute_texts r =
     [cm_instrument_id r, cm_source_ticker r, cm_market_id r, cm_session_id r, cm_currency r, cm_source_manifest_id r,
      cm_source_object_id r, cm_source_record_id r, cm_mapping_id r, cm_instrument_revision_id r, cm_tick_revision_id r,
      cm_reference_sha256 r, cm_record_sha256 r, cm_schema_version r] @ cm_data_quality_reasons r @ cm_corporate_action_ids r"

definition storable :: "minute_record \<Rightarrow> bool" where
  "storable r \<longleftrightarrow> (\<forall>t \<in> set (minute_texts r). text_ok t) \<and> json_ints_ok (JObj (minute_payload True r)) \<and>
     date_ok (cm_trading_date r) \<and> cm_schema_version r = CANONICAL_MINUTE_SCHEMA_VERSION \<and>
     record_digest r = Inr (cm_record_sha256 r)"

lemma payload_sorted: "sorted_wrt (<) (map fst (minute_payload True r))"
proof -
  have "map fst (minute_payload True r) = map fst (minute_payload True undefined)" by (simp add: minute_payload_def)
  moreover have "successively (<) (map fst (minute_payload True undefined))"
    unfolding minute_payload_def by (simp add: lit_def)
  ultimately show ?thesis by (simp add: successively_conv_sorted_wrt)
qed

lemma text_ok_ascii: "\<forall>c \<in> set t. c < 128 \<Longrightarrow> text_ok t"
  by (auto simp: text_ok_def is_surrogate_def)

lemma payload_wf:
  assumes "\<forall>t \<in> set (minute_texts r). text_ok t" and "date_ok (cm_trading_date r)"
  shows "json_wf (JObj (minute_payload True r))"
proof -
  have ascii: "text_ok (lit s)" if "\<forall>c \<in> set s. of_char c < (128 :: nat)" for s
    using that by (intro text_ok_ascii) (auto simp: lit_def)
  have keys: "list_all text_ok (map fst (minute_payload True r))"
    unfolding minute_payload_def by (simp add: ascii)
  have "\<forall>c \<in> set (isoformat (cm_trading_date r)). c < 128"
    using nat_dec_digits by (fastforce simp: isoformat_def zero_padded_def Let_def is_digit_def)
  then have date: "text_ok (isoformat (cm_trading_date r))" by (rule text_ok_ascii)
  have quality: "text_ok (minute_quality_value q)" for q by (cases q) (simp_all add: ascii)
  have optional: "json_wf (optional_int x)" for x by (simp add: optional_int_def split: option.splits)
  have "list_all (\<lambda>kv. json_wf (snd kv)) (minute_payload True r)"
    unfolding minute_payload_def
    using assms(1) by (simp add: minute_texts_def list_all_iff ascii date quality optional)
  with keys payload_sorted show ?thesis by simp
qed

lemma the_optional_int [simp]: "the_optional_int (optional_int x) = x"
  by (simp add: the_optional_int_def optional_int_def split: option.splits)

lemma optional_int_typed [simp]: "optional_int x = JNull \<or> is_int (optional_int x)"
  by (simp add: optional_int_def split: option.splits)

lemma minute_quality_roundtrip [simp]: "minute_quality_of (JStr (minute_quality_value q)) = Inr q"
  by (cases q) simp_all

lemma payload_present:
  "list_all (\<lambda>k. map_of (minute_payload True r) (lit k) \<noteq> None)
     (minute_text_fields @ minute_int_fields @ minute_optional_fields @ minute_parsed_fields)"
  unfolding minute_payload_def minute_text_fields_def minute_int_fields_def minute_optional_fields_def minute_parsed_fields_def
  by simp

lemma payload_members:
  "member_of (minute_payload True r) ''instrument_id'' = JStr (cm_instrument_id r)"
  "member_of (minute_payload True r) ''source_ticker'' = JStr (cm_source_ticker r)"
  "member_of (minute_payload True r) ''market_id'' = JStr (cm_market_id r)"
  "member_of (minute_payload True r) ''session_id'' = JStr (cm_session_id r)"
  "member_of (minute_payload True r) ''currency'' = JStr (cm_currency r)"
  "member_of (minute_payload True r) ''source_manifest_id'' = JStr (cm_source_manifest_id r)"
  "member_of (minute_payload True r) ''source_object_id'' = JStr (cm_source_object_id r)"
  "member_of (minute_payload True r) ''source_record_id'' = JStr (cm_source_record_id r)"
  "member_of (minute_payload True r) ''mapping_id'' = JStr (cm_mapping_id r)"
  "member_of (minute_payload True r) ''instrument_revision_id'' = JStr (cm_instrument_revision_id r)"
  "member_of (minute_payload True r) ''tick_revision_id'' = JStr (cm_tick_revision_id r)"
  "member_of (minute_payload True r) ''reference_sha256'' = JStr (cm_reference_sha256 r)"
  "member_of (minute_payload True r) ''record_sha256'' = JStr (cm_record_sha256 r)"
  "member_of (minute_payload True r) ''schema_version'' = JStr (cm_schema_version r)"
  "member_of (minute_payload True r) ''minute_start_exchange_time_ns'' = JInt (cm_minute_start r)"
  "member_of (minute_payload True r) ''minute_end_exchange_time_ns'' = JInt (cm_minute_end r)"
  "member_of (minute_payload True r) ''session_open_exchange_time_ns'' = JInt (cm_session_open r)"
  "member_of (minute_payload True r) ''session_close_exchange_time_ns'' = JInt (cm_session_close r)"
  "member_of (minute_payload True r) ''tick_value_currency_nanos'' = JInt (cm_tick_value_nanos r)"
  "member_of (minute_payload True r) ''open_ticks'' = JInt (cm_open_ticks r)"
  "member_of (minute_payload True r) ''high_ticks'' = JInt (cm_high_ticks r)"
  "member_of (minute_payload True r) ''low_ticks'' = JInt (cm_low_ticks r)"
  "member_of (minute_payload True r) ''close_ticks'' = JInt (cm_close_ticks r)"
  "member_of (minute_payload True r) ''volume_shares'' = JInt (cm_volume_shares r)"
  "member_of (minute_payload True r) ''source_availability_time_ns'' = JInt (cm_source_availability_time_ns r)"
  "member_of (minute_payload True r) ''local_receipt_time_ns'' = JInt (cm_local_receipt_time_ns r)"
  "member_of (minute_payload True r) ''local_processing_time_ns'' = JInt (cm_local_processing_time_ns r)"
  "member_of (minute_payload True r) ''trade_count'' = optional_int (cm_trade_count r)"
  "member_of (minute_payload True r) ''vwap_ticks'' = optional_int (cm_vwap_ticks r)"
  "member_of (minute_payload True r) ''source_publication_time_ns'' = optional_int (cm_source_publication_time_ns r)"
  "member_of (minute_payload True r) ''trading_date'' = JStr (isoformat (cm_trading_date r))"
  "member_of (minute_payload True r) ''data_quality_state'' = JStr (minute_quality_value (cm_data_quality_state r))"
  "member_of (minute_payload True r) ''data_quality_reasons'' = JArr (map JStr (cm_data_quality_reasons r))"
  "member_of (minute_payload True r) ''corporate_action_ids'' = JArr (map JStr (cm_corporate_action_ids r))"
  unfolding member_of_def minute_payload_def by simp_all

lemma payload_typed:
  "minute_typed (minute_payload True r) (map JStr (cm_data_quality_reasons r)) (map JStr (cm_corporate_action_ids r))"
  by (simp add: minute_typed_def minute_text_fields_def minute_int_fields_def minute_optional_fields_def payload_members
      list_all_iff)

lemma from_document_payload:
  assumes "date_ok (cm_trading_date r)"
  shows "minute_from_document (minute_payload True r) = Inr r"
proof -
  have "minute_of_fields (minute_payload True r) (cm_trading_date r) (cm_data_quality_state r)
      (map JStr (cm_data_quality_reasons r)) (map JStr (cm_corporate_action_ids r)) = r"
    by (simp add: minute_of_fields_def payload_members comp_def)
  then show ?thesis
    using payload_present [of r] payload_typed [of r]
    by (simp only: minute_from_document_def payload_members date_of.simps date_roundtrip [OF assms] minute_quality_roundtrip
        tuple_of.simps or_malformed_def sum.case bind_result_simps not_True_eq_False if_False if_True)
qed

lemma minute_roundtrip:
  assumes "storable r"
  shows "\<exists>encoded. document_bytes (JObj (minute_payload True r)) = Inr encoded \<and> minute_from_bytes encoded = Inr r"
proof -
  let ?v = "JObj (minute_payload True r)"
  have ok: "json_wf ?v" "json_ints_ok ?v" "date_ok (cm_trading_date r)" using assms payload_wf by (auto simp: storable_def)
  define encoded where "encoded = emit ?v"
  have "json_loads_bytes encoded = Inr ?v" unfolding encoded_def by (rule json_loads_bytes_emit [OF ok(1,2)])
  then have "minute_from_bytes encoded = Inr r"
    using assms from_document_payload [OF ok(3)] by (simp add: minute_from_bytes_def storable_def with_py_error_def)
  moreover have "document_bytes ?v = Inr encoded"
    using ok(2) unfolding document_bytes_def json_dumps_def encoded_def by (simp only: if_True)
  ultimately show ?thesis by blast
qed

text \<open>Nothing else is accepted: a decoded record carries its own digest and the known schema.\<close>

lemma minute_from_bytes_Inr:
  "minute_from_bytes encoded = Inr r \<Longrightarrow>
   cm_schema_version r = CANONICAL_MINUTE_SCHEMA_VERSION \<and> record_digest r = Inr (cm_record_sha256 r)"
  by (auto simp: minute_from_bytes_def with_py_error_def split: if_splits sum.splits)

end
