(* ===== verification/Minute_Properties.thy ===== *)
theory Minute_Properties
  imports Minute_Proofs Minute_Codec
begin

text \<open>
  The properties of canonical minute normalization: prices, tick sizes, point-in-time resolution, the canonical record and
  its stored form, with the examples their witnesses share.
\<close>

section \<open>The examples\<close>

lemma json_digest_ok: "json_ints_ok v \<Longrightarrow> json_digest v = Inr (bytes_hex (sha256 (emit v)))"
  by (simp add: json_digest_def document_bytes_def json_dumps_def)

lemma json_ints_small: "\<bar>n\<bar> < 10 ^ 30 \<Longrightarrow> json_ints_ok (JInt n)"
  using length_nat_dec [of "nat \<bar>n\<bar>" 29] by (simp add: MAX_INT_DIGITS_def nat_less_iff)

lemma int_digits_small: "\<bar>n\<bar> < 10 ^ 30 \<Longrightarrow> length (nat_dec (nat \<bar>n\<bar>)) \<le> MAX_INT_DIGITS"
  using json_ints_small [of n] by simp

definition ex_tick :: "int \<Rightarrow> int \<Rightarrow> int \<Rightarrow> tick_size_revision" where
  "ex_tick version available nanos = \<lparr>tick_revision_id = lit ''t'', tick_symbol = lit ''AAPL'', tick_value_nanos = nanos,
     tick_currency = lit ''USD'', tick_effective_from_ns = 1, tick_effective_to_ns = None, tick_available_at_ns = available,
     tick_version = version, tick_source_sha256 = [], tick_historical_completeness = True\<rparr>"

definition ex_ticks :: "tick_size_revision list \<Rightarrow> tick_size_store" where
  "ex_ticks revisions = projr (tick_size_store_init revisions)"

lemma ex_tick_json:
  "\<bar>v\<bar> < 10 ^ 30 \<Longrightarrow> \<bar>a\<bar> < 10 ^ 30 \<Longrightarrow> \<bar>n\<bar> < 10 ^ 30 \<Longrightarrow> json_ints_ok (tick_revision_json (ex_tick v a n))"
  using int_digits_small [of 1] by (simp add: tick_revision_json_def ex_tick_def optional_int_def int_digits_small)

lemma ex_ticks_init:
  "tick_size_store_init [ex_tick 1 5 10, ex_tick 2 9 20] = Inr (ex_ticks [ex_tick 1 5 10, ex_tick 2 9 20])"
  "tick_size_store_init [ex_tick 1 5 10] = Inr (ex_ticks [ex_tick 1 5 10])"
proof -
  have groups: "group_by tick_symbol (\<lambda>t. t) [ex_tick 1 5 10, ex_tick 2 9 20] = [(lit ''AAPL'', [ex_tick 1 5 10, ex_tick 2 9 20])]"
    "group_by tick_symbol (\<lambda>t. t) [ex_tick 1 5 10] = [(lit ''AAPL'', [ex_tick 1 5 10])]"
    by (simp_all add: group_by_def ex_tick_def)
  have checks: "check_tick_group (lit ''AAPL'', [ex_tick 1 5 10, ex_tick 2 9 20]) = None"
    "check_tick_group (lit ''AAPL'', [ex_tick 1 5 10]) = None"
    by (simp_all add: check_tick_group_def Let_def ex_tick_def pairwise_list_def upt_rec)
  have digests: "json_ints_ok (JArr (map tick_revision_json (sort_key f [ex_tick 1 5 10, ex_tick 2 9 20])))"
    "json_ints_ok (JArr (map tick_revision_json (sort_key f [ex_tick 1 5 10])))" for f :: "tick_size_revision \<Rightarrow> ustr \<times> int"
    by (auto simp: list_all_iff ex_tick_json)
  show "tick_size_store_init [ex_tick 1 5 10, ex_tick 2 9 20] = Inr (ex_ticks [ex_tick 1 5 10, ex_tick 2 9 20])"
    unfolding ex_ticks_def tick_size_store_init_def Let_def groups json_digest_ok [OF digests(1)] with_py_error_def
    by (simp add: checks first_error.simps)
  show "tick_size_store_init [ex_tick 1 5 10] = Inr (ex_ticks [ex_tick 1 5 10])"
    unfolding ex_ticks_def tick_size_store_init_def Let_def groups json_digest_ok [OF digests(2)] with_py_error_def
    by (simp add: checks first_error.simps)
qed

definition ex_minute_base :: minute_record where
  "ex_minute_base =
     \<lparr>cm_instrument_id = lit ''i'', cm_source_ticker = lit ''AAPL'', cm_market_id = lit ''XNAS'', cm_session_id = lit ''s'',
      cm_trading_date = Date 2024 2 29, cm_minute_start = 60000000000, cm_minute_end = 120000000000,
      cm_session_open = 60000000000, cm_session_close = 180000000000, cm_currency = lit ''USD'', cm_tick_value_nanos = 10000000,
      cm_open_ticks = 100, cm_high_ticks = 102, cm_low_ticks = 99, cm_close_ticks = 101, cm_volume_shares = 7,
      cm_trade_count = Some 3, cm_vwap_ticks = None, cm_source_publication_time_ns = None,
      cm_source_availability_time_ns = 130000000000, cm_local_receipt_time_ns = 130000000000,
      cm_local_processing_time_ns = 130000000000, cm_data_quality_state = QUALITY_DEGRADED,
      cm_data_quality_reasons = [lit ''R''], cm_source_manifest_id = lit ''m'', cm_source_object_id = lit ''o'',
      cm_source_record_id = lit ''r'', cm_mapping_id = lit ''p'', cm_instrument_revision_id = lit ''q'',
      cm_tick_revision_id = lit ''t'', cm_corporate_action_ids = [], cm_reference_sha256 = lit ''a'', cm_record_sha256 = [],
      cm_schema_version = CANONICAL_MINUTE_SCHEMA_VERSION\<rparr>"

definition ex_digest :: ustr where
  "ex_digest = bytes_hex (sha256 (emit (JObj (minute_payload False ex_minute_base))))"

definition ex_minute :: minute_record where
  "ex_minute = ex_minute_base\<lparr>cm_record_sha256 := ex_digest\<rparr>"

lemma ex_digest_text: "text_ok ex_digest"
  unfolding ex_digest_def using bytes_hex_plain [of "sha256 (emit (JObj (minute_payload False ex_minute_base)))"] sha256_bytes
  by (intro text_ok_ascii) (auto simp: plain_hex_def)

lemma ex_minute_storable: "storable ex_minute"
proof -
  note small = int_digits_small [of 100] int_digits_small [of 102] int_digits_small [of 99] int_digits_small [of 101]
    int_digits_small [of 7] int_digits_small [of 3] int_digits_small [of 10000000] int_digits_small [of 60000000000]
    int_digits_small [of 120000000000] int_digits_small [of 180000000000] int_digits_small [of 130000000000]
  have ints: "json_ints_ok (JObj (minute_payload False ex_minute_base))" "json_ints_ok (JObj (minute_payload True ex_minute))"
    unfolding minute_payload_def ex_minute_def ex_minute_base_def using small by (simp_all add: optional_int_def)
  have "record_digest ex_minute_base = Inr ex_digest"
    unfolding record_digest_def json_digest_ok [OF ints(1)] ex_digest_def ..
  then have digest: "record_digest ex_minute = Inr (cm_record_sha256 ex_minute)" by (simp add: ex_minute_def)
  have date: "date_ok (cm_trading_date ex_minute_base)" "cm_schema_version ex_minute_base = CANONICAL_MINUTE_SCHEMA_VERSION"
    by code_simp+
  have "\<forall>t \<in> set (minute_texts ex_minute_base). \<forall>c \<in> set t. c < 128" by code_simp
  then have texts: "\<forall>t \<in> set (minute_texts ex_minute_base). text_ok t" using text_ok_ascii by blast
  show ?thesis
    using ints(2) digest date texts ex_digest_text by (simp add: storable_def minute_texts_def ex_minute_def)
qed

section \<open>Properties\<close>

text \<open>
  Claim C19. Currency conversion is exact. A finite decimal price of at most twenty-eight digits converts to currency nanos
  exactly when it is positive and its value times 10^9 is an integer in the int64 range, and the result is that integer.
\<close>

theorem currency_nanos_exact:
  assumes "c < 10 ^ 28"
  shows "currency_nanos (Price_Decimal (Finite negative c e)) = Inr n \<longleftrightarrow>
    0 < n \<and> n \<le> INT64_MAX \<and> \<not> negative \<and> decimal_value c e * 10 ^ 9 = of_int n"
  by (rule currency_nanos_value [OF assms])

theorem currency_nanos_exact_witness: "currency_nanos (Price_Decimal (Finite False 10125 (- 2))) = Inr 101250000000"
  by (subst currency_nanos_exact) (simp_all add: decimal_value_def INT64_MAX_def power_int_minus)


text \<open>
  A tick-size lookup is point-in-time: it returns the revision with the greatest version among those of the symbol
  that are available by the knowledge time and in effect at the event time, and fails with the missing-tick code exactly
  when there is none.
\<close>

theorem tick_size_at_exact:
  assumes "tick_size_store_init revisions = Inr st"
  shows "case tick_size_at st symbol t k of
      Inr r \<Rightarrow> r \<in> set revisions \<and> tick_symbol r = symbol \<and> tick_available_at_ns r \<le> k \<and> tick_effective_at r t \<and>
        (\<forall>r' \<in> set revisions. tick_symbol r' = symbol \<and> tick_available_at_ns r' \<le> k \<and> tick_effective_at r' t \<longrightarrow>
           tick_version r' \<le> tick_version r)
    | Inl e \<Rightarrow> e = MinuteNormalizationError MISSING_TICK_SIZE (lit ''no known tick-size revision for '' @ symbol) \<and>
        (\<forall>r' \<in> set revisions. \<not> (tick_symbol r' = symbol \<and> tick_available_at_ns r' \<le> k \<and> tick_effective_at r' t))"
proof (cases "tick_size_at st symbol t k")
  case (Inl e)
  then show ?thesis
    using ticks.lookup_None [OF assms, of "(symbol, t, k)"] tick_size_at_error [OF Inl] by (simp add: tick_lookup_def tick_applies_def)
next
  case (Inr r)
  then show ?thesis
    using ticks.lookup_greatest [OF assms, of "(symbol, t, k)" r] by (simp add: tick_lookup_def tick_applies_def)
qed

text \<open>The digest of the resolver only names the snapshot in the result.\<close>

lemma resolve_digest:
  "minute_resolve zone \<lparr>res_reference = st, res_ticks = ticks, res_reference_sha256 = digest'\<rparr> symbol t k =
   map_result (\<lambda>r. r\<lparr>mr_reference_sha256 := digest'\<rparr>)
     (minute_resolve zone \<lparr>res_reference = st, res_ticks = ticks, res_reference_sha256 = digest\<rparr> symbol t k)"
  unfolding minute_resolve_def Let_def minute_resolver.select_convs bind_result_def map_result_def with_py_error_def
  by (simp split: sum.split option.split)

text \<open>
  Claim C15. No look-ahead in the minute resolver: two resolvers whose reference snapshots and tick revisions agree on what is
  available by the knowledge time resolve every symbol and minute alike, errors included, up to the digest that names the
  snapshot used.
\<close>

theorem minute_resolve_point_in_time:
  assumes "reference_store_init s = Inr st" and "reference_store_init s' = Inr st'" and "same_knowledge k s s'"
    and "rs_halt_coverage_complete s = rs_halt_coverage_complete s'"
    and "tick_size_store_init revisions = Inr ticks" and "tick_size_store_init revisions' = Inr ticks'"
    and "set (filter (\<lambda>r. tick_available_at_ns r \<le> k) revisions) = set (filter (\<lambda>r. tick_available_at_ns r \<le> k) revisions')"
  shows "minute_resolve zone \<lparr>res_reference = st', res_ticks = ticks', res_reference_sha256 = digest'\<rparr> symbol t k =
    map_result (\<lambda>r. r\<lparr>mr_reference_sha256 := digest'\<rparr>)
      (minute_resolve zone \<lparr>res_reference = st, res_ticks = ticks, res_reference_sha256 = digest\<rparr> symbol t k)"
  unfolding minute_resolve_depends [OF assms] by (rule resolve_digest)

theorem minute_resolve_point_in_time_witness:
  "minute_resolve (\<lambda>_. Date 2024 1 2) \<lparr>res_reference = projr (reference_store_init (ex_snapshot [ex_mapping 1 5 5, ex_mapping 2 7 7])),
      res_ticks = ex_ticks [ex_tick 1 5 10, ex_tick 2 9 20], res_reference_sha256 = lit ''b''\<rparr> (lit ''AAPL'') 6 6 =
   map_result (\<lambda>r. r\<lparr>mr_reference_sha256 := lit ''b''\<rparr>)
     (minute_resolve (\<lambda>_. Date 2024 1 2) \<lparr>res_reference = ex_reference_store, res_ticks = ex_ticks [ex_tick 1 5 10],
        res_reference_sha256 = lit ''a''\<rparr> (lit ''AAPL'') 6 6)"
proof (rule minute_resolve_point_in_time [OF ex_reference_init ex_reference_extended _ _ ex_ticks_init(2,1)])
  show "same_knowledge 6 ex_reference (ex_snapshot [ex_mapping 1 5 5, ex_mapping 2 7 7])" by code_simp
qed (simp_all add: ex_reference_def ex_snapshot_def ex_tick_def)


text \<open>
  Claim C27. The stored form of a canonical minute decodes to the record that was stored.
\<close>

theorem minute_codec_roundtrip:
  assumes "storable r"
  shows "case document_bytes (JObj (minute_payload True r)) of Inl e \<Rightarrow> False | Inr encoded \<Rightarrow> minute_from_bytes encoded = Inr r"
  using minute_roundtrip [OF assms] by auto

theorem minute_codec_roundtrip_witness:
  "case document_bytes (JObj (minute_payload True ex_minute)) of Inl e \<Rightarrow> False | Inr encoded \<Rightarrow> minute_from_bytes encoded = Inr ex_minute"
  by (rule minute_codec_roundtrip [OF ex_minute_storable])

end
