(* ===== verification/Feature_Properties.thy ===== *)
theory Feature_Properties
  imports Feature_Splits Feature_Coverage Feature_Summaries Minute_Properties
begin

text \<open>
  The properties of the feature dataset builder, with the example its witnesses share: a builder over the two-session
  calendar, and bars of one instrument whose digests are those of their own payload.
\<close>

section \<open>The example\<close>

definition ex_instrument :: ustr where
  "ex_instrument = identifier_hex (Identifier128 0 1)"

definition ex_universe :: universe_snapshot where
  "ex_universe = \<lparr>us_source_path = [], us_source_file_sha256 = [],
     us_ordered_entries = [\<lparr>source_ordinal = 0, entry_symbol = lit ''AAPL'', resolution_code = RESOLVED,
       entry_instrument_id = Some (Identifier128 0 1)\<rparr>],
     us_canonical_symbols = [lit ''AAPL''], us_snapshot_sha256 = [], us_schema_version = []\<rparr>"

definition ex_builder :: "exchange_calendar \<Rightarrow> feature_builder" where
  "ex_builder calendar = projr (builder_init ex_universe calendar None None 10)"

definition ex_base :: "ustr \<Rightarrow> int \<Rightarrow> int \<Rightarrow> int \<Rightarrow> minute_record" where
  "ex_base session opened closing e =
     \<lparr>cm_instrument_id = ex_instrument, cm_source_ticker = lit ''AAPL'', cm_market_id = lit ''XNAS'', cm_session_id = session,
      cm_trading_date = Date 2024 1 2, cm_minute_start = e - MINUTE_NS, cm_minute_end = e, cm_session_open = opened,
      cm_session_close = closing, cm_currency = lit ''USD'', cm_tick_value_nanos = 10000000,
      cm_open_ticks = 100, cm_high_ticks = 100, cm_low_ticks = 100, cm_close_ticks = 100, cm_volume_shares = 7,
      cm_trade_count = None, cm_vwap_ticks = None, cm_source_publication_time_ns = None,
      cm_source_availability_time_ns = e, cm_local_receipt_time_ns = e, cm_local_processing_time_ns = e,
      cm_data_quality_state = QUALITY_VALID, cm_data_quality_reasons = [], cm_source_manifest_id = [],
      cm_source_object_id = [], cm_source_record_id = [], cm_mapping_id = [], cm_instrument_revision_id = [],
      cm_tick_revision_id = [], cm_corporate_action_ids = [], cm_reference_sha256 = [], cm_record_sha256 = [],
      cm_schema_version = CANONICAL_MINUTE_SCHEMA_VERSION\<rparr>"

definition ex_bar :: "ustr \<Rightarrow> int \<Rightarrow> int \<Rightarrow> int \<Rightarrow> minute_record" where
  "ex_bar session opened closing e =
     (ex_base session opened closing e)\<lparr>cm_record_sha256 := projr (record_digest (ex_base session opened closing e))\<rparr>"

abbreviation ex_bar1 :: "int \<Rightarrow> minute_record" where
  "ex_bar1 k \<equiv> ex_bar (lit ''d1'') MINUTE_NS (5 * MINUTE_NS) (k * MINUTE_NS)"

abbreviation ex_bar2 :: "int \<Rightarrow> minute_record" where
  "ex_bar2 k \<equiv> ex_bar (lit ''d2'') (10 * MINUTE_NS) (12 * MINUTE_NS) (k * MINUTE_NS)"

definition ex_source :: "minute_record list \<Rightarrow> canonical_source" where
  "ex_source rs = \<lparr>src_instrument_ids = [ex_instrument], src_iter_instrument = (\<lambda>i. (rs, None))\<rparr>"

definition ex_plan :: split_plan where
  "ex_plan = \<lparr>sp_session_splits = [(lit ''d1'', TRAIN), (lit ''d2'', TEST)], sp_train_sessions = [lit ''d1''],
     sp_validation_sessions = [], sp_test_sessions = [lit ''d2''], sp_first_purge_sessions = [], sp_second_purge_sessions = []\<rparr>"

lemma ex_builder_init:
  "builder_init ex_universe calendar None None 10 = Inr (ex_builder calendar)"
proof -
  obtain specs where specs: "required_horizon_specs (calendar_version calendar) PAUSE = Inr specs"
    using required_horizons_construct [of PAUSE "calendar_version calendar"] by auto
  have sectors: "sector_index_init [] = Inr (projr (sector_index_init []))"
    by (simp add: sector_index_init_def group_by_def dataset_py_def json_digest_def document_bytes_def json_dumps_def MAX_SECTOR_REVISIONS_def)
  have events: "event_index_init [] None None = Inr (projr (event_index_init [] None None))"
    by (simp add: event_index_init_def inferred_coverage_def dataset_py_def json_digest_def document_bytes_def json_dumps_def
        MAX_EVENTS_def MAX_EVENT_COVERAGE_def)
  have "\<exists>b. builder_init ex_universe calendar None None 10 = Inr b"
    by (subst builder_init_def) (simp add: sectors [symmetric] events [symmetric] specs, use sectors events in force)
  then show ?thesis by (auto simp: ex_builder_def)
qed

lemma ex_builder_ok: "calendar_ok calendar \<Longrightarrow> builder_ok (ex_builder calendar)"
  using ex_builder_init [of calendar] builder_init_Inr(3) [OF ex_builder_init, of calendar] unfolding builder_ok_def by metis

lemma ex_bar_fields [simp]:
  "cm_instrument_id (ex_bar s a c e) = ex_instrument" "cm_session_id (ex_bar s a c e) = s" "cm_minute_end (ex_bar s a c e) = e"
  "cm_minute_start (ex_bar s a c e) = e - MINUTE_NS" "cm_session_open (ex_bar s a c e) = a" "cm_session_close (ex_bar s a c e) = c"
  "cm_source_availability_time_ns (ex_bar s a c e) = e" "cm_local_receipt_time_ns (ex_bar s a c e) = e"
  "cm_local_processing_time_ns (ex_bar s a c e) = e" "cm_source_publication_time_ns (ex_bar s a c e) = None"
  "cm_close_ticks (ex_bar s a c e) = 100"
  by (simp_all add: ex_bar_def ex_base_def)

lemma ex_bar_digest:
  assumes "\<bar>e\<bar> < 10 ^ 29" "\<bar>a\<bar> < 10 ^ 29" "\<bar>c\<bar> < 10 ^ 29"
  shows "record_digest (ex_bar s a c e) = Inr (cm_record_sha256 (ex_bar s a c e))"
proof -
  have "json_ints_ok (JObj (minute_payload False (ex_base s a c e)))"
    using assms int_digits_small [of 100] int_digits_small [of 10000000] int_digits_small [of 7] unfolding minute_payload_def ex_base_def
    by (simp add: optional_int_def int_digits_small MINUTE_NS_def)
  from json_digest_ok [OF this] show ?thesis by (simp add: ex_bar_def record_digest_hash record_digest_def [of "ex_base s a c e"])
qed

lemma ex_bar_admitted:
  assumes "calendar_ok calendar" and "\<lparr>session_id = s, session_open = a, session_close = c, halt_intervals = hs\<rparr> \<in> set (sessions calendar)"
    and "a < e" "e \<le> c" "\<bar>e\<bar> < 10 ^ 29" "\<bar>a\<bar> < 10 ^ 29" "\<bar>c\<bar> < 10 ^ 29"
  shows "record_conflict (ex_builder calendar) (ex_bar s a c e) = Inr False"
proof -
  have "fb_calendar (ex_builder calendar) = calendar" by (rule builder_init_Inr(3) [OF ex_builder_init])
  then have "map_of (fb_session_by_id (ex_builder calendar)) s =
      Some \<lparr>session_id = s, session_open = a, session_close = c, halt_intervals = hs\<rparr>"
    using session_lookup [OF ex_builder_ok [OF assms(1)]] assms(2) by simp
  then show ?thesis using assms(3-) ex_bar_digest [of e a c s] by (simp add: record_conflict_def dataset_py_def)
qed

lemma ex_bars_admitted:
  "record_conflict (ex_builder ex_calendar) (ex_bar1 2) = Inr False" "record_conflict (ex_builder ex_calendar) (ex_bar1 3) = Inr False"
  "record_conflict (ex_builder ex_calendar) (ex_bar2 11) = Inr False"
  by (rule ex_bar_admitted [OF ex_calendar_ok]; simp add: ex_calendar_def MINUTE_NS_def)+

lemma ex_maximum: "fb_maximum_records (ex_builder calendar) = 10"
  using ex_builder_init [of calendar]
  by (cases "required_horizon_specs (calendar_version calendar) PAUSE"; auto simp: builder_init_def dest!: sym [where t = "ex_builder calendar"])

lemma ex_records:
  "builder_records (ex_builder ex_calendar) (ex_source [ex_bar1 2, ex_bar1 3, ex_bar2 11]) ex_instrument =
     Inr [ex_bar1 2, ex_bar1 3, ex_bar2 11]"
  "builder_records (ex_builder ex_calendar) (ex_source [ex_bar1 2, ex_bar1 3]) ex_instrument = Inr [ex_bar1 2, ex_bar1 3]"
  by (simp_all add: builder_records_def ex_source_def admit_record_def ex_maximum ex_bars_admitted not_le
      less_imp_neq [OF MINUTE_NS_pos, symmetric])

lemma ex_same_past:
  "same_past (ex_builder ex_calendar) (5 * MINUTE_NS) (ex_source [ex_bar1 2, ex_bar1 3, ex_bar2 11]) (ex_source [ex_bar1 2, ex_bar1 3])"
proof -
  have ids: "src_instrument_ids (ex_source rs) = [ex_instrument]" for rs by (simp add: ex_source_def)
  show ?thesis unfolding same_past_def ids by (simp add: ex_records)
qed

lemma ex_aggregates:
  "cross_sectional_aggregates (ex_builder ex_calendar) (ex_source [ex_bar1 2, ex_bar1 3, ex_bar2 11]) =
     Inr (projr (cross_sectional_aggregates (ex_builder ex_calendar) (ex_source [ex_bar1 2, ex_bar1 3, ex_bar2 11])))"
  "cross_sectional_aggregates (ex_builder ex_calendar) (ex_source [ex_bar1 2, ex_bar1 3]) =
     Inr (projr (cross_sectional_aggregates (ex_builder ex_calendar) (ex_source [ex_bar1 2, ex_bar1 3])))"
proof -
  have still: "return_ppm 100 100 = Inr 0"
    by (simp add: return_ppm_def divide_round_half_away_def checked_int64_def MAX_INT64_def)
  have empty: "sector_at (fb_sectors (ex_builder ex_calendar)) i t k = None" for i t k
  proof -
    obtain ix where ix: "sector_index_init [] = Inr ix" "fb_sectors (ex_builder ex_calendar) = ix"
      using ex_builder_init [of ex_calendar]
      by (cases "required_horizon_specs (calendar_version ex_calendar) PAUSE"; auto simp: builder_init_def dest!: sym [where t = "ex_builder ex_calendar"])
    then show ?thesis using sectors.lookup_None [OF ix(1), of "(i, t, k)"] by (simp add: sector_lookup_def)
  qed
  have ids: "src_instrument_ids (ex_source rs) = [ex_instrument]" for rs by (simp add: ex_source_def)
  have "\<exists>as. cross_sectional_aggregates (ex_builder ex_calendar) (ex_source [ex_bar1 2, ex_bar1 3, ex_bar2 11]) = Inr as"
    "\<exists>as. cross_sectional_aggregates (ex_builder ex_calendar) (ex_source [ex_bar1 2, ex_bar1 3]) = Inr as"
    unfolding cross_sectional_aggregates_def ids
    by (auto simp: aggregate_instrument_def ex_records aggregate_record_def still empty add_point_def MAX_AGGREGATE_POINTS_def
        market_point_def divide_round_half_away_def Let_def)
  then show
    "cross_sectional_aggregates (ex_builder ex_calendar) (ex_source [ex_bar1 2, ex_bar1 3, ex_bar2 11]) =
       Inr (projr (cross_sectional_aggregates (ex_builder ex_calendar) (ex_source [ex_bar1 2, ex_bar1 3, ex_bar2 11])))"
    "cross_sectional_aggregates (ex_builder ex_calendar) (ex_source [ex_bar1 2, ex_bar1 3]) =
       Inr (projr (cross_sectional_aggregates (ex_builder ex_calendar) (ex_source [ex_bar1 2, ex_bar1 3])))"
    by auto
qed

section \<open>Properties\<close>

text \<open>
  Claim C1. No look-ahead. Take two sources whose records agree up to a time \<open>t\<close>, and for each its own cross-sectional
  aggregates. Whenever both passes over the samples return, the samples with an endpoint by \<open>t\<close> are the same in every
  field but the labels and the identity that hashes them: raw and normalized features, validity, reason codes, events,
  feature interval and split. Nothing that happens after \<open>t\<close>, in any instrument, reaches a feature before it.
\<close>

theorem features_no_look_ahead:
  assumes "builder_ok b" and "same_past b t source1 source2"
    and "cross_sectional_aggregates b source1 = Inr aggregates1" and "cross_sectional_aggregates b source2 = Inr aggregates2"
  shows "case (iter_samples b source1 plan aggregates1 normalization [], iter_samples b source2 plan aggregates2 normalization []) of
      (Inr (samples1, _), Inr (samples2, _)) \<Rightarrow>
        map without_labels (samples_upto t samples1) = map without_labels (samples_upto t samples2)
    | _ \<Rightarrow> True"
  by (auto split: sum.splits intro: samples_past [OF assms])

theorem features_no_look_ahead_witness:
  "case (iter_samples (ex_builder ex_calendar) (ex_source [ex_bar1 2, ex_bar1 3, ex_bar2 11]) ex_plan
      (projr (cross_sectional_aggregates (ex_builder ex_calendar) (ex_source [ex_bar1 2, ex_bar1 3, ex_bar2 11]))) None [],
     iter_samples (ex_builder ex_calendar) (ex_source [ex_bar1 2, ex_bar1 3]) ex_plan
      (projr (cross_sectional_aggregates (ex_builder ex_calendar) (ex_source [ex_bar1 2, ex_bar1 3]))) None []) of
      (Inr (samples1, _), Inr (samples2, _)) \<Rightarrow>
        map without_labels (samples_upto (5 * MINUTE_NS) samples1) = map without_labels (samples_upto (5 * MINUTE_NS) samples2)
    | _ \<Rightarrow> True"
  by (rule features_no_look_ahead [OF ex_builder_ok [OF ex_calendar_ok] ex_same_past ex_aggregates])

text \<open>
  Claim C6. Normalization is fitted on the training past. When every TRAIN session has closed by \<open>t\<close>, two sources that agree
  up to \<open>t\<close> give the same statistics, whatever the later sessions hold.
\<close>

theorem normalization_fits_training_past:
  assumes "builder_ok b" and "same_past b t source1 source2"
    and "cross_sectional_aggregates b source1 = Inr aggregates1" and "cross_sectional_aggregates b source2 = Inr aggregates2"
    and "\<forall>s \<in> set (sessions (fb_calendar b)). map_of (sp_session_splits plan) (session_id s) = Some TRAIN \<longrightarrow> session_close s \<le> t"
  shows "case (builder_fit b source1 plan aggregates1, builder_fit b source2 plan aggregates2) of
      (Inr stats1, Inr stats2) \<Rightarrow> stats1 = stats2
    | _ \<Rightarrow> True"
  by (auto split: sum.splits intro: fit_past [OF assms])

theorem normalization_fits_training_past_witness:
  "case (builder_fit (ex_builder ex_calendar) (ex_source [ex_bar1 2, ex_bar1 3, ex_bar2 11]) ex_plan
      (projr (cross_sectional_aggregates (ex_builder ex_calendar) (ex_source [ex_bar1 2, ex_bar1 3, ex_bar2 11]))),
     builder_fit (ex_builder ex_calendar) (ex_source [ex_bar1 2, ex_bar1 3]) ex_plan
      (projr (cross_sectional_aggregates (ex_builder ex_calendar) (ex_source [ex_bar1 2, ex_bar1 3])))) of
      (Inr stats1, Inr stats2) \<Rightarrow> stats1 = stats2
    | _ \<Rightarrow> True"
proof -
  have "fb_calendar (ex_builder ex_calendar) = ex_calendar" by (rule builder_init_Inr(3) [OF ex_builder_init])
  then have "\<forall>s \<in> set (sessions (fb_calendar (ex_builder ex_calendar))).
      map_of (sp_session_splits ex_plan) (session_id s) = Some TRAIN \<longrightarrow> session_close s \<le> 5 * MINUTE_NS"
    using split_names by (simp add: ex_calendar_def ex_plan_def)
  then show ?thesis
    by (rule normalization_fits_training_past [OF ex_builder_ok [OF ex_calendar_ok] ex_same_past ex_aggregates])
qed

text \<open>
  Claim C5. Every label is right. A pass over the samples, however its target cache has grown, labels each sample from one
  admitted record of its instrument: per horizon, in order, a label is MISSING with the code of the horizon error when the
  horizon does not resolve, MISSING when no bar ends at the target, INVALID when the tick grid or the corporate actions
  changed, and otherwise VALID with the close of the target bar, the nearest return in parts per million (ties away from
  zero) and its sign.
\<close>

theorem labels_exact:
  "case iter_samples b source plan aggregates normalization [] of
      Inl e \<Rightarrow> True
    | Inr (samples, cache) \<Rightarrow> list_all (\<lambda>x. \<exists>rs r. builder_records b source (fs_instrument_id x) = Inr rs \<and> r \<in> set rs \<and>
        cm_minute_end r = fs_as_of_ns x \<and> cm_session_id r = fs_session_id x \<and>
        list_all2 (label_spec b rs r) (fb_horizons b) (fs_labels x)) samples"
proof (cases "iter_samples b source plan aggregates normalization []")
  case (Inr p)
  then obtain samples cache where p: "iter_samples b source plan aggregates normalization [] = Inr (samples, cache)"
    by (cases p) auto
  have "\<exists>rs r. builder_records b source (fs_instrument_id x) = Inr rs \<and> r \<in> set rs \<and> cm_minute_end r = fs_as_of_ns x \<and>
      cm_session_id r = fs_session_id x \<and> list_all2 (label_spec b rs r) (fb_horizons b) (fs_labels x)" if x: "x \<in> set samples" for x
  proof -
    obtain i entry ctx r where r: "i \<in> set (src_instrument_ids source)" "map_of (fb_resolved b) i = Some entry"
      "build_context b source i = Inr ctx" "r \<in> set (ic_records ctx)" "sampled b plan entry i ctx aggregates normalization r x"
      by (rule iter_samples_member [OF p x])
    then show ?thesis
      using build_context_Inr(1) [OF r(3)] sampled_identity(1-3) [OF r(5)] sampled_labels [OF r(3,5)] by auto
  qed
  then show ?thesis by (simp add: p list_all_iff)
qed simp




definition ex_full_calendar :: exchange_calendar where
  "ex_full_calendar = \<lparr>calendar_id = lit ''XNYS'', calendar_version = Identifier128 0 1,
     sessions = [\<lparr>session_id = lit ''d1'', session_open = MINUTE_NS, session_close = 10 * MINUTE_NS, halt_intervals = []\<rparr>]\<rparr>"

lemma ex_full_calendar_ok:
  "calendar_ok ex_full_calendar" "\<forall>s \<in> set (sessions ex_full_calendar). counts_fully s"
proof -
  show "calendar_ok ex_full_calendar"
    by (simp add: calendar_ok_def ex_full_calendar_def exchange_calendar_post_init_def
        identifier128_post_init_def trading_session_post_init_def Let_def
        bounded_ascii_def timestamp_in_range_def lit_def MINUTE_NS_def MAX_INT64_def
        MAX_SESSION_ID_BYTES_def MAX_CALENDAR_ID_BYTES_def MAX_CALENDAR_SESSIONS_def)
  let ?s = "\<lparr>session_id = lit ''d1'', session_open = MINUTE_NS, session_close = 10 * MINUTE_NS, halt_intervals = []\<rparr>"
  have "{e. on_minute_grid ?s e \<and> \<not> halted_minute ?s e} \<supseteq> (\<lambda>k. k * MINUTE_NS) ` {2..10}"
    by (auto simp: on_minute_grid_def halted_minute_def)
  then have "card ((\<lambda>k. k * MINUTE_NS) ` {2..10 :: int}) \<le> card {e. on_minute_grid ?s e \<and> \<not> halted_minute ?s e}"
    by (rule card_mono [OF finite_grid])
  moreover have "card ((\<lambda>k. k * MINUTE_NS) ` {2..10 :: int}) = 9"
    by (subst card_image) (auto simp: inj_on_def MINUTE_NS_def)
  ultimately show "\<forall>s \<in> set (sessions ex_full_calendar). counts_fully s"
    by (simp add: ex_full_calendar_def counts_fully_def halted_minute_def)
qed


definition long_session :: "nat \<Rightarrow> trading_session" where
  "long_session k = \<lparr>session_id = [33 + k], session_open = int (20 * k + 1) * MINUTE_NS,
     session_close = int (20 * k + 11) * MINUTE_NS,
     halt_intervals = (if k = 1 then [\<lparr>halt_start = 30 * MINUTE_NS, halt_end = 31 * MINUTE_NS\<rparr>] else [])\<rparr>"

definition long_calendar :: exchange_calendar where
  "long_calendar = \<lparr>calendar_id = lit ''XNYS'', calendar_version = Identifier128 0 1, sessions = map long_session [0..<87]\<rparr>"

lemma long_check_sessions:
  assumes "\<forall>i \<in> ids. \<exists>j < a. i = [33 + j]" and "previous < int (20 * a + 1) * MINUTE_NS"
  shows "check_sessions previous ids (map long_session [a..<a + n]) = None"
  using assms
proof (induction n arbitrary: a ids previous)
  case (Suc n)
  have "[a..<a + Suc n] = a # [Suc a..<Suc a + n]" by (simp add: upt_rec)
  moreover have "check_sessions (session_close (long_session a)) (insert (session_id (long_session a)) ids)
      (map long_session [Suc a..<Suc a + n]) = None"
  proof (rule Suc.IH)
    show "\<forall>i \<in> insert (session_id (long_session a)) ids. \<exists>j < Suc a. i = [33 + j]"
      using Suc.prems(1) less_SucI by (auto simp: long_session_def)
    show "session_close (long_session a) < int (20 * Suc a + 1) * MINUTE_NS" by (simp add: long_session_def MINUTE_NS_def)
  qed
  moreover have "session_id (long_session a) \<notin> ids" using Suc.prems(1) by (auto simp: long_session_def)
  moreover have "\<not> session_open (long_session a) \<le> previous" using Suc.prems(2) by (simp add: long_session_def)
  ultimately show ?case by simp
qed simp

lemma long_calendar_ok: "calendar_ok long_calendar"
proof -
  have "check_sessions 0 {} (map long_session [0..<87]) = None"
    using long_check_sessions [of "{}" 0 0 87] by (simp add: MINUTE_NS_def)
  then have "exchange_calendar_post_init long_calendar = None"
    by (simp add: exchange_calendar_post_init_def long_calendar_def bounded_ascii_def lit_def MAX_CALENDAR_ID_BYTES_def
        MAX_CALENDAR_SESSIONS_def)
  moreover have "trading_session_post_init (long_session k) = None \<and>
      (\<forall>h \<in> set (halt_intervals (long_session k)). halt_interval_post_init h = None)" if "k < 87" for k
    using that by (auto simp: trading_session_post_init_def Let_def long_session_def bounded_ascii_def timestamp_in_range_def
        MINUTE_NS_def MAX_INT64_def MAX_SESSION_ID_BYTES_def halt_interval_post_init_def)
  ultimately show ?thesis
    by (auto simp: calendar_ok_def long_calendar_def identifier128_post_init_def)
qed

lemma long_resolve:
  "resolve_horizon (session_spec (lit ''2mo'') 42 (Identifier128 0 1) PAUSE) (2 * MINUTE_NS) long_calendar =
     Inr \<lparr>ht_spec = session_spec (lit ''2mo'') 42 (Identifier128 0 1) PAUSE, ht_as_of = 2 * MINUTE_NS,
          ht_target = 871 * MINUTE_NS, ht_elapsed_ns = 869 * MINUTE_NS\<rparr>"
  by code_simp

lemma long_plan:
  "case build_split_plan (map session_id (sessions long_calendar)) of Inl e \<Rightarrow> False | Inr plan \<Rightarrow>
     map_of (sp_session_splits plan) [33] = Some TRAIN \<and> map_of (sp_session_splits plan) [76] = Some VALIDATION"
  by code_simp


text \<open>
  Claim C24. The split plan is chronological and total. Exactly for at least eighty-seven distinct sessions there is a plan;
  it cuts the sessions, in order, into training, forty-two purged, validation, forty-two purged and test sessions, with the
  documented counts, and assigns a split to the sessions of the three parts and to no other.
\<close>

theorem split_plan_chronological:
  "case build_split_plan observed of
      Inl e \<Rightarrow> \<not> (distinct observed \<and> 87 \<le> length observed)
    | Inr p \<Rightarrow> distinct observed \<and> 87 \<le> length observed \<and>
        observed = sp_train_sessions p @ sp_first_purge_sessions p @ sp_validation_sessions p @
          sp_second_purge_sessions p @ sp_test_sessions p \<and>
        length (sp_first_purge_sessions p) = 42 \<and> length (sp_second_purge_sessions p) = 42 \<and>
        (length (sp_train_sessions p), length (sp_validation_sessions p), length (sp_test_sessions p)) =
          split_counts (length observed - 84) \<and>
        sp_train_sessions p \<noteq> [] \<and> sp_validation_sessions p \<noteq> [] \<and> sp_test_sessions p \<noteq> [] \<and>
        map_of (sp_session_splits p) =
          (\<lambda>s. if s \<in> set (sp_train_sessions p) then Some TRAIN else if s \<in> set (sp_validation_sessions p) then Some VALIDATION
            else if s \<in> set (sp_test_sessions p) then Some TEST else None)"
proof (cases "build_split_plan observed")
  case (Inl e)
  then have "\<nexists>p. build_split_plan observed = Inr p" by simp
  then show ?thesis using Inl unfolding build_split_plan_Inr by (auto simp: not_le)
next
  case (Inr p)
  note parts = split_plan_parts [OF Inr]
  obtain t v w where counts: "split_counts (length observed - 84) = (t, v, w)" by (metis prod_cases3)
  have "0 < t" "0 < v" "0 < w" using split_counts_sum(2-4) [OF _ counts] parts(7) by simp_all
  then have "sp_train_sessions p \<noteq> []" "sp_validation_sessions p \<noteq> []" "sp_test_sessions p \<noteq> []"
    using parts(4) counts by auto
  then show ?thesis using Inr parts(1-4,6,7) by (auto simp: parts(5))
qed

text \<open>
  Claim C14. The pruned event index answers like a full scan. For accepted events, the lookup by binary search and prefix
  maxima returns, per covered kind, whether any event of the instrument (or any macro event) is available by the cutoff and
  still valid, the sorted identities of exactly those events and their latest availability, which is never after the cutoff.
\<close>

theorem event_index_exact:
  assumes "\<forall>e \<in> set events. event_ok e" and "0 \<le> as_of"
  shows "case event_index_init events coverage authenticated of
      Inl e \<Rightarrow> True
    | Inr index \<Rightarrow> event_index_active index instrument_id as_of =
        (case scanned_events events index instrument_id as_of of (news, macro) \<Rightarrow>
          \<lparr>ae_news = (if kind_covered index NEWS as_of then Some (news \<noteq> []) else None),
           ae_macro = (if kind_covered index MACRO as_of then Some (macro \<noteq> []) else None),
           ae_ids = sort (map ev_record_id (news @ macro)),
           ae_available_at_ns = (if news @ macro = [] then 0 else Max (set (map ev_available_at_ns (news @ macro))))\<rparr>) \<and>
        ae_available_at_ns (event_index_active index instrument_id as_of) \<le> as_of"
  using event_index_scan [OF _ assms(1)] active_availability [OF _ assms] by (simp split: sum.split)

definition ex_event :: feature_event where
  "ex_event = \<lparr>ev_record_id = lit ''e1'', ev_revision_id = lit ''r1'', ev_kind = MACRO, ev_instrument_id = None,
     ev_event_time_ns = 5, ev_available_at_ns = 6, ev_valid_until_ns = 20, ev_source_sha256 = replicate 64 49\<rparr>"

lemma ex_event_ok: "event_ok ex_event"
  by (simp add: event_ok_def feature_event_post_init_def ex_event_def dataset_require_text_def dataset_require_sha256_def lit_def
      MAX_INT64_def is_hex_digit_def list_all_iff)

theorem event_index_exact_witness:
  "case event_index_init [ex_event] None None of
      Inl e \<Rightarrow> True
    | Inr index \<Rightarrow> event_index_active index ex_instrument 7 =
        (case scanned_events [ex_event] index ex_instrument 7 of (news, macro) \<Rightarrow>
          \<lparr>ae_news = (if kind_covered index NEWS 7 then Some (news \<noteq> []) else None),
           ae_macro = (if kind_covered index MACRO 7 then Some (macro \<noteq> []) else None),
           ae_ids = sort (map ev_record_id (news @ macro)),
           ae_available_at_ns = (if news @ macro = [] then 0 else Max (set (map ev_available_at_ns (news @ macro))))\<rparr>) \<and>
        ae_available_at_ns (event_index_active index ex_instrument 7) \<le> 7"
  by (rule event_index_exact) (simp_all add: ex_event_ok)

text \<open>
  A sector lookup is point-in-time: it returns the revision with the greatest version among those of the
  instrument that are available by the knowledge time and in effect at the event time, and none exactly when there is none.
\<close>

theorem sector_at_exact:
  assumes "sector_index_init revisions = Inr index"
  shows "(sector_at index instrument_id event_time known_at = Some r \<longleftrightarrow>
      r \<in> set revisions \<and> sec_instrument_id r = instrument_id \<and> sector_applies r event_time known_at \<and>
      (\<forall>r' \<in> set revisions. sec_instrument_id r' = instrument_id \<and> sector_applies r' event_time known_at \<longrightarrow>
         sec_version r' \<le> sec_version r)) \<and>
    (sector_at index instrument_id event_time known_at = None \<longleftrightarrow>
      (\<forall>r' \<in> set revisions. \<not> (sec_instrument_id r' = instrument_id \<and> sector_applies r' event_time known_at)))"
  using sectors.lookup_greatest [OF assms, of "(instrument_id, event_time, known_at)" r]
    sectors.lookup_None [OF assms, of "(instrument_id, event_time, known_at)"]
  by (simp add: sector_lookup_def sector_query_applies_def)

definition covered_labels :: "universe_snapshot \<Rightarrow> feature_sample list \<Rightarrow> label_coverage \<Rightarrow> feature_label list" where
  "covered_labels universe samples row = cell_labels (lc_symbol row, lc_horizon row)
     (sample_labels (ca_entry_by_instrument (coverage_init universe)) samples)"

definition row_exact :: "universe_snapshot \<Rightarrow> feature_sample list \<Rightarrow> label_coverage \<Rightarrow> bool" where
  "row_exact universe samples row \<longleftrightarrow>
     (let ls = covered_labels universe samples row in
      lc_samples row = length ls \<and>
      lc_valid row = length (filter (\<lambda>l. fl_validity l = LABEL_VALID) ls) \<and>
      lc_missing row = length (filter (\<lambda>l. fl_validity l = LABEL_MISSING) ls) \<and>
      lc_invalid row = length (filter (\<lambda>l. fl_validity l = LABEL_INVALID) ls) \<and>
      lc_samples row = lc_valid row + lc_missing row + lc_invalid row \<and>
      (ls \<noteq> [] \<longrightarrow> sorted (lc_reason_counts row) \<and> distinct (map fst (lc_reason_counts row)) \<and>
         (\<forall>reason n. (reason, n) \<in> set (lc_reason_counts row) \<longleftrightarrow> 0 < n \<and> n = reason_number ls reason)))"

lemma coverage_row_exact:
  assumes "build_label_coverage universe samples = Inr rows" and "row \<in> set rows"
  shows "row_exact universe samples row"
proof -
  let ?ls = "covered_labels universe samples row"
  obtain c where c: "fresh_counts c" and row: "row = freeze_counts (lc_symbol row) (lc_horizon row) (fold count_label ?ls c)"
    unfolding covered_labels_def by (rule coverage_row [OF assms])
  let ?counts = "cc_reason_counts (fold count_label ?ls c)"
  have fields: "lc_samples row = cc_samples (fold count_label ?ls c)" "lc_valid row = cc_valid (fold count_label ?ls c)"
    "lc_missing row = cc_missing (fold count_label ?ls c)" "lc_invalid row = cc_invalid (fold count_label ?ls c)"
    "lc_reason_counts row = sort ?counts"
    by (subst row, simp add: freeze_counts_def)+
  have reasons: "distinct (map fst (sort ?counts)) \<and> (\<forall>reason n. (reason, n) \<in> set (sort ?counts) \<longleftrightarrow> 0 < n \<and> n = reason_number ?ls reason)"
    if "?ls \<noteq> []"
  proof -
    have d: "distinct (map fst ?counts)" using counted_reasons [OF c that] by blast
    have "mset (map fst (sort ?counts)) = mset (map fst ?counts)" by simp
    from mset_eq_imp_distinct_iff [OF this] d have "distinct (map fst (sort ?counts))" by blast
    moreover have "(reason, n) \<in> set ?counts \<longleftrightarrow> 0 < n \<and> n = reason_number ?ls reason" for reason n
      unfolding map_of_eq_Some_iff [OF d, symmetric] using counted_reasons [OF c that, of reason] by auto
    ultimately show ?thesis by simp
  qed
  show ?thesis
    unfolding row_exact_def Let_def fields using counted_labels [OF c, of ?ls] reasons validity_partition [of ?ls] by simp
qed

text \<open>
  Claim C25. Coverage rows count exactly. In every row of a returned coverage table the numbers of samples, valid, missing and
  invalid labels are those of the labels of that symbol and horizon, they add up, and as soon as there is one label the
  reasons are counted once each, sorted, with no zero entry.
\<close>

theorem coverage_counts_exact:
  "case build_label_coverage universe samples of Inl e \<Rightarrow> True | Inr rows \<Rightarrow> list_all (row_exact universe samples) rows"
  by (auto simp: list_all_iff coverage_row_exact split: sum.split)

text \<open>
  Claim C26. Session summaries are exact: for the admitted records of an instrument there is one summary per observed session,
  and it holds the first open, the greatest high, the least low, the last close, the total volume and the number of the
  session's bars, is VALID exactly when no bar is degraded and no minute is missing, and hashes the bars' digests in order.
\<close>

theorem session_summaries_exact:
  assumes "builder_ok b" and "builder_records b source i = Inr rs"
  shows "case summaries_for_records rs of Inl e \<Rightarrow> True | Inr ss \<Rightarrow>
    distinct (map ss_session_id ss) \<and> ss_session_id ` set ss = cm_session_id ` set rs \<and>
    list_all (\<lambda>s. summary_spec s (filter (\<lambda>r. cm_session_id r = ss_session_id s) rs)) ss"
  using summaries_exact [OF assms] by (simp add: list_all_iff split: sum.split)

theorem session_summaries_exact_witness:
  "case summaries_for_records [ex_bar1 2, ex_bar1 3, ex_bar2 11] of Inl e \<Rightarrow> True | Inr ss \<Rightarrow>
    distinct (map ss_session_id ss) \<and> ss_session_id ` set ss = cm_session_id ` set [ex_bar1 2, ex_bar1 3, ex_bar2 11] \<and>
    list_all (\<lambda>s. summary_spec s (filter (\<lambda>r. cm_session_id r = ss_session_id s) [ex_bar1 2, ex_bar1 3, ex_bar2 11])) ss"
  by (rule session_summaries_exact [OF ex_builder_ok [OF ex_calendar_ok] ex_records(1)])

end
