(* ===== verification/Spec2Isabelle.thy ===== *)
theory Spec2Isabelle
  imports Leakage Sqlite_Proofs Feature_Properties
begin

text \<open>
  Verification of the offline research layer of Aegis-MX (\<open>python/research/aegis_mx_research\<close>).
\<close>

end
